theory Spec2Isabelle
  imports Main "HOL-Library.Word" "HOL-Library.Monad_Syntax"
begin

unbundle bit_operations_syntax

section \<open>The TI CPSW Address Lookup Engine driver (cpsw\_ale.c)\<close>

text \<open>
  A shallow embedding of \<^verbatim>\<open>drivers/net/ethernet/ti/cpsw_ale.c\<close>. C values of type
  \<^verbatim>\<open>u32\<close> and \<^verbatim>\<open>int\<close> are 32-bit words (an \<^verbatim>\<open>int\<close> is read through its bit
  pattern; the driver only masks, shifts and tests such values against zero).
  Every function is in the option monad: \<open>None\<close> stands for behaviour the C
  language leaves undefined (an index outside an array, a shift by at least the
  width of the shifted type), \<open>Some\<close> for a run that returns.  Error returns
  (\<^verbatim>\<open>-ENOENT\<close>, \<^verbatim>\<open>-ENOMEM\<close>, \<^verbatim>\<open>-EINVAL\<close>) are values of a sum type.
\<close>

type_synonym u8 = "8 word"
type_synonym u16 = "16 word"
type_synonym u32 = "32 word"

subsection \<open>Shifts and bit masks\<close>

text \<open>
  A shift of a 32-bit value is defined for counts \<open>0 \<le> n < 32\<close> only.
\<close>

definition shl32 :: "u32 \<Rightarrow> int \<Rightarrow> u32 option" where
  "shl32 x n = (if 0 \<le> n \<and> n < 32 then Some (push_bit (nat n) x) else None)"

definition shr32 :: "u32 \<Rightarrow> int \<Rightarrow> u32 option" where
  "shr32 x n = (if 0 \<le> n \<and> n < 32 then Some (drop_bit (nat n) x) else None)"

text \<open>
  \<^verbatim>\<open>#define BITMASK(bits) (BIT(bits) - 1)\<close>.  The kernel's \<^verbatim>\<open>BIT(nr)\<close> is
  \<^verbatim>\<open>1UL << nr\<close>, a shift of an \<^verbatim>\<open>unsigned long\<close>; its header is not part of the
  sources, so the width \<open>L\<close> of \<^verbatim>\<open>unsigned long\<close> (\<^verbatim>\<open>BITS_PER_LONG\<close>: 32 on the
  32-bit ARM SoCs, 64 on the K3 SoCs) is a parameter of every function that
  builds a mask.  All uses store the mask into, or combine it with, a 32-bit
  value, so the model keeps its low 32 bits.
\<close>

definition BITMASK :: "nat \<Rightarrow> int \<Rightarrow> u32 option" where
  "BITMASK L bits = (if 0 \<le> bits \<and> bits < int L then Some (mask (nat bits)) else None)"

subsection \<open>The bit-field codec\<close>

text \<open>
  \<^verbatim>\<open>u32 ale_entry[ALE_ENTRY_WORDS]\<close>: three words, word 0 holding bits 64..95.
  \<open>word_at\<close> and \<open>word_upd\<close> are the array read and write; an index outside
  \<open>0..2\<close> is outside the array.
\<close>

type_synonym ale_entry = "u32 \<times> u32 \<times> u32"

fun word_at :: "ale_entry \<Rightarrow> int \<Rightarrow> u32 option" where
  "word_at (w0, w1, w2) i =
     (if i = 0 then Some w0 else if i = 1 then Some w1 else if i = 2 then Some w2 else None)"

fun word_upd :: "ale_entry \<Rightarrow> int \<Rightarrow> u32 \<Rightarrow> ale_entry option" where
  "word_upd (w0, w1, w2) i v =
     (if i = 0 then Some (v, w1, w2) else if i = 1 then Some (w0, v, w2)
      else if i = 2 then Some (w0, w1, v) else None)"

text \<open>
  \<^verbatim>\<open>cpsw_ale_get_field\<close>.  \<open>start\<close> and \<open>bits\<close> are \<^verbatim>\<open>u32\<close>, so
  \<open>start + bits - 1\<close> and \<open>idx2 * 32 - start\<close> wrap modulo \<open>2^32\<close>; \<open>idx\<close>,
  \<open>idx2\<close> and \<open>index\<close> are \<^verbatim>\<open>int\<close>.
\<close>

definition cpsw_ale_get_field :: "nat \<Rightarrow> ale_entry \<Rightarrow> u32 \<Rightarrow> u32 \<Rightarrow> u32 option" where
  "cpsw_ale_get_field L ale_entry start bits =
     (let idx = start div 32;
          idx2 = (start + bits - 1) div 32
      in do {
        hi_val \<leftarrow> (if idx \<noteq> idx2
                   then do {
                     w \<leftarrow> word_at ale_entry (2 - uint idx2);
                     shl32 w (uint (idx2 * 32 - start))
                   }
                   else Some 0);
        w \<leftarrow> word_at ale_entry (2 - uint idx);
        lo \<leftarrow> shr32 w (uint (start - idx * 32));
        m \<leftarrow> BITMASK L (uint bits);
        Some ((hi_val + lo) AND m)
      })"

text \<open>\<^verbatim>\<open>cpsw_ale_set_field\<close>.\<close>

definition cpsw_ale_set_field ::
  "nat \<Rightarrow> ale_entry \<Rightarrow> u32 \<Rightarrow> u32 \<Rightarrow> u32 \<Rightarrow> ale_entry option" where
  "cpsw_ale_set_field L ale_entry start bits value0 =
     do {
       m \<leftarrow> BITMASK L (uint bits);
       let val = value0 AND m;
       let idx = start div 32;
       let idx2 = (start + bits - 1) div 32;
       e1 \<leftarrow> (if idx \<noteq> idx2
                then do {
                  w \<leftarrow> word_at ale_entry (2 - uint idx2);
                  m2 \<leftarrow> BITMASK L (uint (bits + start - idx2 * 32));
                  hi \<leftarrow> shr32 val (uint (idx2 * 32 - start));
                  word_upd ale_entry (2 - uint idx2) ((w AND NOT m2) OR hi)
                }
                else Some ale_entry);
       let start' = start - idx * 32;
       w \<leftarrow> word_at e1 (2 - uint idx);
       m3 \<leftarrow> shl32 m (uint start');
       v3 \<leftarrow> shl32 val (uint start');
       word_upd e1 (2 - uint idx) ((w AND NOT m3) OR v3)
     }"


subsection \<open>Entry fields\<close>

definition ALE_TYPE_FREE :: u32 where "ALE_TYPE_FREE = 0"
definition ALE_TYPE_ADDR :: u32 where "ALE_TYPE_ADDR = 1"
definition ALE_TYPE_VLAN :: u32 where "ALE_TYPE_VLAN = 2"
definition ALE_TYPE_VLAN_ADDR :: u32 where "ALE_TYPE_VLAN_ADDR = 3"

definition ALE_UCAST_PERSISTANT :: u32 where "ALE_UCAST_PERSISTANT = 0"
definition ALE_UCAST_UNTOUCHED :: u32 where "ALE_UCAST_UNTOUCHED = 1"
definition ALE_UCAST_OUI :: u32 where "ALE_UCAST_OUI = 2"

text \<open>
  Modelled from the spec: the flag bits and the host-port bit of \<^verbatim>\<open>cpsw_ale.h\<close>,
  which is not among the sources.  The spec names the flags of an add operation
  (Vlan, Secure, Blocked, Super) and treats a port mask as a bit set over the host
  port and the external ports; each flag is one bit of the \<^verbatim>\<open>flags\<close> argument and
  the host port is port 0 (the source keeps its untag state in
  \<^verbatim>\<open>p0_untag_vid_mask\<close>).
\<close>

definition ALE_SECURE :: u32 where "ALE_SECURE = 1"
definition ALE_BLOCKED :: u32 where "ALE_BLOCKED = 2"
definition ALE_SUPER :: u32 where "ALE_SUPER = 4"
definition ALE_VLAN :: u32 where "ALE_VLAN = 8"
definition ALE_PORT_HOST :: u32 where "ALE_PORT_HOST = 1"

text \<open>
  Modelled from the spec: \<^verbatim>\<open>VLAN_N_VID\<close> of \<^verbatim>\<open>linux/if_vlan.h\<close> (absent), the
  size of the host-port untag bitmap (``a bitmap of size = max VLAN id'').
\<close>

definition VLAN_N_VID :: nat where "VLAN_N_VID = 4096"

text \<open>The accessors generated by \<^verbatim>\<open>DEFINE_ALE_FIELD\<close> and \<^verbatim>\<open>DEFINE_ALE_FIELD1\<close>.\<close>

definition cpsw_ale_get_entry_type :: "nat \<Rightarrow> ale_entry \<Rightarrow> u32 option" where
  "cpsw_ale_get_entry_type L e = cpsw_ale_get_field L e 60 2"

definition cpsw_ale_set_entry_type :: "nat \<Rightarrow> ale_entry \<Rightarrow> u32 \<Rightarrow> ale_entry option" where
  "cpsw_ale_set_entry_type L e v = cpsw_ale_set_field L e 60 2 v"

definition cpsw_ale_get_vlan_id :: "nat \<Rightarrow> ale_entry \<Rightarrow> u32 option" where
  "cpsw_ale_get_vlan_id L e = cpsw_ale_get_field L e 48 12"

definition cpsw_ale_set_vlan_id :: "nat \<Rightarrow> ale_entry \<Rightarrow> u32 \<Rightarrow> ale_entry option" where
  "cpsw_ale_set_vlan_id L e v = cpsw_ale_set_field L e 48 12 v"

definition cpsw_ale_set_mcast_state :: "nat \<Rightarrow> ale_entry \<Rightarrow> u32 \<Rightarrow> ale_entry option" where
  "cpsw_ale_set_mcast_state L e v = cpsw_ale_set_field L e 62 2 v"

definition cpsw_ale_get_port_mask :: "nat \<Rightarrow> ale_entry \<Rightarrow> u32 \<Rightarrow> u32 option" where
  "cpsw_ale_get_port_mask L e bits = cpsw_ale_get_field L e 66 bits"

definition cpsw_ale_set_port_mask ::
  "nat \<Rightarrow> ale_entry \<Rightarrow> u32 \<Rightarrow> u32 \<Rightarrow> ale_entry option" where
  "cpsw_ale_set_port_mask L e v bits = cpsw_ale_set_field L e 66 bits v"

definition cpsw_ale_get_super :: "nat \<Rightarrow> ale_entry \<Rightarrow> u32 option" where
  "cpsw_ale_get_super L e = cpsw_ale_get_field L e 65 1"

definition cpsw_ale_set_super :: "nat \<Rightarrow> ale_entry \<Rightarrow> u32 \<Rightarrow> ale_entry option" where
  "cpsw_ale_set_super L e v = cpsw_ale_set_field L e 65 1 v"

definition cpsw_ale_get_ucast_type :: "nat \<Rightarrow> ale_entry \<Rightarrow> u32 option" where
  "cpsw_ale_get_ucast_type L e = cpsw_ale_get_field L e 62 2"

definition cpsw_ale_set_ucast_type :: "nat \<Rightarrow> ale_entry \<Rightarrow> u32 \<Rightarrow> ale_entry option" where
  "cpsw_ale_set_ucast_type L e v = cpsw_ale_set_field L e 62 2 v"

definition cpsw_ale_set_port_num ::
  "nat \<Rightarrow> ale_entry \<Rightarrow> u32 \<Rightarrow> u32 \<Rightarrow> ale_entry option" where
  "cpsw_ale_set_port_num L e v bits = cpsw_ale_set_field L e 66 bits v"

definition cpsw_ale_set_blocked :: "nat \<Rightarrow> ale_entry \<Rightarrow> u32 \<Rightarrow> ale_entry option" where
  "cpsw_ale_set_blocked L e v = cpsw_ale_set_field L e 65 1 v"

definition cpsw_ale_set_secure :: "nat \<Rightarrow> ale_entry \<Rightarrow> u32 \<Rightarrow> ale_entry option" where
  "cpsw_ale_set_secure L e v = cpsw_ale_set_field L e 64 1 v"

definition cpsw_ale_get_mcast :: "nat \<Rightarrow> ale_entry \<Rightarrow> u32 option" where
  "cpsw_ale_get_mcast L e = cpsw_ale_get_field L e 40 1"

text \<open>
  \<^verbatim>\<open>cpsw_ale_get_addr\<close> and \<^verbatim>\<open>cpsw_ale_set_addr\<close>: byte \<open>i\<close> of the MAC address
  is the field at bit \<open>40 - 8 i\<close>.  An address is the array of bytes behind the
  \<^verbatim>\<open>u8 *\<close>; reading byte \<open>i\<close> of a shorter array is outside it.
\<close>

fun get_addr_loop :: "nat \<Rightarrow> ale_entry \<Rightarrow> nat list \<Rightarrow> u8 list option" where
  "get_addr_loop L e [] = Some []"
| "get_addr_loop L e (i # is) =
     do {
       b \<leftarrow> cpsw_ale_get_field L e (40 - 8 * of_nat i) 8;
       bs \<leftarrow> get_addr_loop L e is;
       Some (ucast b # bs)
     }"

definition cpsw_ale_get_addr :: "nat \<Rightarrow> ale_entry \<Rightarrow> u8 list option" where
  "cpsw_ale_get_addr L e = get_addr_loop L e [0..<6]"

fun set_addr_loop :: "nat \<Rightarrow> ale_entry \<Rightarrow> u8 list \<Rightarrow> nat list \<Rightarrow> ale_entry option" where
  "set_addr_loop L e addr [] = Some e"
| "set_addr_loop L e addr (i # is) =
     (if i < length addr
      then do {
        e' \<leftarrow> cpsw_ale_set_field L e (40 - 8 * of_nat i) 8 (ucast (addr ! i));
        set_addr_loop L e' addr is
      }
      else None)"

definition cpsw_ale_set_addr :: "nat \<Rightarrow> ale_entry \<Rightarrow> u8 list \<Rightarrow> ale_entry option" where
  "cpsw_ale_set_addr L e addr = set_addr_loop L e addr [0..<6]"

text \<open>
  Modelled from the spec: \<^verbatim>\<open>ether_addr_equal\<close> of \<^verbatim>\<open>linux/etherdevice.h\<close>
  (absent): ``MAC matches exactly'', a comparison of the six bytes of each address.
\<close>

definition ether_addr_equal :: "u8 list \<Rightarrow> u8 list \<Rightarrow> bool option" where
  "ether_addr_equal a b =
     (if length a < 6 \<or> length b < 6 then None else Some (take 6 a = take 6 b))"

subsection \<open>The engine handle and the device behind it\<close>

datatype errno = ENOENT | ENOMEM | EINVAL

text \<open>
  Modelled from the spec: the numeric values of the error codes
  (\<^verbatim>\<open>errno-base.h\<close>, absent); \<open>neg_errno\<close> is the bit pattern of the \<^verbatim>\<open>int\<close>
  \<open>-E\<close> that a field getter returns in place of a field value.
\<close>

fun errno_code :: "errno \<Rightarrow> u32" where
  "errno_code ENOENT = 2"
| "errno_code ENOMEM = 12"
| "errno_code EINVAL = 22"

definition neg_errno :: "errno \<Rightarrow> u32" where
  "neg_errno e = - errno_code e"

datatype log_level = KERN_ERR | KERN_WARNING | KERN_INFO | KERN_DEBUG

text \<open>\<^verbatim>\<open>struct ale_entry_fld\<close> and its flags.\<close>

record ale_entry_fld =
  start_bit :: u8
  num_bits :: u8
  fld_flags :: u8

definition ALE_FLD_ALLOWED :: u8 where "ALE_FLD_ALLOWED = 1"
definition ALE_FLD_SIZE_PORT_MASK_BITS :: u8 where "ALE_FLD_SIZE_PORT_MASK_BITS = 2"
definition ALE_FLD_SIZE_PORT_NUM_BITS :: u8 where "ALE_FLD_SIZE_PORT_NUM_BITS = 4"

definition ALE_ENT_VID_MEMBER_LIST :: nat where "ALE_ENT_VID_MEMBER_LIST = 0"
definition ALE_ENT_VID_UNREG_MCAST_MSK :: nat where "ALE_ENT_VID_UNREG_MCAST_MSK = 1"
definition ALE_ENT_VID_REG_MCAST_MSK :: nat where "ALE_ENT_VID_REG_MCAST_MSK = 2"
definition ALE_ENT_VID_FORCE_UNTAGGED_MSK :: nat where "ALE_ENT_VID_FORCE_UNTAGGED_MSK = 3"
definition ALE_ENT_VID_UNREG_MCAST_IDX :: nat where "ALE_ENT_VID_UNREG_MCAST_IDX = 4"
definition ALE_ENT_VID_REG_MCAST_IDX :: nat where "ALE_ENT_VID_REG_MCAST_IDX = 5"
definition ALE_ENT_VID_LAST :: nat where "ALE_ENT_VID_LAST = 6"

definition ALE_ENTRY_FLD :: "u8 \<Rightarrow> u8 \<Rightarrow> ale_entry_fld" where
  "ALE_ENTRY_FLD start bits = \<lparr>start_bit = start, num_bits = bits, fld_flags = ALE_FLD_ALLOWED\<rparr>"

definition ALE_ENTRY_FLD_DYN_MSK_SIZE :: "u8 \<Rightarrow> ale_entry_fld" where
  "ALE_ENTRY_FLD_DYN_MSK_SIZE start =
     \<lparr>start_bit = start, num_bits = 0,
      fld_flags = ALE_FLD_ALLOWED OR ALE_FLD_SIZE_PORT_MASK_BITS\<rparr>"

definition no_fld :: ale_entry_fld where
  "no_fld = \<lparr>start_bit = 0, num_bits = 0, fld_flags = 0\<rparr>"

text \<open>
  The three layout tables, as lists indexed by field id; an id without an
  initialiser is zero-filled.  \<^verbatim>\<open>vlan_entry_k3_cpswxg[]\<close> has no declared size and
  ends at its last initialiser.
\<close>

definition vlan_entry_cpsw :: "ale_entry_fld list" where
  "vlan_entry_cpsw =
     [ALE_ENTRY_FLD 0 3, ALE_ENTRY_FLD 8 3, ALE_ENTRY_FLD 16 3, ALE_ENTRY_FLD 24 3,
      no_fld, no_fld]"

definition vlan_entry_nu :: "ale_entry_fld list" where
  "vlan_entry_nu =
     [ALE_ENTRY_FLD_DYN_MSK_SIZE 0, no_fld, no_fld, ALE_ENTRY_FLD_DYN_MSK_SIZE 24,
      ALE_ENTRY_FLD 20 3, ALE_ENTRY_FLD 44 3]"

definition vlan_entry_k3_cpswxg :: "ale_entry_fld list" where
  "vlan_entry_k3_cpswxg =
     [ALE_ENTRY_FLD_DYN_MSK_SIZE 0, ALE_ENTRY_FLD_DYN_MSK_SIZE 12,
      ALE_ENTRY_FLD_DYN_MSK_SIZE 36, ALE_ENTRY_FLD_DYN_MSK_SIZE 24]"

text \<open>\<^verbatim>\<open>struct ale_control_info\<close>.\<close>

record ale_control_info =
  info_name :: string
  info_offset :: int
  info_port_offset :: int
  info_shift :: int
  info_port_shift :: int
  info_bits :: int

text \<open>
  Modelled from the spec: \<^verbatim>\<open>struct cpsw_ale_params\<close> and \<^verbatim>\<open>struct cpsw_ale\<close> of
  \<^verbatim>\<open>cpsw_ale.h\<close> (absent), with the fields the source reads and writes.  The
  sizes and rates of the parameters are unsigned and of type \<open>nat\<close>.  The handle
  also carries what the source reaches through it: the device's table, read and
  written by index (spec 4.3: reading index \<open>i\<close> yields the three words of
  entry \<open>i\<close>, writing stores them), the device's other registers by byte offset
  from \<^verbatim>\<open>ale_regs\<close>, the file-scope array \<^verbatim>\<open>ale_controls\<close>, and the messages
  logged so far.
\<close>

record cpsw_ale_params =
  ale_ageout :: nat
  ale_entries :: nat
  ale_ports :: nat
  nu_switch_ale :: bool
  bus_freq :: nat

record cpsw_ale =
  params :: cpsw_ale_params
  ageout :: nat
  features :: u32
  port_mask_bits :: u32
  port_num_bits :: u32
  vlan_entry_tbl :: "ale_entry_fld list"
  p0_untag_vid_mask :: "nat set"
  timer :: "nat option"
  ale_table :: "nat \<Rightarrow> ale_entry"
  ale_regs :: "int \<Rightarrow> u32"
  ale_controls :: "ale_control_info list"
  klog :: "(log_level \<times> string) list"

definition dev_log :: "log_level \<Rightarrow> string \<Rightarrow> cpsw_ale \<Rightarrow> cpsw_ale" where
  "dev_log lvl msg ale = ale\<lparr>klog := klog ale @ [(lvl, msg)]\<rparr>"


definition readl :: "cpsw_ale \<Rightarrow> int \<Rightarrow> u32" where
  "readl ale off = ale_regs ale off"

definition writel :: "u32 \<Rightarrow> int \<Rightarrow> cpsw_ale \<Rightarrow> cpsw_ale" where
  "writel v off ale = ale\<lparr>ale_regs := (ale_regs ale)(off := v)\<rparr>"

text \<open>
  \<^verbatim>\<open>bitmap_set(map, vid, 1)\<close> and \<^verbatim>\<open>bitmap_clear(map, vid, 1)\<close> on the bitmap of
  \<^verbatim>\<open>VLAN_N_VID\<close> bits; a bit outside the bitmap is outside the allocation.
\<close>

definition bitmap_set :: "nat \<Rightarrow> cpsw_ale \<Rightarrow> cpsw_ale option" where
  "bitmap_set vid ale =
     (if vid < VLAN_N_VID
      then Some (ale\<lparr>p0_untag_vid_mask := insert vid (p0_untag_vid_mask ale)\<rparr>)
      else None)"

definition bitmap_clear :: "nat \<Rightarrow> cpsw_ale \<Rightarrow> cpsw_ale option" where
  "bitmap_clear vid ale =
     (if vid < VLAN_N_VID
      then Some (ale\<lparr>p0_untag_vid_mask := p0_untag_vid_mask ale - {vid}\<rparr>)
      else None)"

text \<open>
  \<^verbatim>\<open>cpsw_ale_entry_get_fld\<close> and \<^verbatim>\<open>cpsw_ale_entry_set_fld\<close>.  The handle and the
  entry are never null in the model.  The getter returns an \<^verbatim>\<open>int\<close>: the field,
  or \<open>-ENOENT\<close> for a field the layout does not allow (after logging).
\<close>

definition cpsw_ale_entry_get_fld ::
  "nat \<Rightarrow> cpsw_ale \<Rightarrow> ale_entry \<Rightarrow> ale_entry_fld list \<Rightarrow> nat \<Rightarrow> (u32 \<times> cpsw_ale) option" where
  "cpsw_ale_entry_get_fld L ale e entry_tbl fld_id =
     (if fld_id < length entry_tbl
      then (let entry_fld = entry_tbl ! fld_id in
            if fld_flags entry_fld AND ALE_FLD_ALLOWED = 0
            then Some (neg_errno ENOENT, dev_log KERN_ERR ''get: wrong ale fld id %d'' ale)
            else do {
              let bits = (if fld_flags entry_fld AND ALE_FLD_SIZE_PORT_MASK_BITS \<noteq> 0
                          then port_mask_bits ale else ucast (num_bits entry_fld));
              v \<leftarrow> cpsw_ale_get_field L e (ucast (start_bit entry_fld)) bits;
              Some (v, ale)
            })
      else None)"

definition cpsw_ale_entry_set_fld ::
  "nat \<Rightarrow> cpsw_ale \<Rightarrow> ale_entry \<Rightarrow> ale_entry_fld list \<Rightarrow> nat \<Rightarrow> u32
     \<Rightarrow> (ale_entry \<times> cpsw_ale) option" where
  "cpsw_ale_entry_set_fld L ale e entry_tbl fld_id v =
     (if fld_id < length entry_tbl
      then (let entry_fld = entry_tbl ! fld_id in
            if fld_flags entry_fld AND ALE_FLD_ALLOWED = 0
            then Some (e, dev_log KERN_ERR ''set: wrong ale fld id %d'' ale)
            else do {
              let bits = (if fld_flags entry_fld AND ALE_FLD_SIZE_PORT_MASK_BITS \<noteq> 0
                          then port_mask_bits ale else ucast (num_bits entry_fld));
              e' \<leftarrow> cpsw_ale_set_field L e (ucast (start_bit entry_fld)) bits v;
              Some (e', ale)
            })
      else None)"

definition cpsw_ale_vlan_get_fld ::
  "nat \<Rightarrow> cpsw_ale \<Rightarrow> ale_entry \<Rightarrow> nat \<Rightarrow> (u32 \<times> cpsw_ale) option" where
  "cpsw_ale_vlan_get_fld L ale e fld_id =
     cpsw_ale_entry_get_fld L ale e (vlan_entry_tbl ale) fld_id"

definition cpsw_ale_vlan_set_fld ::
  "nat \<Rightarrow> cpsw_ale \<Rightarrow> ale_entry \<Rightarrow> nat \<Rightarrow> u32 \<Rightarrow> (ale_entry \<times> cpsw_ale) option" where
  "cpsw_ale_vlan_set_fld L ale e fld_id v =
     cpsw_ale_entry_set_fld L ale e (vlan_entry_tbl ale) fld_id v"

text \<open>
  \<^verbatim>\<open>cpsw_ale_read\<close> and \<^verbatim>\<open>cpsw_ale_write\<close>: the index written to the table
  control register selects the entry that the three table-word registers then
  read, or that they are stored to.
\<close>

definition cpsw_ale_read :: "cpsw_ale \<Rightarrow> nat \<Rightarrow> ale_entry" where
  "cpsw_ale_read ale idx = ale_table ale idx"

definition cpsw_ale_write :: "cpsw_ale \<Rightarrow> nat \<Rightarrow> ale_entry \<Rightarrow> cpsw_ale" where
  "cpsw_ale_write ale idx e = ale\<lparr>ale_table := (ale_table ale)(idx := e)\<rparr>"

subsection \<open>Table search\<close>

text \<open>
  The four scans \<^verbatim>\<open>for (idx = 0; idx < ale->params.ale_entries; idx++)\<close>; each
  returns the index found, or \<open>-ENOENT\<close>.  The recursion is on the loop index.
\<close>

function match_addr_loop ::
  "nat \<Rightarrow> cpsw_ale \<Rightarrow> u8 list \<Rightarrow> u16 \<Rightarrow> nat \<Rightarrow> (errno + nat) option" where
  "match_addr_loop L ale addr vid idx =
     (if idx < ale_entries (params ale)
      then do {
        let ale_entry = cpsw_ale_read ale idx;
        type \<leftarrow> cpsw_ale_get_entry_type L ale_entry;
        if type \<noteq> ALE_TYPE_ADDR \<and> type \<noteq> ALE_TYPE_VLAN_ADDR
        then match_addr_loop L ale addr vid (idx + 1)
        else do {
          v \<leftarrow> cpsw_ale_get_vlan_id L ale_entry;
          if v \<noteq> ucast vid
          then match_addr_loop L ale addr vid (idx + 1)
          else do {
            entry_addr \<leftarrow> cpsw_ale_get_addr L ale_entry;
            eq \<leftarrow> ether_addr_equal entry_addr addr;
            if eq then Some (Inr idx) else match_addr_loop L ale addr vid (idx + 1)
          }
        }
      }
      else Some (Inl ENOENT))"
  by pat_completeness auto
termination
  by (relation "measure (\<lambda>(L, ale, addr, vid, idx). ale_entries (params ale) - idx)") auto

declare match_addr_loop.simps [simp del]

definition cpsw_ale_match_addr ::
  "nat \<Rightarrow> cpsw_ale \<Rightarrow> u8 list \<Rightarrow> u16 \<Rightarrow> (errno + nat) option" where
  "cpsw_ale_match_addr L ale addr vid = match_addr_loop L ale addr vid 0"

function match_vlan_loop :: "nat \<Rightarrow> cpsw_ale \<Rightarrow> u16 \<Rightarrow> nat \<Rightarrow> (errno + nat) option" where
  "match_vlan_loop L ale vid idx =
     (if idx < ale_entries (params ale)
      then do {
        let ale_entry = cpsw_ale_read ale idx;
        type \<leftarrow> cpsw_ale_get_entry_type L ale_entry;
        if type \<noteq> ALE_TYPE_VLAN
        then match_vlan_loop L ale vid (idx + 1)
        else do {
          v \<leftarrow> cpsw_ale_get_vlan_id L ale_entry;
          if v = ucast vid then Some (Inr idx) else match_vlan_loop L ale vid (idx + 1)
        }
      }
      else Some (Inl ENOENT))"
  by pat_completeness auto
termination
  by (relation "measure (\<lambda>(L, ale, vid, idx). ale_entries (params ale) - idx)") auto

declare match_vlan_loop.simps [simp del]

definition cpsw_ale_match_vlan :: "nat \<Rightarrow> cpsw_ale \<Rightarrow> u16 \<Rightarrow> (errno + nat) option" where
  "cpsw_ale_match_vlan L ale vid = match_vlan_loop L ale vid 0"

function match_free_loop :: "nat \<Rightarrow> cpsw_ale \<Rightarrow> nat \<Rightarrow> (errno + nat) option" where
  "match_free_loop L ale idx =
     (if idx < ale_entries (params ale)
      then do {
        let ale_entry = cpsw_ale_read ale idx;
        type \<leftarrow> cpsw_ale_get_entry_type L ale_entry;
        if type = ALE_TYPE_FREE then Some (Inr idx) else match_free_loop L ale (idx + 1)
      }
      else Some (Inl ENOENT))"
  by pat_completeness auto
termination
  by (relation "measure (\<lambda>(L, ale, idx). ale_entries (params ale) - idx)") auto

declare match_free_loop.simps [simp del]

definition cpsw_ale_match_free :: "nat \<Rightarrow> cpsw_ale \<Rightarrow> (errno + nat) option" where
  "cpsw_ale_match_free L ale = match_free_loop L ale 0"

function find_ageable_loop :: "nat \<Rightarrow> cpsw_ale \<Rightarrow> nat \<Rightarrow> (errno + nat) option" where
  "find_ageable_loop L ale idx =
     (if idx < ale_entries (params ale)
      then do {
        let ale_entry = cpsw_ale_read ale idx;
        type \<leftarrow> cpsw_ale_get_entry_type L ale_entry;
        if type \<noteq> ALE_TYPE_ADDR \<and> type \<noteq> ALE_TYPE_VLAN_ADDR
        then find_ageable_loop L ale (idx + 1)
        else do {
          mc \<leftarrow> cpsw_ale_get_mcast L ale_entry;
          if mc \<noteq> 0
          then find_ageable_loop L ale (idx + 1)
          else do {
            utype \<leftarrow> cpsw_ale_get_ucast_type L ale_entry;
            if utype \<noteq> ALE_UCAST_PERSISTANT \<and> utype \<noteq> ALE_UCAST_OUI
            then Some (Inr idx)
            else find_ageable_loop L ale (idx + 1)
          }
        }
      }
      else Some (Inl ENOENT))"
  by pat_completeness auto
termination
  by (relation "measure (\<lambda>(L, ale, idx). ale_entries (params ale) - idx)") auto

declare find_ageable_loop.simps [simp del]

definition cpsw_ale_find_ageable :: "nat \<Rightarrow> cpsw_ale \<Rightarrow> (errno + nat) option" where
  "cpsw_ale_find_ageable L ale = find_ageable_loop L ale 0"

text \<open>
  The tail shared by the three add operations:
  \<^verbatim>\<open>if (idx < 0) idx = cpsw_ale_match_free(ale);\<close>
  \<^verbatim>\<open>if (idx < 0) idx = cpsw_ale_find_ageable(ale);\<close>
  \<^verbatim>\<open>if (idx < 0) return -ENOMEM;\<close>
\<close>

definition alloc_idx :: "nat \<Rightarrow> cpsw_ale \<Rightarrow> (errno + nat) \<Rightarrow> (errno + nat) option" where
  "alloc_idx L ale idx =
     do {
       idx1 \<leftarrow> (case idx of Inr i \<Rightarrow> Some (Inr i) | Inl _ \<Rightarrow> cpsw_ale_match_free L ale);
       idx2 \<leftarrow> (case idx1 of Inr i \<Rightarrow> Some (Inr i) | Inl _ \<Rightarrow> cpsw_ale_find_ageable L ale);
       Some (case idx2 of Inr i \<Rightarrow> Inr i | Inl _ \<Rightarrow> Inl ENOMEM)
     }"

subsection \<open>Unicast and multicast entries\<close>

definition cpsw_ale_set_vlan_entry_type ::
  "nat \<Rightarrow> ale_entry \<Rightarrow> u32 \<Rightarrow> u16 \<Rightarrow> ale_entry option" where
  "cpsw_ale_set_vlan_entry_type L e flags vid =
     (if flags AND ALE_VLAN \<noteq> 0
      then do {
        e1 \<leftarrow> cpsw_ale_set_entry_type L e ALE_TYPE_VLAN_ADDR;
        cpsw_ale_set_vlan_id L e1 (ucast vid)
      }
      else cpsw_ale_set_entry_type L e ALE_TYPE_ADDR)"

definition key_vid :: "u32 \<Rightarrow> u16 \<Rightarrow> u16" where
  "key_vid flags vid = (if flags AND ALE_VLAN \<noteq> 0 then vid else 0)"


definition cpsw_ale_add_mcast ::
  "nat \<Rightarrow> cpsw_ale \<Rightarrow> u8 list \<Rightarrow> u32 \<Rightarrow> u32 \<Rightarrow> u16 \<Rightarrow> u32
     \<Rightarrow> ((errno + unit) \<times> cpsw_ale) option" where
  "cpsw_ale_add_mcast L ale addr port_mask flags vid mcast_state =
     do {
       idx0 \<leftarrow> cpsw_ale_match_addr L ale addr (key_vid flags vid);
       let e0 = (case idx0 of Inr i \<Rightarrow> cpsw_ale_read ale i | Inl _ \<Rightarrow> (0, 0, 0));
       e1 \<leftarrow> cpsw_ale_set_vlan_entry_type L e0 flags vid;
       e2 \<leftarrow> cpsw_ale_set_addr L e1 addr;
       e3 \<leftarrow> cpsw_ale_set_super L e2 (if flags AND ALE_SUPER \<noteq> 0 then 1 else 0);
       e4 \<leftarrow> cpsw_ale_set_mcast_state L e3 mcast_state;
       msk \<leftarrow> cpsw_ale_get_port_mask L e4 (port_mask_bits ale);
       let port_mask' = port_mask OR msk;
       e5 \<leftarrow> cpsw_ale_set_port_mask L e4 port_mask' (port_mask_bits ale);
       idx \<leftarrow> alloc_idx L ale idx0;
       (case idx of
          Inl err \<Rightarrow> Some (Inl err, ale)
        | Inr i \<Rightarrow> Some (Inr (), cpsw_ale_write ale i e5))
     }"

definition cpsw_ale_del_mcast ::
  "nat \<Rightarrow> cpsw_ale \<Rightarrow> u8 list \<Rightarrow> u32 \<Rightarrow> u32 \<Rightarrow> u16 \<Rightarrow> ((errno + unit) \<times> cpsw_ale) option" where
  "cpsw_ale_del_mcast L ale addr port_mask flags vid =
     do {
       idx \<leftarrow> cpsw_ale_match_addr L ale addr (key_vid flags vid);
       (case idx of
          Inl _ \<Rightarrow> Some (Inl ENOENT, ale)
        | Inr i \<Rightarrow> do {
            let e0 = cpsw_ale_read ale i;
            mcast_members \<leftarrow>
              (if port_mask \<noteq> 0
               then do {
                 m \<leftarrow> cpsw_ale_get_port_mask L e0 (port_mask_bits ale);
                 Some (m AND NOT port_mask)
               }
               else Some 0);
            e1 \<leftarrow> (if mcast_members \<noteq> 0
                    then cpsw_ale_set_port_mask L e0 mcast_members (port_mask_bits ale)
                    else cpsw_ale_set_entry_type L e0 ALE_TYPE_FREE);
            Some (Inr (), cpsw_ale_write ale i e1)
          })
     }"

subsection \<open>VLAN entries\<close>

definition ALE_VLAN_MASK_MUX :: "u32 \<Rightarrow> int" where
  "ALE_VLAN_MASK_MUX reg = 0xc0 + 0x4 * sint reg"


definition cpsw_ale_set_vlan_mcast ::
  "nat \<Rightarrow> cpsw_ale \<Rightarrow> ale_entry \<Rightarrow> u32 \<Rightarrow> u32 \<Rightarrow> cpsw_ale option" where
  "cpsw_ale_set_vlan_mcast L ale e reg_mcast unreg_mcast =
     do {
       (idx, ale1) \<leftarrow> cpsw_ale_vlan_get_fld L ale e ALE_ENT_VID_REG_MCAST_IDX;
       let ale2 = writel reg_mcast (ALE_VLAN_MASK_MUX idx) ale1;
       (idx', ale3) \<leftarrow> cpsw_ale_vlan_get_fld L ale2 e ALE_ENT_VID_UNREG_MCAST_IDX;
       Some (writel unreg_mcast (ALE_VLAN_MASK_MUX idx') ale3)
     }"

definition cpsw_ale_set_vlan_untag ::
  "nat \<Rightarrow> cpsw_ale \<Rightarrow> ale_entry \<Rightarrow> u16 \<Rightarrow> u32 \<Rightarrow> (ale_entry \<times> cpsw_ale) option" where
  "cpsw_ale_set_vlan_untag L ale e vid untag_mask =
     do {
       (e1, ale1) \<leftarrow> cpsw_ale_vlan_set_fld L ale e ALE_ENT_VID_FORCE_UNTAGGED_MSK untag_mask;
       ale2 \<leftarrow> (if untag_mask AND ALE_PORT_HOST \<noteq> 0
                 then bitmap_set (unat vid) ale1
                 else bitmap_clear (unat vid) ale1);
       Some (e1, ale2)
     }"


definition cpsw_ale_vlan_del_modify_int ::
  "nat \<Rightarrow> cpsw_ale \<Rightarrow> ale_entry \<Rightarrow> u16 \<Rightarrow> u32 \<Rightarrow> (ale_entry \<times> cpsw_ale) option" where
  "cpsw_ale_vlan_del_modify_int L ale e vid port_mask =
     do {
       (members0, ale1) \<leftarrow> cpsw_ale_vlan_get_fld L ale e ALE_ENT_VID_MEMBER_LIST;
       let members = members0 AND NOT port_mask;
       if members = 0
       then do {
         (e1, ale2) \<leftarrow> cpsw_ale_set_vlan_untag L ale1 e vid 0;
         e2 \<leftarrow> cpsw_ale_set_entry_type L e1 ALE_TYPE_FREE;
         Some (e2, ale2)
       }
       else do {
         (untag0, ale2) \<leftarrow> cpsw_ale_vlan_get_fld L ale1 e ALE_ENT_VID_FORCE_UNTAGGED_MSK;
         (reg_mcast0, ale3) \<leftarrow> cpsw_ale_vlan_get_fld L ale2 e ALE_ENT_VID_REG_MCAST_MSK;
         (unreg_mcast0, ale4) \<leftarrow> cpsw_ale_vlan_get_fld L ale3 e ALE_ENT_VID_UNREG_MCAST_MSK;
         let untag = untag0 AND members;
         let reg_mcast = reg_mcast0 AND members;
         let unreg_mcast = unreg_mcast0 AND members;
         (e1, ale5) \<leftarrow> cpsw_ale_set_vlan_untag L ale4 e vid untag;
         (e2, ale6) \<leftarrow>
           (if \<not> nu_switch_ale (params ale5)
            then do {
              (ea, alea) \<leftarrow> cpsw_ale_vlan_set_fld L ale5 e1 ALE_ENT_VID_REG_MCAST_MSK reg_mcast;
              cpsw_ale_vlan_set_fld L alea ea ALE_ENT_VID_UNREG_MCAST_MSK unreg_mcast
            }
            else do {
              aleb \<leftarrow> cpsw_ale_set_vlan_mcast L ale5 e1 reg_mcast unreg_mcast;
              Some (e1, aleb)
            });
         cpsw_ale_vlan_set_fld L ale6 e2 ALE_ENT_VID_MEMBER_LIST members
       }
     }"

definition cpsw_ale_del_vlan ::
  "nat \<Rightarrow> cpsw_ale \<Rightarrow> u16 \<Rightarrow> u32 \<Rightarrow> ((errno + unit) \<times> cpsw_ale) option" where
  "cpsw_ale_del_vlan L ale vid port_mask =
     do {
       idx \<leftarrow> cpsw_ale_match_vlan L ale vid;
       (case idx of
          Inl _ \<Rightarrow> Some (Inl ENOENT, ale)
        | Inr i \<Rightarrow> do {
            let e0 = cpsw_ale_read ale i;
            (members0, ale1) \<leftarrow> cpsw_ale_vlan_get_fld L ale e0 ALE_ENT_VID_MEMBER_LIST;
            let members = members0 AND NOT port_mask;
            (e1, ale2) \<leftarrow>
              (if port_mask = 0 \<or> members = 0
               then do {
                 (ea, alea) \<leftarrow> cpsw_ale_set_vlan_untag L ale1 e0 vid 0;
                 eb \<leftarrow> cpsw_ale_set_entry_type L ea ALE_TYPE_FREE;
                 Some (eb, alea)
               }
               else cpsw_ale_vlan_del_modify_int L ale1 e0 vid (port_mask AND NOT ALE_PORT_HOST));
            Some (Inr (), cpsw_ale_write ale2 i e1)
          })
     }"

subsection \<open>Named controls\<close>

definition ALE_CONTROL :: int where "ALE_CONTROL = 0x08"
definition ALE_UNKNOWNVLAN :: int where "ALE_UNKNOWNVLAN = 0x18"
definition ALE_PORTCTL :: int where "ALE_PORTCTL = 0x40"
definition AM65_CPSW_ALE_THREAD_DEF_REG :: int where "AM65_CPSW_ALE_THREAD_DEF_REG = 0x134"


definition ALE_RATE_LIMIT_MIN_PPS :: u32 where "ALE_RATE_LIMIT_MIN_PPS = 1000"

text \<open>
  Modelled from the spec: \<^verbatim>\<open>enum cpsw_ale_control\<close> of \<^verbatim>\<open>cpsw_ale.h\<close> (absent).
  The source initialises \<^verbatim>\<open>ale_controls\<close> by designator, so only the identity of
  each control matters; the controls are numbered here in the order of their
  initialisers and \<^verbatim>\<open>ALE_NUM_CONTROLS\<close> is their count.
\<close>

definition ALE_ENABLE :: int where "ALE_ENABLE = 0"
definition ALE_CLEAR :: int where "ALE_CLEAR = 1"
definition ALE_AGEOUT :: int where "ALE_AGEOUT = 2"
definition ALE_P0_UNI_FLOOD :: int where "ALE_P0_UNI_FLOOD = 3"
definition ALE_VLAN_NOLEARN :: int where "ALE_VLAN_NOLEARN = 4"
definition ALE_NO_PORT_VLAN :: int where "ALE_NO_PORT_VLAN = 5"
definition ALE_OUI_DENY :: int where "ALE_OUI_DENY = 6"
definition ALE_BYPASS :: int where "ALE_BYPASS = 7"
definition ALE_RATE_LIMIT_TX :: int where "ALE_RATE_LIMIT_TX = 8"
definition ALE_VLAN_AWARE :: int where "ALE_VLAN_AWARE = 9"
definition ALE_AUTH_ENABLE :: int where "ALE_AUTH_ENABLE = 10"
definition ALE_RATE_LIMIT :: int where "ALE_RATE_LIMIT = 11"
definition ALE_PORT_STATE :: int where "ALE_PORT_STATE = 12"
definition ALE_PORT_DROP_UNTAGGED :: int where "ALE_PORT_DROP_UNTAGGED = 13"
definition ALE_PORT_DROP_UNKNOWN_VLAN :: int where "ALE_PORT_DROP_UNKNOWN_VLAN = 14"
definition ALE_PORT_NOLEARN :: int where "ALE_PORT_NOLEARN = 15"
definition ALE_PORT_NO_SA_UPDATE :: int where "ALE_PORT_NO_SA_UPDATE = 16"
definition ALE_PORT_MACONLY :: int where "ALE_PORT_MACONLY = 17"
definition ALE_PORT_MACONLY_CAF :: int where "ALE_PORT_MACONLY_CAF = 18"
definition ALE_PORT_MCAST_LIMIT :: int where "ALE_PORT_MCAST_LIMIT = 19"
definition ALE_PORT_BCAST_LIMIT :: int where "ALE_PORT_BCAST_LIMIT = 20"
definition ALE_PORT_UNKNOWN_VLAN_MEMBER :: int where "ALE_PORT_UNKNOWN_VLAN_MEMBER = 21"
definition ALE_PORT_UNKNOWN_MCAST_FLOOD :: int where "ALE_PORT_UNKNOWN_MCAST_FLOOD = 22"
definition ALE_PORT_UNKNOWN_REG_MCAST_FLOOD :: int where "ALE_PORT_UNKNOWN_REG_MCAST_FLOOD = 23"
definition ALE_PORT_UNTAGGED_EGRESS :: int where "ALE_PORT_UNTAGGED_EGRESS = 24"
definition ALE_DEFAULT_THREAD_ID :: int where "ALE_DEFAULT_THREAD_ID = 25"
definition ALE_DEFAULT_THREAD_ENABLE :: int where "ALE_DEFAULT_THREAD_ENABLE = 26"
definition ALE_NUM_CONTROLS :: int where "ALE_NUM_CONTROLS = 27"

definition control_info :: "string \<Rightarrow> int \<Rightarrow> int \<Rightarrow> int \<Rightarrow> int \<Rightarrow> int \<Rightarrow> ale_control_info" where
  "control_info n off poff sh psh b =
     \<lparr>info_name = n, info_offset = off, info_port_offset = poff,
      info_shift = sh, info_port_shift = psh, info_bits = b\<rparr>"

text \<open>The initialiser of \<^verbatim>\<open>ale_controls[ALE_NUM_CONTROLS]\<close>.\<close>

definition ale_controls_init :: "ale_control_info list" where
  "ale_controls_init =
     [control_info ''enable'' ALE_CONTROL 0 31 0 1,
      control_info ''clear'' ALE_CONTROL 0 30 0 1,
      control_info ''ageout'' ALE_CONTROL 0 29 0 1,
      control_info ''port0_unicast_flood'' ALE_CONTROL 0 8 0 1,
      control_info ''vlan_nolearn'' ALE_CONTROL 0 7 0 1,
      control_info ''no_port_vlan'' ALE_CONTROL 0 6 0 1,
      control_info ''oui_deny'' ALE_CONTROL 0 5 0 1,
      control_info ''bypass'' ALE_CONTROL 0 4 0 1,
      control_info ''rate_limit_tx'' ALE_CONTROL 0 3 0 1,
      control_info ''vlan_aware'' ALE_CONTROL 0 2 0 1,
      control_info ''auth_enable'' ALE_CONTROL 0 1 0 1,
      control_info ''rate_limit'' ALE_CONTROL 0 0 0 1,
      control_info ''port_state'' ALE_PORTCTL 4 0 0 2,
      control_info ''drop_untagged'' ALE_PORTCTL 4 2 0 1,
      control_info ''drop_unknown'' ALE_PORTCTL 4 3 0 1,
      control_info ''nolearn'' ALE_PORTCTL 4 4 0 1,
      control_info ''no_source_update'' ALE_PORTCTL 4 5 0 1,
      control_info ''mac_only_port_mode'' ALE_PORTCTL 4 11 0 1,
      control_info ''mac_only_port_caf'' ALE_PORTCTL 4 13 0 1,
      control_info ''mcast_limit'' ALE_PORTCTL 4 16 0 8,
      control_info ''bcast_limit'' ALE_PORTCTL 4 24 0 8,
      control_info ''unknown_vlan_member'' ALE_UNKNOWNVLAN 0 0 0 6,
      control_info ''unknown_mcast_flood'' ALE_UNKNOWNVLAN 0 8 0 6,
      control_info ''unknown_reg_flood'' ALE_UNKNOWNVLAN 0 16 0 6,
      control_info ''untagged_egress'' ALE_UNKNOWNVLAN 0 24 0 6,
      control_info ''default_thread_id'' AM65_CPSW_ALE_THREAD_DEF_REG 0 0 0 6,
      control_info ''default_thread_id_enable'' AM65_CPSW_ALE_THREAD_DEF_REG 0 15 0 1]"

text \<open>
  \<^verbatim>\<open>cpsw_ale_control_set\<close>.  \<open>value0\<close> is the \<^verbatim>\<open>int value\<close> argument, as its bit
  pattern.
\<close>

definition cpsw_ale_control_set ::
  "nat \<Rightarrow> cpsw_ale \<Rightarrow> int \<Rightarrow> int \<Rightarrow> u32 \<Rightarrow> ((errno + unit) \<times> cpsw_ale) option" where
  "cpsw_ale_control_set L ale port control value0 =
     (if control < 0 \<or> control \<ge> int (length (ale_controls ale))
      then Some (Inl EINVAL, ale)
      else
        let info = ale_controls ale ! nat control;
            port' = (if info_port_offset info = 0 \<and> info_port_shift info = 0 then 0 else port)
        in
        if port' < 0 \<or> port' \<ge> int (ale_ports (params ale))
        then Some (Inl EINVAL, ale)
        else do {
          msk \<leftarrow> BITMASK L (info_bits info);
          if value0 AND NOT msk \<noteq> 0
          then Some (Inl EINVAL, ale)
          else do {
            let offset = info_offset info + port' * info_port_offset info;
            let shift = info_shift info + port' * info_port_shift info;
            let tmp = readl ale offset;
            m \<leftarrow> shl32 msk shift;
            v \<leftarrow> shl32 value0 shift;
            Some (Inr (), writel ((tmp AND NOT m) OR v) offset ale)
          }
        })"

text \<open>\<^verbatim>\<open>cpsw_ale_control_get\<close>: the field read, or \<open>-EINVAL\<close>.\<close>

definition cpsw_ale_control_get ::
  "nat \<Rightarrow> cpsw_ale \<Rightarrow> int \<Rightarrow> int \<Rightarrow> (errno + u32) option" where
  "cpsw_ale_control_get L ale port control =
     (if control < 0 \<or> control \<ge> int (length (ale_controls ale))
      then Some (Inl EINVAL)
      else
        let info = ale_controls ale ! nat control;
            port' = (if info_port_offset info = 0 \<and> info_port_shift info = 0 then 0 else port)
        in
        if port' < 0 \<or> port' \<ge> int (ale_ports (params ale))
        then Some (Inl EINVAL)
        else do {
          let offset = info_offset info + port' * info_port_offset info;
          let shift = info_shift info + port' * info_port_shift info;
          tmp \<leftarrow> shr32 (readl ale offset) shift;
          m \<leftarrow> BITMASK L (info_bits info);
          Some (Inr (tmp AND m))
        })"

subsection \<open>Rate limits\<close>

text \<open>
  \<^verbatim>\<open>cpsw_ale_rx_ratelimit_mc\<close> and \<^verbatim>\<open>cpsw_ale_rx_ratelimit_bc\<close>.  The value
  returned by \<^verbatim>\<open>cpsw_ale_control_set\<close> is not looked at.
\<close>

definition cpsw_ale_rx_ratelimit_mc ::
  "nat \<Rightarrow> cpsw_ale \<Rightarrow> int \<Rightarrow> u32 \<Rightarrow> ((errno + unit) \<times> cpsw_ale) option" where
  "cpsw_ale_rx_ratelimit_mc L ale port ratelimit_pps =
     (let val = ratelimit_pps div ALE_RATE_LIMIT_MIN_PPS;
          remainder = ratelimit_pps mod ALE_RATE_LIMIT_MIN_PPS
      in
      if ratelimit_pps \<noteq> 0 \<and> val = 0
      then Some (Inl EINVAL,
                 dev_log KERN_ERR ''ALE MC port:%d ratelimit min value 1000pps'' ale)
      else do {
        let ale1 = (if remainder \<noteq> 0
                    then dev_log KERN_INFO
                           ''ALE port:%d MC ratelimit set to %dpps (requested %d)'' ale
                    else ale);
        (r, ale2) \<leftarrow> cpsw_ale_control_set L ale1 port ALE_PORT_MCAST_LIMIT val;
        Some (Inr (), dev_log KERN_DEBUG ''ALE port:%d MC ratelimit set %d'' ale2)
      })"

definition cpsw_ale_rx_ratelimit_bc ::
  "nat \<Rightarrow> cpsw_ale \<Rightarrow> int \<Rightarrow> u32 \<Rightarrow> ((errno + unit) \<times> cpsw_ale) option" where
  "cpsw_ale_rx_ratelimit_bc L ale port ratelimit_pps =
     (let val = ratelimit_pps div ALE_RATE_LIMIT_MIN_PPS;
          remainder = ratelimit_pps mod ALE_RATE_LIMIT_MIN_PPS
      in
      if ratelimit_pps \<noteq> 0 \<and> val = 0
      then Some (Inl EINVAL,
                 dev_log KERN_ERR ''ALE port:%d BC ratelimit min value 1000pps'' ale)
      else do {
        let ale1 = (if remainder \<noteq> 0
                    then dev_log KERN_INFO
                           ''ALE port:%d BC ratelimit set to %dpps (requested %d)'' ale
                    else ale);
        (r, ale2) \<leftarrow> cpsw_ale_control_set L ale1 port ALE_PORT_BCAST_LIMIT val;
        Some (Inr (), dev_log KERN_DEBUG ''ALE port:%d BC ratelimit set %d'' ale2)
      })"

subsection \<open>Aging\<close>





subsection \<open>Closed forms of the codec\<close>

text \<open>
  The following definitions are used in the proofs only.  \<open>W e i\<close> is the word
  holding bits \<open>32 i .. 32 i + 31\<close>; \<open>gf\<close> and \<open>sf\<close> are what the two codec
  functions compute on a field of at most 32 bits that fits the entry;
  \<open>ebit\<close> is \<open>entry_bit\<close> through \<open>W\<close>.
\<close>

fun W :: "ale_entry \<Rightarrow> nat \<Rightarrow> u32" where
  "W (w0, w1, w2) i = (if i = 0 then w2 else if i = 1 then w1 else if i = 2 then w0 else 0)"

definition Wupd :: "ale_entry \<Rightarrow> nat \<Rightarrow> u32 \<Rightarrow> ale_entry" where
  "Wupd e i v = (case e of (w0, w1, w2) \<Rightarrow>
      if i = 0 then (w0, w1, v) else if i = 1 then (w0, v, w2)
      else if i = 2 then (v, w1, w2) else e)"

definition gf :: "ale_entry \<Rightarrow> nat \<Rightarrow> nat \<Rightarrow> u32" where
  "gf e s b =
     ((if 32 < s mod 32 + b then push_bit (32 - s mod 32) (W e (Suc (s div 32))) else 0)
        + drop_bit (s mod 32) (W e (s div 32))) AND mask b"

definition sf :: "ale_entry \<Rightarrow> nat \<Rightarrow> nat \<Rightarrow> u32 \<Rightarrow> ale_entry" where
  "sf e s b v =
     (let val = v AND mask b;
          e1 = (if 32 < s mod 32 + b
                then Wupd e (Suc (s div 32))
                       ((W e (Suc (s div 32)) AND NOT (mask (s mod 32 + b - 32)))
                         OR drop_bit (32 - s mod 32) val)
                else e)
      in Wupd e1 (s div 32)
           ((W e1 (s div 32) AND NOT (push_bit (s mod 32) (mask b)))
              OR push_bit (s mod 32) val))"

definition ebit :: "ale_entry \<Rightarrow> nat \<Rightarrow> bool" where
  "ebit e p = bit (W e (p div 32)) (p mod 32)"

text \<open>
  A field the codec handles: between 1 and 32 bits wide, narrower than
  \<^verbatim>\<open>unsigned long\<close>, and inside the 96 bits of the entry.
\<close>

definition valid_field :: "nat \<Rightarrow> u32 \<Rightarrow> u32 \<Rightarrow> bool" where
  "valid_field L start bits \<longleftrightarrow>
     1 \<le> unat bits \<and> unat bits \<le> 32 \<and> unat bits < L \<and> unat start + unat bits \<le> 96"

text \<open>The six address bytes of an entry, and an entry with them replaced.\<close>

definition mac_of :: "ale_entry \<Rightarrow> u8 list" where
  "mac_of e = [ucast (gf e 40 8), ucast (gf e 32 8), ucast (gf e 24 8),
               ucast (gf e 16 8), ucast (gf e 8 8), ucast (gf e 0 8)]"

definition set_mac :: "ale_entry \<Rightarrow> u8 list \<Rightarrow> ale_entry" where
  "set_mac e addr =
     sf (sf (sf (sf (sf (sf e 40 8 (ucast (addr ! 0))) 32 8 (ucast (addr ! 1)))
        24 8 (ucast (addr ! 2))) 16 8 (ucast (addr ! 3))) 8 8 (ucast (addr ! 4)))
        0 8 (ucast (addr ! 5))"

text \<open>The result of a table scan for the first index with a property.\<close>

definition scan_result :: "nat option \<Rightarrow> errno + nat" where
  "scan_result r = (case r of Some i \<Rightarrow> Inr i | None \<Rightarrow> Inl ENOENT)"

text \<open>
  The width of the member list and of the force-untagged mask of a VLAN entry:
  3 bits in the first layout, the port-mask width in the other two.
\<close>

definition member_bits :: "cpsw_ale \<Rightarrow> nat" where
  "member_bits ale =
     (if vlan_entry_tbl ale = vlan_entry_cpsw then 3 else unat (port_mask_bits ale))"

text \<open>
  The entries that the add operations build: \<open>typed_entry\<close> is
  \<^verbatim>\<open>cpsw_ale_set_vlan_entry_type\<close>, \<open>ucast_entry\<close> the entry of
  \<^verbatim>\<open>cpsw_ale_add_ucast\<close>, and \<open>mcast_entry b e0\<close> the entry that
  \<^verbatim>\<open>cpsw_ale_add_mcast\<close> makes of the entry \<open>e0\<close> it starts from, with a port
  mask of \<open>b\<close> bits.
\<close>

definition typed_entry :: "ale_entry \<Rightarrow> u32 \<Rightarrow> u16 \<Rightarrow> ale_entry" where
  "typed_entry e flags vid =
     (if flags AND ALE_VLAN \<noteq> 0
      then sf (sf e 60 2 ALE_TYPE_VLAN_ADDR) 48 12 (ucast vid)
      else sf e 60 2 ALE_TYPE_ADDR)"

definition ucast_entry :: "nat \<Rightarrow> u8 list \<Rightarrow> u32 \<Rightarrow> u32 \<Rightarrow> u16 \<Rightarrow> ale_entry" where
  "ucast_entry b addr port flags vid =
     sf (sf (sf (sf (set_mac (typed_entry (0, 0, 0) flags vid) addr)
                    62 2 ALE_UCAST_PERSISTANT)
                64 1 (if flags AND ALE_SECURE \<noteq> 0 then 1 else 0))
            65 1 (if flags AND ALE_BLOCKED \<noteq> 0 then 1 else 0))
        66 b port"

definition mcast_entry ::
  "nat \<Rightarrow> ale_entry \<Rightarrow> u8 list \<Rightarrow> u32 \<Rightarrow> u32 \<Rightarrow> u16 \<Rightarrow> u32 \<Rightarrow> ale_entry" where
  "mcast_entry b e0 addr port_mask flags vid mcast_state =
     (let e4 = sf (sf (set_mac (typed_entry e0 flags vid) addr)
                      65 1 (if flags AND ALE_SUPER \<noteq> 0 then 1 else 0))
                  62 2 mcast_state
      in sf e4 66 b (port_mask OR gf e4 66 b))"

text \<open>The entry an operation starts from: the one found, or all zeros.\<close>

definition start_entry :: "cpsw_ale \<Rightarrow> nat option \<Rightarrow> ale_entry" where
  "start_entry ale r = (case r of Some i \<Rightarrow> ale_table ale i | None \<Rightarrow> (0, 0, 0))"

text \<open>
  Where a field of a VLAN entry lives in the handle's layout: start bit and
  width, or \<open>None\<close> for a field the layout does not allow.
\<close>

definition fld_pos :: "cpsw_ale \<Rightarrow> nat \<Rightarrow> (nat \<times> nat) option" where
  "fld_pos ale fld_id =
     (let f = vlan_entry_tbl ale ! fld_id in
      if fld_flags f AND ALE_FLD_ALLOWED = 0 then None
      else Some (unat (start_bit f),
                 if fld_flags f AND ALE_FLD_SIZE_PORT_MASK_BITS \<noteq> 0
                 then unat (port_mask_bits ale) else unat (num_bits f)))"

subsection \<open>Handles used to instantiate the theorems\<close>

text \<open>
  A three-port switch of the first variant (\<^verbatim>\<open>"cpsw"\<close>: inline flood masks,
  software aging) with a table of \<open>n\<close> entries \<open>tbl\<close>, all registers zero, and
  the controls as initialised.
\<close>

definition example_ale :: "(nat \<Rightarrow> ale_entry) \<Rightarrow> nat \<Rightarrow> cpsw_ale" where
  "example_ale tbl n =
     \<lparr>params = \<lparr>ale_ageout = 10, ale_entries = n, ale_ports = 3,
                nu_switch_ale = False, bus_freq = 250000000\<rparr>,
      ageout = 1000, features = 0, port_mask_bits = 3, port_num_bits = 2,
      vlan_entry_tbl = vlan_entry_cpsw, p0_untag_vid_mask = {}, timer = None,
      ale_table = tbl, ale_regs = (\<lambda>_. 0), ale_controls = ale_controls_init, klog = []\<rparr>"


text \<open>
  A table all of whose entries hold VLAN 5 with the member list \<open>0b011\<close>: the
  host port and port 1.
\<close>

definition vlan5_table :: "nat \<Rightarrow> ale_entry" where
  "vlan5_table i = (0, 0x20050000, 3)"

subsection \<open>Well-formed handles\<close>

text \<open>
  The two rate-limit descriptors are those of the initialiser;
  \<^verbatim>\<open>cpsw_ale_create\<close> patches only the four unknown-VLAN descriptors.
\<close>

definition limit_controls_loaded :: "cpsw_ale \<Rightarrow> bool" where
  "limit_controls_loaded ale \<longleftrightarrow>
     length (ale_controls ale) = nat ALE_NUM_CONTROLS
     \<and> ale_controls ale ! nat ALE_PORT_MCAST_LIMIT
         = control_info ''mcast_limit'' ALE_PORTCTL 4 16 0 8
     \<and> ale_controls ale ! nat ALE_PORT_BCAST_LIMIT
         = control_info ''bcast_limit'' ALE_PORTCTL 4 24 0 8"

text \<open>
  A handle the table operations accept: \<^verbatim>\<open>unsigned long\<close> has at least 32 bits,
  and the port mask and the port number, both at bit 66, are between 1 and 30
  bits wide (\<^verbatim>\<open>cpsw_ale_create\<close> sets them to the port count and to its binary
  logarithm; the supported switches have 2 to 9 ports).
\<close>

definition ale_ok :: "nat \<Rightarrow> cpsw_ale \<Rightarrow> bool" where
  "ale_ok L ale \<longleftrightarrow>
     32 \<le> L
     \<and> 1 \<le> unat (port_mask_bits ale) \<and> unat (port_mask_bits ale) \<le> 30
     \<and> 1 \<le> unat (port_num_bits ale) \<and> unat (port_num_bits ale) \<le> 30"

subsection \<open>The search and allocation policy in the words of the specification\<close>

text \<open>
  What the specification calls an entry matching a key, a free entry and an
  ageable entry, decoded with the driver's own getters; \<open>first_index\<close> is the
  first table index, in ascending order, whose entry has a property.
\<close>

definition is_addr_entry :: "nat \<Rightarrow> ale_entry \<Rightarrow> bool" where
  "is_addr_entry L e \<longleftrightarrow>
     cpsw_ale_get_entry_type L e = Some ALE_TYPE_ADDR
     \<or> cpsw_ale_get_entry_type L e = Some ALE_TYPE_VLAN_ADDR"

definition key_match :: "nat \<Rightarrow> u8 list \<Rightarrow> u16 \<Rightarrow> ale_entry \<Rightarrow> bool" where
  "key_match L addr vid e \<longleftrightarrow>
     is_addr_entry L e
     \<and> cpsw_ale_get_vlan_id L e = Some (ucast vid)
     \<and> cpsw_ale_get_addr L e = Some (take 6 addr)"

definition vlan_match :: "nat \<Rightarrow> u16 \<Rightarrow> ale_entry \<Rightarrow> bool" where
  "vlan_match L vid e \<longleftrightarrow>
     cpsw_ale_get_entry_type L e = Some ALE_TYPE_VLAN
     \<and> cpsw_ale_get_vlan_id L e = Some (ucast vid)"

definition is_free :: "nat \<Rightarrow> ale_entry \<Rightarrow> bool" where
  "is_free L e \<longleftrightarrow> cpsw_ale_get_entry_type L e = Some ALE_TYPE_FREE"

definition is_ucast :: "nat \<Rightarrow> ale_entry \<Rightarrow> bool" where
  "is_ucast L e \<longleftrightarrow> is_addr_entry L e \<and> cpsw_ale_get_mcast L e = Some 0"

definition is_ageable :: "nat \<Rightarrow> ale_entry \<Rightarrow> bool" where
  "is_ageable L e \<longleftrightarrow>
     is_ucast L e
     \<and> (case cpsw_ale_get_ucast_type L e of
           Some t \<Rightarrow> t \<noteq> ALE_UCAST_PERSISTANT \<and> t \<noteq> ALE_UCAST_OUI
         | None \<Rightarrow> False)"



definition first_index :: "(ale_entry \<Rightarrow> bool) \<Rightarrow> cpsw_ale \<Rightarrow> nat option" where
  "first_index P ale = List.find (\<lambda>i. P (ale_table ale i)) [0..<ale_entries (params ale)]"

text \<open>
  The allocation policy of the specification: the existing entry with the key,
  else the first free slot, else the first ageable entry; \<open>None\<close> is ``table
  full''.  \<open>add_result\<close> is what an add operation returns for a target: the entry
  written at the target, or \<open>ENOMEM\<close> and no change.
\<close>

definition spec_alloc :: "nat \<Rightarrow> cpsw_ale \<Rightarrow> (ale_entry \<Rightarrow> bool) \<Rightarrow> nat option" where
  "spec_alloc L ale key =
     (case first_index key ale of
        Some i \<Rightarrow> Some i
      | None \<Rightarrow>
         (case first_index (is_free L) ale of
            Some i \<Rightarrow> Some i
          | None \<Rightarrow> first_index (is_ageable L) ale))"

definition add_result ::
  "nat option \<Rightarrow> cpsw_ale \<Rightarrow> ale_entry \<Rightarrow> (errno + unit) \<times> cpsw_ale" where
  "add_result tgt ale e =
     (case tgt of None \<Rightarrow> (Inl ENOMEM, ale) | Some i \<Rightarrow> (Inr (), cpsw_ale_write ale i e))"

text \<open>
  A handle the VLAN operations accept: one of the three layouts of the variant
  table, with the \<^verbatim>\<open>nu_switch_ale\<close> flag of its variants, and a port mask of at
  most 12 bits, so that the flood masks of the third layout stay below the
  VLAN id.
\<close>

definition vlan_ok :: "nat \<Rightarrow> cpsw_ale \<Rightarrow> bool" where
  "vlan_ok L ale \<longleftrightarrow>
     ale_ok L ale \<and> unat (port_mask_bits ale) \<le> 12
     \<and> (vlan_entry_tbl ale = vlan_entry_cpsw \<and> \<not> nu_switch_ale (params ale)
         \<or> vlan_entry_tbl ale = vlan_entry_k3_cpswxg \<and> \<not> nu_switch_ale (params ale)
         \<or> vlan_entry_tbl ale = vlan_entry_nu \<and> nu_switch_ale (params ale))"


text \<open>
  The tail of an add operation after its key search returned \<open>r\<close>: the index
  found, else the first free index, else the first ageable one.
\<close>

definition alloc_from :: "nat \<Rightarrow> cpsw_ale \<Rightarrow> nat option \<Rightarrow> nat option" where
  "alloc_from L ale r =
     (case r of
        Some i \<Rightarrow> Some i
      | None \<Rightarrow>
         (case first_index (is_free L) ale of
            Some i \<Rightarrow> Some i
          | None \<Rightarrow> first_index (is_ageable L) ale))"

section \<open>Properties of the codec\<close>

subsection \<open>Index and shift arithmetic\<close>

lemma uint_less_iff: "uint (w :: 'a::len word) < int k \<longleftrightarrow> unat w < k"
  unfolding uint_nat by (rule of_nat_less_iff)

lemma BITMASK_uint: "unat b < L \<Longrightarrow> BITMASK L (uint b) = Some (mask (unat b))"
  by (simp add: BITMASK_def uint_less_iff)

lemma shl32_uint: "unat n < 32 \<Longrightarrow> shl32 x (uint n) = Some (push_bit (unat n) x)"
  using uint_less_iff [of n 32] by (simp add: shl32_def)

lemma shr32_uint: "unat n < 32 \<Longrightarrow> shr32 x (uint n) = Some (drop_bit (unat n) x)"
  using uint_less_iff [of n 32] by (simp add: shr32_def)

lemma idx_unat:
  fixes start :: u32
  shows "unat (start div 32) = unat start div 32"
  by (simp add: unat_div)

lemma idx2_unat:
  fixes start bits :: u32
  assumes "1 \<le> unat bits" "unat start + unat bits \<le> 96"
  shows "unat ((start + bits - 1) div 32) = (unat start + unat bits - 1) div 32"
proof -
  have a: "unat (start + bits) = unat start + unat bits"
    using assms by (simp add: unat_word_ariths)
  have b: "unat (start + bits - 1) = unat start + unat bits - 1"
    using assms a by (simp add: unat_sub word_le_nat_alt)
  show ?thesis by (simp add: unat_div b)
qed

lemma unat_mult32:
  fixes x :: u32
  assumes "unat x \<le> 3"
  shows "unat (x * 32) = unat x * 32"
proof -
  have "unat x * 32 < 4294967296" using assms by simp
  then show ?thesis by (simp add: unat_word_ariths)
qed

lemma lo_shift_unat:
  fixes start :: u32
  assumes "unat start < 96"
  shows "unat (start - start div 32 * 32) = unat start mod 32"
proof -
  have "unat start div 32 \<le> 95 div 32" using assms by (intro div_le_mono) simp
  then have i: "unat (start div 32) \<le> 3" by (simp add: unat_div)
  have m: "unat (start div 32 * 32) = unat start div 32 * 32"
    using unat_mult32 [OF i] by (simp add: unat_div)
  have "start div 32 * 32 \<le> start"
    by (simp add: word_le_nat_alt m)
  then have "unat (start - start div 32 * 32) = unat start - unat (start div 32 * 32)"
    by (simp add: unat_sub)
  then show ?thesis by (simp add: m minus_div_mult_eq_mod)
qed

lemma div32_one: "32 \<le> (x::nat) \<Longrightarrow> x < 64 \<Longrightarrow> x div 32 = 1"
  by (rule div_nat_eqI) simp_all

lemma cross_nat:
  fixes s b :: nat
  assumes "1 \<le> b" "b \<le> 32" "s div 32 \<noteq> (s + b - 1) div 32"
  shows "(s + b - 1) div 32 = Suc (s div 32)" "s mod 32 \<noteq> 0" "32 < s mod 32 + b"
proof -
  define q r where "q = s div 32" and "r = s mod 32"
  have s: "s = q * 32 + r" and r: "r < 32" by (simp_all add: q_def r_def)
  have e: "s + b - 1 = q * 32 + (r + b - 1)" using assms(1) s by simp
  have d: "(s + b - 1) div 32 = q + (r + b - 1) div 32" unfolding e by simp
  have ne: "(r + b - 1) div 32 \<noteq> 0" using assms(3) d by (simp add: q_def)
  then have ge: "32 \<le> r + b - 1" by (simp add: div_eq_0_iff)
  have lt: "r + b - 1 < 64" using r assms(2) by simp
  show "(s + b - 1) div 32 = Suc (s div 32)"
    using d div32_one [OF ge lt] by (simp add: q_def)
  show "s mod 32 \<noteq> 0" using ge assms(2) by (simp add: r_def)
  show "32 < s mod 32 + b" using ge by (simp add: r_def)
qed

lemma same_nat:
  fixes s b :: nat
  assumes "1 \<le> b" "s div 32 = (s + b - 1) div 32"
  shows "s mod 32 + b \<le> 32"
proof -
  define q r where "q = s div 32" and "r = s mod 32"
  have s: "s = q * 32 + r" and r: "r < 32" by (simp_all add: q_def r_def)
  have e: "s + b - 1 = q * 32 + (r + b - 1)" using assms(1) s by simp
  have d: "(s + b - 1) div 32 = q + (r + b - 1) div 32" unfolding e by simp
  have "(r + b - 1) div 32 = 0" using assms(2) d by (simp add: q_def)
  then have "r + b - 1 < 32" by (simp add: div_eq_0_iff)
  then show ?thesis using assms(1) by (simp add: r_def)
qed


lemma hi_shift_unat:
  fixes start bits :: u32
  assumes "1 \<le> unat bits" "unat bits \<le> 32" "unat start + unat bits \<le> 96"
    and "start div 32 \<noteq> (start + bits - 1) div 32"
  shows "unat ((start + bits - 1) div 32 * 32 - start) = 32 - unat start mod 32"
    and "unat (bits + start - (start + bits - 1) div 32 * 32) = unat start mod 32 + unat bits - 32"
    and "(unat start + unat bits - 1) div 32 = Suc (unat start div 32)"
    and "unat start mod 32 \<noteq> 0"
    and "32 < unat start mod 32 + unat bits"
proof -
  define s b where "s = unat start" and "b = unat bits"
  define q r where "q = s div 32" and "r = s mod 32"
  have s: "s = q * 32 + r" and r: "r < 32" by (simp_all add: q_def r_def)
  have ne: "s div 32 \<noteq> (s + b - 1) div 32"
    using assms(4) idx_unat [of start] idx2_unat [OF assms(1,3)] unfolding s_def b_def
    by (simp add: word_unat_eq_iff)
  have sb: "1 \<le> b" "b \<le> 32" "s + b \<le> 96" using assms by (simp_all add: s_def b_def)
  note cn = cross_nat [OF sb(1,2) ne]
  have cr: "32 < r + b" using cn(3) by (simp add: r_def)
  show c: "(unat start + unat bits - 1) div 32 = Suc (unat start div 32)"
    using cn(1) by (simp add: s_def b_def)
  show "unat start mod 32 \<noteq> 0" using cn(2) by (simp add: s_def)
  show "32 < unat start mod 32 + unat bits" using cn(3) by (simp add: s_def b_def)
  have i2u: "unat ((start + bits - 1) div 32) = Suc q"
    using idx2_unat [OF assms(1,3)] c by (simp add: s_def b_def q_def)
  have "(s + b - 1) div 32 \<le> 95 div 32" using sb by (intro div_le_mono) simp
  then have q2: "Suc q \<le> 2" using cn(1) by (simp add: q_def)
  then have i2: "unat ((start + bits - 1) div 32 * 32) = Suc q * 32"
    using unat_mult32 [of "(start + bits - 1) div 32"] i2u by simp
  have "s \<le> Suc q * 32" using s r by simp
  then have le: "start \<le> (start + bits - 1) div 32 * 32"
    using i2 by (simp add: word_le_nat_alt s_def)
  have "Suc q * 32 - s = 32 - r" using s r by simp
  then show "unat ((start + bits - 1) div 32 * 32 - start) = 32 - unat start mod 32"
    using le i2 by (simp add: unat_sub s_def r_def)
  have a: "unat (bits + start) = b + s"
    using sb by (simp add: unat_word_ariths s_def b_def)
  have "Suc q * 32 \<le> b + s" using s cr by simp
  then have le2: "(start + bits - 1) div 32 * 32 \<le> bits + start"
    using i2 a by (simp add: word_le_nat_alt)
  have "b + s - Suc q * 32 = r + b - 32" using s cr by simp
  then show "unat (bits + start - (start + bits - 1) div 32 * 32) = unat start mod 32 + unat bits - 32"
    using le2 i2 a by (simp add: unat_sub s_def b_def r_def)
qed

subsection \<open>The codec computes its closed forms\<close>

lemma word_at_W: "i < 3 \<Longrightarrow> word_at e (2 - int i) = Some (W e i)"
  by (cases e) auto

lemma word_upd_Wupd: "i < 3 \<Longrightarrow> word_upd e (2 - int i) v = Some (Wupd e i v)"
  by (cases e) (auto simp: Wupd_def)

lemma W_Wupd: "i < 3 \<Longrightarrow> W (Wupd e i v) j = (if j = i then v else W e j)"
  by (cases e) (auto simp: Wupd_def)

lemma valid_idx:
  assumes "valid_field L start bits"
  shows "unat start div 32 < 3" "unat start < 96"
proof -
  show "unat start < 96" using assms by (simp add: valid_field_def)
  then have "unat start div 32 \<le> 95 div 32" by (intro div_le_mono) simp
  then show "unat start div 32 < 3" by simp
qed

lemma get_field_gf:
  assumes v: "valid_field L start bits"
  shows "cpsw_ale_get_field L e start bits = Some (gf e (unat start) (unat bits))"
proof -
  have b: "1 \<le> unat bits" "unat bits \<le> 32" "unat start + unat bits \<le> 96" "unat bits < L"
    using v by (simp_all add: valid_field_def)
  note vi = valid_idx [OF v]
  have lo: "unat (start - start div 32 * 32) = unat start mod 32"
    by (rule lo_shift_unat [OF vi(2)])
  have i1: "uint (start div 32) = int (unat start div 32)"
    by (simp add: uint_nat unat_div)
  show ?thesis
  proof (cases "start div 32 = (start + bits - 1) div 32")
    case True
    then have "unat start div 32 = (unat start + unat bits - 1) div 32"
      using idx_unat [of start] idx2_unat [OF b(1,3)] by simp
    then have "unat start mod 32 + unat bits \<le> 32" by (rule same_nat [OF b(1)])
    moreover have eq: "(start + bits - 1) div 32 = start div 32" using True by simp
    ultimately show ?thesis using b vi
      by (simp add: eq cpsw_ale_get_field_def Let_def gf_def i1 word_at_W shr32_uint lo BITMASK_uint)
  next
    case False
    note h = hi_shift_unat [OF b(1,2,3) False]
    have i2: "uint ((start + bits - 1) div 32) = int (Suc (unat start div 32))"
      using idx2_unat [OF b(1,3)] h(3) by (simp add: uint_nat)
    have "(unat start + unat bits - 1) div 32 \<le> 95 div 32" using b by (intro div_le_mono) simp
    then have q: "Suc (unat start div 32) < 3" using h(3) by simp
    have w2: "word_at e (2 - uint ((start + bits - 1) div 32)) = Some (W e (Suc (unat start div 32)))"
      unfolding i2 by (rule word_at_W [OF q])
    have w1: "word_at e (2 - uint (start div 32)) = Some (W e (unat start div 32))"
      unfolding i1 by (rule word_at_W [OF vi(1)])
    show ?thesis using False b h(4,5)
      by (simp add: cpsw_ale_get_field_def Let_def gf_def w1 w2 shr32_uint shl32_uint
          lo h(1) BITMASK_uint)
  qed
qed


lemma set_field_sf:
  assumes v: "valid_field L start bits"
  shows "cpsw_ale_set_field L e start bits x = Some (sf e (unat start) (unat bits) x)"
proof -
  have b: "1 \<le> unat bits" "unat bits \<le> 32" "unat start + unat bits \<le> 96" "unat bits < L"
    using v by (simp_all add: valid_field_def)
  note vi = valid_idx [OF v]
  have lo: "unat (start - start div 32 * 32) = unat start mod 32"
    by (rule lo_shift_unat [OF vi(2)])
  have i1: "uint (start div 32) = int (unat start div 32)"
    by (simp add: uint_nat unat_div)
  have w1: "\<And>e. word_at e (2 - uint (start div 32)) = Some (W e (unat start div 32))"
    unfolding i1 by (rule word_at_W [OF vi(1)])
  have u1: "\<And>e y. word_upd e (2 - uint (start div 32)) y = Some (Wupd e (unat start div 32) y)"
    unfolding i1 by (rule word_upd_Wupd [OF vi(1)])
  show ?thesis
  proof (cases "start div 32 = (start + bits - 1) div 32")
    case True
    then have "unat start div 32 = (unat start + unat bits - 1) div 32"
      using idx_unat [of start] idx2_unat [OF b(1,3)] by simp
    then have "unat start mod 32 + unat bits \<le> 32" by (rule same_nat [OF b(1)])
    moreover have eq: "(start + bits - 1) div 32 = start div 32" using True by simp
    ultimately show ?thesis using b
      by (simp add: eq cpsw_ale_set_field_def Let_def sf_def w1 u1 shl32_uint lo BITMASK_uint)
  next
    case False
    note h = hi_shift_unat [OF b(1,2,3) False]
    have i2: "uint ((start + bits - 1) div 32) = int (Suc (unat start div 32))"
      using idx2_unat [OF b(1,3)] h(3) by (simp add: uint_nat)
    have "(unat start + unat bits - 1) div 32 \<le> 95 div 32" using b by (intro div_le_mono) simp
    then have q: "Suc (unat start div 32) < 3" using h(3) by simp
    have w2: "word_at e (2 - uint ((start + bits - 1) div 32)) = Some (W e (Suc (unat start div 32)))"
      unfolding i2 by (rule word_at_W [OF q])
    have u2: "\<And>y. word_upd e (2 - uint ((start + bits - 1) div 32)) y
                 = Some (Wupd e (Suc (unat start div 32)) y)"
      unfolding i2 by (rule word_upd_Wupd [OF q])
    have lt: "unat start mod 32 + unat bits - 32 < L" using b by simp
    show ?thesis using False b h(4,5) lt
      by (simp add: cpsw_ale_set_field_def Let_def sf_def w1 w2 u1 u2 shr32_uint shl32_uint
          lo h(1,2) BITMASK_uint)
  qed
qed

subsection \<open>Bits of a field read and of a field write\<close>


lemma divmod_base:
  fixes q x :: nat
  assumes "x < 32"
  shows "(q * 32 + x) div 32 = q" "(q * 32 + x) mod 32 = x"
  using assms by simp_all

lemma divmod_lo:
  fixes s n :: nat
  assumes "s mod 32 + n < 32"
  shows "(s + n) div 32 = s div 32" "(s + n) mod 32 = s mod 32 + n"
proof -
  have e: "s div 32 * 32 + (s mod 32 + n) = s + n" by simp
  show "(s + n) div 32 = s div 32"
    using divmod_base(1) [OF assms, of "s div 32"] by (simp only: e)
  show "(s + n) mod 32 = s mod 32 + n"
    using divmod_base(2) [OF assms, of "s div 32"] by (simp only: e)
qed

lemma divmod_hi:
  fixes s n :: nat
  assumes "32 \<le> s mod 32 + n" "n \<le> 32"
  shows "(s + n) div 32 = Suc (s div 32)" "(s + n) mod 32 = s mod 32 + n - 32"
proof -
  have r: "s mod 32 < 32" by simp
  have e: "Suc (s div 32) * 32 + (s mod 32 + n - 32) = s + n" using assms by simp
  have lt: "s mod 32 + n - 32 < 32" using r assms(2) by linarith
  show "(s + n) div 32 = Suc (s div 32)"
    using divmod_base(1) [OF lt, of "Suc (s div 32)"] by (simp only: e)
  show "(s + n) mod 32 = s mod 32 + n - 32"
    using divmod_base(2) [OF lt, of "Suc (s div 32)"] by (simp only: e)
qed

lemma gf_bit:
  assumes "b \<le> 32"
  shows "bit (gf e s b) n \<longleftrightarrow> n < b \<and> ebit e (s + n)"
proof (cases "32 < s mod 32 + b")
  case False
  show ?thesis
  proof (cases "n < b")
    case True
    then have "s mod 32 + n < 32" using False by simp
    note d = divmod_lo [OF this]
    show ?thesis using False True assms
      by (simp add: gf_def ebit_def d bit_simps)
  next
    case False
    then show ?thesis by (simp add: gf_def bit_simps)
  qed
next
  case cross: True
  have r: "s mod 32 < 32" by simp
  have disj: "push_bit (32 - s mod 32) (W e (Suc (s div 32))) + drop_bit (s mod 32) (W e (s div 32))
       = push_bit (32 - s mod 32) (W e (Suc (s div 32))) OR drop_bit (s mod 32) (W e (s div 32))"
  proof (rule disjunctive_add)
    fix k
    show "\<not> bit (push_bit (32 - s mod 32) (W e (Suc (s div 32)))) k
        \<or> \<not> bit (drop_bit (s mod 32) (W e (s div 32))) k"
    proof (cases "k < 32 - s mod 32")
      case True
      then show ?thesis by (simp add: bit_simps)
    next
      case False
      then have "32 \<le> s mod 32 + k" by simp
      then have "\<not> bit (W e (s div 32)) (s mod 32 + k)"
        using bit_imp_le_length [of "W e (s div 32)" "s mod 32 + k"] by auto
      then show ?thesis by (simp add: bit_simps)
    qed
  qed
  show ?thesis
  proof (cases "n < b")
    case False
    then show ?thesis by (simp add: gf_def bit_simps)
  next
    case nb: True
    show ?thesis
    proof (cases "s mod 32 + n < 32")
      case True
      note d = divmod_lo [OF True]
      have "\<not> 32 - s mod 32 \<le> n" using True by simp
      then show ?thesis using cross nb True
        by (simp add: gf_def disj ebit_def d bit_simps)
    next
      case False
      then have ge: "32 \<le> s mod 32 + n" by simp
      have n32: "n \<le> 32" using nb assms by simp
      note d = divmod_hi [OF ge n32]
      have "\<not> bit (W e (s div 32)) (s mod 32 + n)"
        using bit_imp_le_length [of "W e (s div 32)" "s mod 32 + n"] ge by auto
      moreover have "n - (32 - s mod 32) = s mod 32 + n - 32" using ge by simp
      moreover have "32 - s mod 32 \<le> n" using ge by simp
      ultimately show ?thesis using cross nb ge assms
        by (simp add: gf_def disj ebit_def d bit_simps)
    qed
  qed
qed

lemma ebit_Wupd:
  "i < 3 \<Longrightarrow> ebit (Wupd e i w) p = (if p div 32 = i then bit w (p mod 32) else ebit e p)"
  by (simp add: ebit_def W_Wupd)

lemma range_same_word:
  fixes s p b :: nat
  assumes "p div 32 = s div 32"
  shows "(s \<le> p \<and> p < s + b) \<longleftrightarrow> (s mod 32 \<le> p mod 32 \<and> p mod 32 < s mod 32 + b)"
    and "p - s = p mod 32 - s mod 32"
proof -
  define q r k where "q = s div 32" and "r = s mod 32" and "k = p mod 32"
  have s: "s = q * 32 + r" by (simp add: q_def r_def)
  have p: "p = q * 32 + k" using assms [symmetric] by (simp add: q_def k_def)
  have "(s \<le> p \<and> p < s + b) \<longleftrightarrow> (r \<le> k \<and> k < r + b)" by (simp add: s p)
  then show "(s \<le> p \<and> p < s + b) \<longleftrightarrow> (s mod 32 \<le> p mod 32 \<and> p mod 32 < s mod 32 + b)"
    by (simp add: r_def k_def)
  have "p - s = k - r" by (simp add: s p)
  then show "p - s = p mod 32 - s mod 32" by (simp add: r_def k_def)
qed

lemma range_next_word:
  fixes s p b :: nat
  assumes "p div 32 = Suc (s div 32)"
  shows "(s \<le> p \<and> p < s + b) \<longleftrightarrow> (p mod 32 + 32 < s mod 32 + b)"
    and "p - s = p mod 32 + 32 - s mod 32"
proof -
  define q r k where "q = s div 32" and "r = s mod 32" and "k = p mod 32"
  have s: "s = q * 32 + r" by (simp add: q_def r_def)
  have p: "p = Suc q * 32 + k" using assms [symmetric] by (simp add: q_def k_def)
  have r: "r < 32" by (simp add: r_def)
  have "(s \<le> p \<and> p < s + b) \<longleftrightarrow> (k + 32 < r + b)" using r by (auto simp: s p)
  then show "(s \<le> p \<and> p < s + b) \<longleftrightarrow> (p mod 32 + 32 < s mod 32 + b)"
    by (simp add: r_def k_def)
  have "p - s = k + 32 - r" using r by (simp add: s p)
  then show "p - s = p mod 32 + 32 - s mod 32" by (simp add: r_def k_def)
qed

lemma range_other_word:
  fixes s p b :: nat
  assumes "p div 32 \<noteq> s div 32" "p div 32 \<noteq> Suc (s div 32)" "b \<le> 32"
  shows "\<not> (s \<le> p \<and> p < s + b)"
proof
  assume a: "s \<le> p \<and> p < s + b"
  then have "s div 32 \<le> p div 32" by (intro div_le_mono) simp
  moreover have "p div 32 \<le> (s + 32) div 32" using a assms(3) by (intro div_le_mono) simp
  ultimately show False using assms(1,2) by simp
qed


lemma lo_word_bit:
  fixes w v :: u32
  assumes "k < 32"
  shows "bit ((w AND NOT (push_bit r (mask b))) OR push_bit r (v AND mask b)) k
         = (if r \<le> k \<and> k < r + b then bit v (k - r) else bit w k)"
  using assms by (auto simp: bit_simps)

lemma hi_word_bit:
  fixes w v :: u32
  assumes "k < 32" "r < 32" "32 < r + b"
  shows "bit ((w AND NOT (mask (r + b - 32))) OR drop_bit (32 - r) (v AND mask b)) k
         = (if k + 32 < r + b then bit v (k + 32 - r) else bit w k)"
proof -
  have a: "32 - r + k = k + 32 - r" using assms by simp
  have c: "(k < r + b - 32) = (k + 32 < r + b)" by auto
  have d: "k + 32 < r + b \<Longrightarrow> k + 32 - r < b" using assms(2) by linarith
  show ?thesis using assms d by (auto simp: bit_simps a c dest: bit_imp_le_length)
qed

lemma sf_bit:
  assumes b32: "b \<le> 32" and sb: "s + b \<le> 96" and b1: "1 \<le> b"
  shows "ebit (sf e s b v) p = (if s \<le> p \<and> p < s + b then bit v (p - s) else ebit e p)"
proof -
  have "s div 32 \<le> 95 div 32" using sb b1 by (intro div_le_mono) simp
  then have q3: "s div 32 < 3" by simp
  have r: "s mod 32 < 32" by simp
  have k: "p mod 32 < 32" by simp
  show ?thesis
  proof (cases "32 < s mod 32 + b")
    case False
    have sf: "sf e s b v = Wupd e (s div 32)
        ((W e (s div 32) AND NOT (push_bit (s mod 32) (mask b))) OR push_bit (s mod 32) (v AND mask b))"
      using False by (simp add: sf_def Let_def)
    show ?thesis
    proof (cases "p div 32 = s div 32")
      case True
      note rg = range_same_word [OF True]
      have "ebit (sf e s b v) p = (if s mod 32 \<le> p mod 32 \<and> p mod 32 < s mod 32 + b
                then bit v (p mod 32 - s mod 32) else bit (W e (s div 32)) (p mod 32))"
        unfolding sf ebit_Wupd [OF q3] using True lo_word_bit [OF k] by simp
      then show ?thesis using True by (simp add: rg ebit_def)
    next
      case ne: False
      have "\<not> (s \<le> p \<and> p < s + b)"
      proof
        assume a: "s \<le> p \<and> p < s + b"
        then have "s mod 32 + (p - s) < 32" using False by linarith
        from divmod_lo(1) [OF this] a ne show False by simp
      qed
      then show ?thesis using ne by (auto simp: sf ebit_Wupd [OF q3])
    qed
  next
    case cross: True
    have "(s + b - 1) div 32 \<le> 95 div 32" using sb by (intro div_le_mono) simp
    moreover have "(s + (b - 1)) div 32 = Suc (s div 32)"
      using cross b32 by (intro divmod_hi(1)) simp_all
    ultimately have q4: "Suc (s div 32) < 3" using b1 by simp
    define e1 where "e1 = Wupd e (Suc (s div 32))
        ((W e (Suc (s div 32)) AND NOT (mask (s mod 32 + b - 32))) OR drop_bit (32 - s mod 32) (v AND mask b))"
    have sf: "sf e s b v = Wupd e1 (s div 32)
        ((W e (s div 32) AND NOT (push_bit (s mod 32) (mask b))) OR push_bit (s mod 32) (v AND mask b))"
      using cross by (simp add: sf_def Let_def e1_def W_Wupd [OF q4])
    show ?thesis
    proof (cases "p div 32 = s div 32")
      case True
      note rg = range_same_word [OF True]
      have lt: "p mod 32 < s mod 32 + b" using cross k by simp
      have "ebit (sf e s b v) p = (if s mod 32 \<le> p mod 32 \<and> p mod 32 < s mod 32 + b
                then bit v (p mod 32 - s mod 32) else bit (W e (s div 32)) (p mod 32))"
        unfolding sf ebit_Wupd [OF q3] using True lo_word_bit [OF k] by simp
      then show ?thesis using True by (simp add: rg ebit_def)
    next
      case ne: False
      show ?thesis
      proof (cases "p div 32 = Suc (s div 32)")
        case True
        note rg = range_next_word [OF True]
        have "ebit (sf e s b v) p = (if p mod 32 + 32 < s mod 32 + b
                then bit v (p mod 32 + 32 - s mod 32) else bit (W e (Suc (s div 32))) (p mod 32))"
          unfolding sf ebit_Wupd [OF q3] e1_def ebit_Wupd [OF q4]
          using True ne hi_word_bit [OF k r cross] by simp
        then show ?thesis using True by (simp add: rg ebit_def)
      next
        case False
        from range_other_word [OF ne False b32]
        show ?thesis using ne False
          by (auto simp: sf e1_def ebit_Wupd [OF q3] ebit_Wupd [OF q4])
      qed
    qed
  qed
qed

subsection \<open>A write followed by a read\<close>

lemma gf_sf_same:
  assumes "1 \<le> b" "b \<le> 32" "s + b \<le> 96"
  shows "gf (sf e s b v) s b = v AND mask b"
proof (rule bit_word_eqI)
  fix n
  show "bit (gf (sf e s b v) s b) n = bit (v AND mask b) n"
    using assms by (auto simp: gf_bit sf_bit bit_simps dest: bit_imp_le_length)
qed

lemma gf_sf_other:
  assumes "1 \<le> b" "b \<le> 32" "s + b \<le> 96" "b' \<le> 32"
    and "s' + b' \<le> s \<or> s + b \<le> s'"
  shows "gf (sf e s b v) s' b' = gf e s' b'"
proof (rule bit_word_eqI)
  fix n
  show "bit (gf (sf e s b v) s' b') n = bit (gf e s' b') n"
    using assms by (auto simp: gf_bit sf_bit)
qed

section \<open>Properties of the control registers\<close>

lemma shl32_int: "0 \<le> n \<Longrightarrow> n < 32 \<Longrightarrow> shl32 x n = Some (push_bit (nat n) x)"
  by (simp add: shl32_def)

lemma shr32_int: "0 \<le> n \<Longrightarrow> n < 32 \<Longrightarrow> shr32 x n = Some (drop_bit (nat n) x)"
  by (simp add: shr32_def)

lemma BITMASK_int: "0 \<le> b \<Longrightarrow> b < int L \<Longrightarrow> BITMASK L b = Some (mask (nat b))"
  by (simp add: BITMASK_def)

lemma reg_field_read_back:
  fixes x v :: u32
  assumes "v AND NOT (mask b) = 0" "s + b \<le> 32"
  shows "drop_bit s ((x AND NOT (push_bit s (mask b))) OR push_bit s v) AND mask b = v"
proof (rule bit_word_eqI)
  fix n
  assume n: "n < LENGTH(32)"
  have vb: "bit v n \<Longrightarrow> n < b"
  proof (rule ccontr)
    assume "bit v n" "\<not> n < b"
    then have "bit (v AND NOT (mask b)) n" using n by (simp add: bit_simps)
    then show False using assms(1) by simp
  qed
  show "bit (drop_bit s ((x AND NOT (push_bit s (mask b))) OR push_bit s v) AND mask b) n
          = bit v n"
    using assms(2) n vb by (auto simp: bit_simps)
qed

lemma limit_set:
  assumes "limit_controls_loaded ale" "8 < L"
    and "(control, sh) = (ALE_PORT_MCAST_LIMIT, 16) \<or> (control, sh) = (ALE_PORT_BCAST_LIMIT, 24)"
  shows "cpsw_ale_control_set L ale port control v =
     Some (if port < 0 \<or> int (ale_ports (params ale)) \<le> port then (Inl EINVAL, ale)
           else if v AND NOT (mask 8) \<noteq> 0 then (Inl EINVAL, ale)
           else (Inr (), ale\<lparr>ale_regs := (ale_regs ale)
                   (ALE_PORTCTL + port * 4 := (ale_regs ale (ALE_PORTCTL + port * 4)
                                         AND NOT (push_bit sh (mask 8))) OR push_bit sh v)\<rparr>))"
  using assms
  by (auto simp: cpsw_ale_control_set_def limit_controls_loaded_def Let_def control_info_def
      ALE_PORT_MCAST_LIMIT_def ALE_PORT_BCAST_LIMIT_def ALE_NUM_CONTROLS_def BITMASK_int
      shl32_int readl_def writel_def)

lemma limit_get:
  assumes "limit_controls_loaded ale" "8 < L"
    and "(control, sh) = (ALE_PORT_MCAST_LIMIT, 16) \<or> (control, sh) = (ALE_PORT_BCAST_LIMIT, 24)"
  shows "cpsw_ale_control_get L ale port control =
     Some (if port < 0 \<or> int (ale_ports (params ale)) \<le> port then Inl EINVAL
           else Inr (drop_bit sh (ale_regs ale (ALE_PORTCTL + port * 4)) AND mask 8))"
  using assms
  by (auto simp: cpsw_ale_control_get_def limit_controls_loaded_def Let_def control_info_def
      ALE_PORT_MCAST_LIMIT_def ALE_PORT_BCAST_LIMIT_def ALE_NUM_CONTROLS_def BITMASK_int
      shr32_int readl_def)

lemma loaded_dev_log [simp]: "limit_controls_loaded (dev_log l m ale) = limit_controls_loaded ale"
  by (simp add: limit_controls_loaded_def dev_log_def)

lemma loaded_regs [simp]:
  "limit_controls_loaded (ale\<lparr>ale_regs := r\<rparr>) = limit_controls_loaded ale"
  by (simp add: limit_controls_loaded_def)

lemma div_1000_zero_iff:
  fixes pps :: u32
  shows "pps div 1000 = 0 \<longleftrightarrow> pps < 1000"
proof -
  have "pps div 1000 = 0 \<longleftrightarrow> unat (pps div 1000) = 0" by (simp add: unat_eq_0)
  also have "\<dots> \<longleftrightarrow> unat pps < 1000" by (simp add: unat_div div_eq_0_iff)
  also have "\<dots> \<longleftrightarrow> pps < 1000" by (simp add: word_less_nat_alt)
  finally show ?thesis .
qed


lemma rx_ratelimit_mc_eq:
  assumes "limit_controls_loaded ale" "8 < L"
  shows "cpsw_ale_rx_ratelimit_mc L ale port pps =
     Some (if pps \<noteq> 0 \<and> pps < 1000
           then (Inl EINVAL, dev_log KERN_ERR ''ALE MC port:%d ratelimit min value 1000pps'' ale)
           else let ale1 = (if pps mod 1000 \<noteq> 0
                            then dev_log KERN_INFO
                                   ''ALE port:%d MC ratelimit set to %dpps (requested %d)'' ale
                            else ale);
                    ale2 = (if port < 0 \<or> int (ale_ports (params ale)) \<le> port
                               \<or> (pps div 1000) AND NOT (mask 8) \<noteq> 0
                            then ale1
                            else ale1\<lparr>ale_regs := (ale_regs ale1)
                                   (ALE_PORTCTL + port * 4 :=
                                      (ale_regs ale1 (ALE_PORTCTL + port * 4)
                                         AND NOT (push_bit 16 (mask 8)))
                                      OR push_bit 16 (pps div 1000))\<rparr>)
                in (Inr (), dev_log KERN_DEBUG ''ALE port:%d MC ratelimit set %d'' ale2))"
proof -
  note mc = disjI1 [of "(ALE_PORT_MCAST_LIMIT, 16 :: nat) = (ALE_PORT_MCAST_LIMIT, 16)"
      "(ALE_PORT_MCAST_LIMIT, 16 :: nat) = (ALE_PORT_BCAST_LIMIT, 24)", OF refl]
  define ale1 where "ale1 = (if pps mod 1000 \<noteq> 0
      then dev_log KERN_INFO ''ALE port:%d MC ratelimit set to %dpps (requested %d)'' ale
      else ale)"
  have l1: "limit_controls_loaded ale1" using assms(1) by (simp add: ale1_def)
  have p1: "params ale1 = params ale" by (simp add: ale1_def dev_log_def)
  note set = limit_set [OF l1 assms(2) mc, of port "pps div 1000"]
  show ?thesis
    unfolding cpsw_ale_rx_ratelimit_mc_def Let_def ALE_RATE_LIMIT_MIN_PPS_def
      div_1000_zero_iff ale1_def [symmetric] set
    by (simp add: p1)
qed

lemma rx_ratelimit_bc_eq:
  assumes "limit_controls_loaded ale" "8 < L"
  shows "cpsw_ale_rx_ratelimit_bc L ale port pps =
     Some (if pps \<noteq> 0 \<and> pps < 1000
           then (Inl EINVAL, dev_log KERN_ERR ''ALE port:%d BC ratelimit min value 1000pps'' ale)
           else let ale1 = (if pps mod 1000 \<noteq> 0
                            then dev_log KERN_INFO
                                   ''ALE port:%d BC ratelimit set to %dpps (requested %d)'' ale
                            else ale);
                    ale2 = (if port < 0 \<or> int (ale_ports (params ale)) \<le> port
                               \<or> (pps div 1000) AND NOT (mask 8) \<noteq> 0
                            then ale1
                            else ale1\<lparr>ale_regs := (ale_regs ale1)
                                   (ALE_PORTCTL + port * 4 :=
                                      (ale_regs ale1 (ALE_PORTCTL + port * 4)
                                         AND NOT (push_bit 24 (mask 8)))
                                      OR push_bit 24 (pps div 1000))\<rparr>)
                in (Inr (), dev_log KERN_DEBUG ''ALE port:%d BC ratelimit set %d'' ale2))"
proof -
  note mc = disjI2 [of "(ALE_PORT_BCAST_LIMIT, 24 :: nat) = (ALE_PORT_BCAST_LIMIT, 24)"
      "(ALE_PORT_BCAST_LIMIT, 24 :: nat) = (ALE_PORT_MCAST_LIMIT, 16)", OF refl]
  define ale1 where "ale1 = (if pps mod 1000 \<noteq> 0
      then dev_log KERN_INFO ''ALE port:%d BC ratelimit set to %dpps (requested %d)'' ale
      else ale)"
  have l1: "limit_controls_loaded ale1" using assms(1) by (simp add: ale1_def)
  have p1: "params ale1 = params ale" by (simp add: ale1_def dev_log_def)
  note set = limit_set [OF l1 assms(2) mc, of port "pps div 1000"]
  show ?thesis
    unfolding cpsw_ale_rx_ratelimit_bc_def Let_def ALE_RATE_LIMIT_MIN_PPS_def
      div_1000_zero_iff ale1_def [symmetric] set
    by (simp add: p1)
qed

section \<open>Properties of the aging timer\<close>



section \<open>Properties of the table operations\<close>

subsection \<open>Accessors and searches\<close>

lemma upt_6: "[0..<6] = [0, 1, 2, 3, 4, 5]"
  by (simp add: upt_rec)

lemma vf_const [simp]:
  "32 \<le> L \<Longrightarrow> valid_field L 60 2" "32 \<le> L \<Longrightarrow> valid_field L 48 12"
  "32 \<le> L \<Longrightarrow> valid_field L 62 2" "32 \<le> L \<Longrightarrow> valid_field L 65 1"
  "32 \<le> L \<Longrightarrow> valid_field L 64 1" "32 \<le> L \<Longrightarrow> valid_field L 40 1"
  "32 \<le> L \<Longrightarrow> valid_field L 40 8" "32 \<le> L \<Longrightarrow> valid_field L 32 8"
  "32 \<le> L \<Longrightarrow> valid_field L 24 8" "32 \<le> L \<Longrightarrow> valid_field L 16 8"
  "32 \<le> L \<Longrightarrow> valid_field L 8 8" "32 \<le> L \<Longrightarrow> valid_field L 0 8"
  by (simp_all add: valid_field_def)

lemma vf_port:
  "ale_ok L ale \<Longrightarrow> valid_field L 66 (port_mask_bits ale)"
  "ale_ok L ale \<Longrightarrow> valid_field L 66 (port_num_bits ale)"
  by (simp_all add: valid_field_def ale_ok_def)

lemma getters:
  assumes "32 \<le> L"
  shows "cpsw_ale_get_entry_type L e = Some (gf e 60 2)"
    and "cpsw_ale_get_vlan_id L e = Some (gf e 48 12)"
    and "cpsw_ale_get_super L e = Some (gf e 65 1)"
    and "cpsw_ale_get_ucast_type L e = Some (gf e 62 2)"
    and "cpsw_ale_get_mcast L e = Some (gf e 40 1)"
  using assms
  by (simp_all add: cpsw_ale_get_entry_type_def cpsw_ale_get_vlan_id_def cpsw_ale_get_super_def
      cpsw_ale_get_ucast_type_def cpsw_ale_get_mcast_def get_field_gf)

lemma setters:
  assumes "32 \<le> L"
  shows "cpsw_ale_set_entry_type L e v = Some (sf e 60 2 v)"
    and "cpsw_ale_set_vlan_id L e v = Some (sf e 48 12 v)"
    and "cpsw_ale_set_mcast_state L e v = Some (sf e 62 2 v)"
    and "cpsw_ale_set_super L e v = Some (sf e 65 1 v)"
    and "cpsw_ale_set_ucast_type L e v = Some (sf e 62 2 v)"
    and "cpsw_ale_set_blocked L e v = Some (sf e 65 1 v)"
    and "cpsw_ale_set_secure L e v = Some (sf e 64 1 v)"
  using assms
  by (simp_all add: cpsw_ale_set_entry_type_def cpsw_ale_set_vlan_id_def
      cpsw_ale_set_mcast_state_def cpsw_ale_set_super_def cpsw_ale_set_ucast_type_def
      cpsw_ale_set_blocked_def cpsw_ale_set_secure_def set_field_sf)

lemma port_accessors:
  assumes "ale_ok L ale"
  shows "cpsw_ale_get_port_mask L e (port_mask_bits ale) = Some (gf e 66 (unat (port_mask_bits ale)))"
    and "cpsw_ale_set_port_mask L e v (port_mask_bits ale) = Some (sf e 66 (unat (port_mask_bits ale)) v)"
    and "cpsw_ale_set_port_num L e v (port_num_bits ale) = Some (sf e 66 (unat (port_num_bits ale)) v)"
  using vf_port [OF assms]
  by (simp_all add: cpsw_ale_get_port_mask_def cpsw_ale_set_port_mask_def
      cpsw_ale_set_port_num_def get_field_gf set_field_sf)

lemma get_addr_mac:
  assumes "32 \<le> L"
  shows "cpsw_ale_get_addr L e = Some (mac_of e)"
  using assms by (simp add: cpsw_ale_get_addr_def upt_6 get_field_gf mac_of_def)

lemma set_addr_mac:
  assumes "32 \<le> L" "6 \<le> length addr"
  shows "cpsw_ale_set_addr L e addr = Some (set_mac e addr)"
proof -
  have "addr \<noteq> []" using assms(2) by auto
  then show ?thesis
    using assms by (simp add: cpsw_ale_set_addr_def upt_6 set_field_sf set_mac_def)
qed


lemma mac_of_length [simp]: "length (mac_of e) = 6"
  by (simp add: mac_of_def)

lemma ether_addr_equal_mac:
  "6 \<le> length addr \<Longrightarrow> ether_addr_equal (mac_of e) addr = Some (mac_of e = take 6 addr)"
  by (simp add: ether_addr_equal_def)

lemma key_match_iff:
  assumes "32 \<le> L"
  shows "key_match L addr vid e \<longleftrightarrow>
     (gf e 60 2 = ALE_TYPE_ADDR \<or> gf e 60 2 = ALE_TYPE_VLAN_ADDR)
     \<and> gf e 48 12 = ucast vid \<and> mac_of e = take 6 addr"
  using assms by (simp add: key_match_def is_addr_entry_def getters get_addr_mac)

lemma vlan_match_iff:
  assumes "32 \<le> L"
  shows "vlan_match L vid e \<longleftrightarrow> gf e 60 2 = ALE_TYPE_VLAN \<and> gf e 48 12 = ucast vid"
  using assms by (simp add: vlan_match_def getters)

lemma is_free_iff:
  assumes "32 \<le> L"
  shows "is_free L e \<longleftrightarrow> gf e 60 2 = ALE_TYPE_FREE"
  using assms by (simp add: is_free_def getters)

lemma is_ageable_iff:
  assumes "32 \<le> L"
  shows "is_ageable L e \<longleftrightarrow>
     (gf e 60 2 = ALE_TYPE_ADDR \<or> gf e 60 2 = ALE_TYPE_VLAN_ADDR) \<and> gf e 40 1 = 0
     \<and> gf e 62 2 \<noteq> ALE_UCAST_PERSISTANT \<and> gf e 62 2 \<noteq> ALE_UCAST_OUI"
  using assms by (simp add: is_ageable_def is_ucast_def is_addr_entry_def getters)

lemma upt_step: "idx < n \<Longrightarrow> [idx..<n] = idx # [Suc idx..<n]"
  by (simp add: upt_rec)

lemma match_free_loop_find:
  assumes L: "32 \<le> L"
  shows "match_free_loop L ale idx =
     Some (scan_result (List.find (\<lambda>i. is_free L (ale_table ale i))
                          [idx..<ale_entries (params ale)]))"
proof (induction "ale_entries (params ale) - idx" arbitrary: idx)
  case 0
  then show ?case by (subst match_free_loop.simps) (simp add: scan_result_def)
next
  case (Suc k)
  then have lt: "idx < ale_entries (params ale)" by simp
  have ih: "match_free_loop L ale (Suc idx) =
     Some (scan_result (List.find (\<lambda>i. is_free L (ale_table ale i))
                          [Suc idx..<ale_entries (params ale)]))"
    using Suc by simp
  show ?case
    by (subst match_free_loop.simps)
       (simp add: lt upt_step [OF lt] ih Let_def cpsw_ale_read_def getters [OF L] is_free_iff [OF L]
          scan_result_def)
qed

lemma match_vlan_loop_find:
  assumes L: "32 \<le> L"
  shows "match_vlan_loop L ale vid idx =
     Some (scan_result (List.find (\<lambda>i. vlan_match L vid (ale_table ale i))
                          [idx..<ale_entries (params ale)]))"
proof (induction "ale_entries (params ale) - idx" arbitrary: idx)
  case 0
  then show ?case by (subst match_vlan_loop.simps) (simp add: scan_result_def)
next
  case (Suc k)
  then have lt: "idx < ale_entries (params ale)" by simp
  have ih: "match_vlan_loop L ale vid (Suc idx) =
     Some (scan_result (List.find (\<lambda>i. vlan_match L vid (ale_table ale i))
                          [Suc idx..<ale_entries (params ale)]))"
    using Suc by simp
  show ?case
    by (subst match_vlan_loop.simps)
       (simp add: lt upt_step [OF lt] ih Let_def cpsw_ale_read_def getters [OF L] vlan_match_iff [OF L]
          scan_result_def)
qed

lemma find_ageable_loop_find:
  assumes L: "32 \<le> L"
  shows "find_ageable_loop L ale idx =
     Some (scan_result (List.find (\<lambda>i. is_ageable L (ale_table ale i))
                          [idx..<ale_entries (params ale)]))"
proof (induction "ale_entries (params ale) - idx" arbitrary: idx)
  case 0
  then show ?case by (subst find_ageable_loop.simps) (simp add: scan_result_def)
next
  case (Suc k)
  then have lt: "idx < ale_entries (params ale)" by simp
  have ih: "find_ageable_loop L ale (Suc idx) =
     Some (scan_result (List.find (\<lambda>i. is_ageable L (ale_table ale i))
                          [Suc idx..<ale_entries (params ale)]))"
    using Suc by simp
  show ?case
    by (subst find_ageable_loop.simps)
       (simp add: lt upt_step [OF lt] ih Let_def cpsw_ale_read_def getters [OF L] is_ageable_iff [OF L]
          scan_result_def)
qed

lemma match_addr_loop_find:
  assumes L: "32 \<le> L" and a: "6 \<le> length addr"
  shows "match_addr_loop L ale addr vid idx =
     Some (scan_result (List.find (\<lambda>i. key_match L addr vid (ale_table ale i))
                          [idx..<ale_entries (params ale)]))"
proof (induction "ale_entries (params ale) - idx" arbitrary: idx)
  case 0
  then show ?case by (subst match_addr_loop.simps) (simp add: scan_result_def)
next
  case (Suc k)
  then have lt: "idx < ale_entries (params ale)" by simp
  have ih: "match_addr_loop L ale addr vid (Suc idx) =
     Some (scan_result (List.find (\<lambda>i. key_match L addr vid (ale_table ale i))
                          [Suc idx..<ale_entries (params ale)]))"
    using Suc by simp
  show ?case
    by (subst match_addr_loop.simps)
       (simp add: lt upt_step [OF lt] ih Let_def cpsw_ale_read_def getters [OF L] key_match_iff [OF L]
          get_addr_mac [OF L] ether_addr_equal_mac [OF a] scan_result_def)
qed

lemma searches:
  assumes "32 \<le> L"
  shows "cpsw_ale_match_free L ale = Some (scan_result (first_index (is_free L) ale))"
    and "cpsw_ale_find_ageable L ale = Some (scan_result (first_index (is_ageable L) ale))"
    and "cpsw_ale_match_vlan L ale vid = Some (scan_result (first_index (vlan_match L vid) ale))"
    and "6 \<le> length addr \<Longrightarrow>
         cpsw_ale_match_addr L ale addr vid
           = Some (scan_result (first_index (key_match L addr vid) ale))"
  using assms
  by (simp_all add: cpsw_ale_match_free_def cpsw_ale_find_ageable_def cpsw_ale_match_vlan_def
      cpsw_ale_match_addr_def first_index_def match_free_loop_find find_ageable_loop_find
      match_vlan_loop_find match_addr_loop_find)

lemma alloc_idx_from:
  assumes "32 \<le> L"
  shows "alloc_idx L ale (scan_result r) =
     Some (case alloc_from L ale r of Some i \<Rightarrow> Inr i | None \<Rightarrow> Inl ENOMEM)"
  using assms
  by (simp add: alloc_idx_def alloc_from_def searches scan_result_def split: option.splits)

lemma spec_alloc_from: "spec_alloc L ale key = alloc_from L ale (first_index key ale)"
  by (simp add: spec_alloc_def alloc_from_def)

lemma alloc_idx_spec:
  assumes "32 \<le> L"
  shows "alloc_idx L ale (scan_result (first_index key ale)) =
     Some (case spec_alloc L ale key of Some i \<Rightarrow> Inr i | None \<Rightarrow> Inl ENOMEM)"
  using assms by (simp add: alloc_idx_from spec_alloc_from)

subsection \<open>The add operations\<close>

lemma ale_ok_L: "ale_ok L ale \<Longrightarrow> 32 \<le> L"
  by (simp add: ale_ok_def)

lemma set_vlan_entry_type_sf:
  assumes "32 \<le> L"
  shows "cpsw_ale_set_vlan_entry_type L e flags vid = Some (typed_entry e flags vid)"
  using assms by (simp add: cpsw_ale_set_vlan_entry_type_def setters typed_entry_def)

lemma add_result_alloc:
  "(case (case tgt of Some i \<Rightarrow> Inr i | None \<Rightarrow> Inl ENOMEM) of
      Inl err \<Rightarrow> Some (Inl err, ale)
    | Inr i \<Rightarrow> Some (Inr (), cpsw_ale_write ale i e)) = Some (add_result tgt ale e)"
  by (simp add: add_result_def split: option.splits)

lemma start_entry_scan:
  "(case scan_result r of Inr i \<Rightarrow> cpsw_ale_read ale i | Inl _ \<Rightarrow> (0, 0, 0)) = start_entry ale r"
  by (simp add: scan_result_def start_entry_def cpsw_ale_read_def split: option.splits)


lemma add_mcast_eq:
  assumes ok: "ale_ok L ale" and len: "6 \<le> length addr"
  shows "cpsw_ale_add_mcast L ale addr port_mask flags vid mcast_state =
     Some (add_result (spec_alloc L ale (key_match L addr (key_vid flags vid))) ale
             (mcast_entry (unat (port_mask_bits ale))
                (start_entry ale (first_index (key_match L addr (key_vid flags vid)) ale))
                addr port_mask flags vid mcast_state))"
proof -
  note L = ale_ok_L [OF ok]
  show ?thesis
    by (simp add: cpsw_ale_add_mcast_def set_vlan_entry_type_sf [OF L] set_addr_mac [OF L len]
      setters [OF L] port_accessors [OF ok] searches(4) [OF L len] alloc_idx_spec [OF L]
      add_result_alloc mcast_entry_def Let_def start_entry_scan)
qed

subsection \<open>VLAN entries\<close>

lemmas fld_ids = ALE_ENT_VID_MEMBER_LIST_def ALE_ENT_VID_UNREG_MCAST_MSK_def
  ALE_ENT_VID_REG_MCAST_MSK_def ALE_ENT_VID_FORCE_UNTAGGED_MSK_def
  ALE_ENT_VID_UNREG_MCAST_IDX_def ALE_ENT_VID_REG_MCAST_IDX_def

lemmas fld_tbls = vlan_entry_cpsw_def vlan_entry_nu_def vlan_entry_k3_cpswxg_def
  ALE_ENTRY_FLD_def ALE_ENTRY_FLD_DYN_MSK_SIZE_def no_fld_def ALE_FLD_ALLOWED_def
  ALE_FLD_SIZE_PORT_MASK_BITS_def

lemma vlan_ok_D:
  assumes "vlan_ok L ale"
  shows "ale_ok L ale" "32 \<le> L" "1 \<le> unat (port_mask_bits ale)" "unat (port_mask_bits ale) \<le> 12"
    "1 \<le> member_bits ale" "member_bits ale \<le> 12"
  using assms by (auto simp: vlan_ok_def ale_ok_def member_bits_def)

lemma fld_pos_cpsw:
  assumes "vlan_entry_tbl ale = vlan_entry_cpsw"
  shows "fld_pos ale ALE_ENT_VID_MEMBER_LIST = Some (0, 3)"
    "fld_pos ale ALE_ENT_VID_UNREG_MCAST_MSK = Some (8, 3)"
    "fld_pos ale ALE_ENT_VID_REG_MCAST_MSK = Some (16, 3)"
    "fld_pos ale ALE_ENT_VID_FORCE_UNTAGGED_MSK = Some (24, 3)"
    "fld_pos ale ALE_ENT_VID_UNREG_MCAST_IDX = None"
    "fld_pos ale ALE_ENT_VID_REG_MCAST_IDX = None"
  using assms by (simp_all add: fld_pos_def fld_ids fld_tbls)

lemma fld_pos_k3:
  assumes "vlan_entry_tbl ale = vlan_entry_k3_cpswxg"
  shows "fld_pos ale ALE_ENT_VID_MEMBER_LIST = Some (0, unat (port_mask_bits ale))"
    "fld_pos ale ALE_ENT_VID_UNREG_MCAST_MSK = Some (12, unat (port_mask_bits ale))"
    "fld_pos ale ALE_ENT_VID_REG_MCAST_MSK = Some (36, unat (port_mask_bits ale))"
    "fld_pos ale ALE_ENT_VID_FORCE_UNTAGGED_MSK = Some (24, unat (port_mask_bits ale))"
  using assms by (simp_all add: fld_pos_def fld_ids fld_tbls)

lemma fld_pos_nu:
  assumes "vlan_entry_tbl ale = vlan_entry_nu"
  shows "fld_pos ale ALE_ENT_VID_MEMBER_LIST = Some (0, unat (port_mask_bits ale))"
    "fld_pos ale ALE_ENT_VID_UNREG_MCAST_MSK = None"
    "fld_pos ale ALE_ENT_VID_REG_MCAST_MSK = None"
    "fld_pos ale ALE_ENT_VID_FORCE_UNTAGGED_MSK = Some (24, unat (port_mask_bits ale))"
    "fld_pos ale ALE_ENT_VID_UNREG_MCAST_IDX = Some (20, 3)"
    "fld_pos ale ALE_ENT_VID_REG_MCAST_IDX = Some (44, 3)"
  using assms by (simp_all add: fld_pos_def fld_ids fld_tbls)

lemma unat_ucast_u8: "unat (ucast (x :: u8) :: u32) = unat x"
proof -
  have "unat x < 2 ^ 8" using unsigned_less [of x, where ?'a = nat] by simp
  then have "unat x < 2 ^ 32" by simp
  then show ?thesis by (simp add: unsigned_ucast_eq take_bit_nat_eq_self)
qed

lemma vlan_get_fld_pos:
  assumes "32 \<le> L" "fld_id < length (vlan_entry_tbl ale)"
    and "\<And>s w. fld_pos ale fld_id = Some (s, w) \<Longrightarrow> 1 \<le> w \<and> w < 32 \<and> s + w \<le> 96"
  shows "cpsw_ale_vlan_get_fld L ale e fld_id =
     Some (case fld_pos ale fld_id of
             Some (s, w) \<Rightarrow> (gf e s w, ale)
           | None \<Rightarrow> (neg_errno ENOENT, dev_log KERN_ERR ''get: wrong ale fld id %d'' ale))"
proof (cases "fld_pos ale fld_id")
  case None
  then show ?thesis using assms(2)
    by (auto simp: cpsw_ale_vlan_get_fld_def cpsw_ale_entry_get_fld_def fld_pos_def Let_def
        split: if_splits)
next
  case (Some p)
  obtain s w where p: "p = (s, w)" by (cases p)
  note b = assms(3) [OF Some [unfolded p]]
  define f where "f = vlan_entry_tbl ale ! fld_id"
  define bits where "bits = (if fld_flags f AND ALE_FLD_SIZE_PORT_MASK_BITS \<noteq> 0
                          then port_mask_bits ale else ucast (num_bits f))"
  have al: "fld_flags f AND ALE_FLD_ALLOWED \<noteq> 0"
    using Some by (auto simp: fld_pos_def Let_def f_def split: if_splits)
  have s: "s = unat (ucast (start_bit f) :: u32)" and w: "w = unat bits"
    using Some p al by (auto simp: fld_pos_def Let_def f_def bits_def unat_ucast_u8 split: if_splits)
  have vf: "valid_field L (ucast (start_bit f)) bits"
    using b assms(1) by (simp add: valid_field_def s w)
  show ?thesis
    using assms(2) al
    by (simp add: cpsw_ale_vlan_get_fld_def cpsw_ale_entry_get_fld_def Let_def f_def [symmetric]
        bits_def [symmetric] get_field_gf [OF vf] Some p s [symmetric] w [symmetric])
qed


lemma vlan_set_fld_pos:
  assumes "32 \<le> L" "fld_id < length (vlan_entry_tbl ale)"
    and "\<And>s w. fld_pos ale fld_id = Some (s, w) \<Longrightarrow> 1 \<le> w \<and> w < 32 \<and> s + w \<le> 96"
  shows "cpsw_ale_vlan_set_fld L ale e fld_id v =
     Some (case fld_pos ale fld_id of
             Some (s, w) \<Rightarrow> (sf e s w v, ale)
           | None \<Rightarrow> (e, dev_log KERN_ERR ''set: wrong ale fld id %d'' ale))"
proof (cases "fld_pos ale fld_id")
  case None
  then show ?thesis using assms(2)
    by (auto simp: cpsw_ale_vlan_set_fld_def cpsw_ale_entry_set_fld_def fld_pos_def Let_def
        split: if_splits)
next
  case (Some p)
  obtain s w where p: "p = (s, w)" by (cases p)
  note b = assms(3) [OF Some [unfolded p]]
  define f where "f = vlan_entry_tbl ale ! fld_id"
  define bits where "bits = (if fld_flags f AND ALE_FLD_SIZE_PORT_MASK_BITS \<noteq> 0
                          then port_mask_bits ale else ucast (num_bits f))"
  have al: "fld_flags f AND ALE_FLD_ALLOWED \<noteq> 0"
    using Some by (auto simp: fld_pos_def Let_def f_def split: if_splits)
  have s: "s = unat (ucast (start_bit f) :: u32)" and w: "w = unat bits"
    using Some p al by (auto simp: fld_pos_def Let_def f_def bits_def unat_ucast_u8 split: if_splits)
  have vf: "valid_field L (ucast (start_bit f)) bits"
    using b assms(1) by (simp add: valid_field_def s w)
  show ?thesis
    using assms(2) al
    by (simp add: cpsw_ale_vlan_set_fld_def cpsw_ale_entry_set_fld_def Let_def f_def [symmetric]
        bits_def [symmetric] set_field_sf [OF vf] Some p s [symmetric] w [symmetric])
qed


lemma vlan_ok_upd [simp]:
  "vlan_ok L (dev_log l m ale) = vlan_ok L ale"
  "vlan_ok L (writel v off ale) = vlan_ok L ale"
  "vlan_ok L (ale\<lparr>p0_untag_vid_mask := X\<rparr>) = vlan_ok L ale"
  by (simp_all add: vlan_ok_def ale_ok_def dev_log_def writel_def)

lemma member_bits_upd [simp]:
  "member_bits (dev_log l m ale) = member_bits ale"
  "member_bits (writel v off ale) = member_bits ale"
  "member_bits (ale\<lparr>p0_untag_vid_mask := X\<rparr>) = member_bits ale"
  by (simp_all add: member_bits_def dev_log_def writel_def)

lemma table_upd [simp]:
  "ale_table (dev_log l m ale) = ale_table ale"
  "ale_table (writel v off ale) = ale_table ale"
  "params (dev_log l m ale) = params ale"
  "params (writel v off ale) = params ale"
  "p0_untag_vid_mask (dev_log l m ale) = p0_untag_vid_mask ale"
  "p0_untag_vid_mask (writel v off ale) = p0_untag_vid_mask ale"
  by (simp_all add: dev_log_def writel_def)

lemma vlan_tbl_length:
  assumes "vlan_ok L ale"
  shows "4 \<le> length (vlan_entry_tbl ale)"
    and "nu_switch_ale (params ale) \<Longrightarrow> length (vlan_entry_tbl ale) = 6"
  using assms by (auto simp: vlan_ok_def fld_tbls)

lemma member_untag_pos:
  assumes "vlan_ok L ale"
  shows "fld_pos ale ALE_ENT_VID_MEMBER_LIST = Some (0, member_bits ale)"
    and "fld_pos ale ALE_ENT_VID_FORCE_UNTAGGED_MSK = Some (24, member_bits ale)"
  using assms
  by (auto simp: vlan_ok_def member_bits_def fld_pos_cpsw fld_pos_k3 fld_pos_nu fld_tbls)

lemma member_untag_fld:
  assumes ok: "vlan_ok L ale"
  shows "cpsw_ale_vlan_get_fld L ale e ALE_ENT_VID_MEMBER_LIST = Some (gf e 0 (member_bits ale), ale)"
    and "cpsw_ale_vlan_get_fld L ale e ALE_ENT_VID_FORCE_UNTAGGED_MSK
           = Some (gf e 24 (member_bits ale), ale)"
    and "cpsw_ale_vlan_set_fld L ale e ALE_ENT_VID_MEMBER_LIST v
           = Some (sf e 0 (member_bits ale) v, ale)"
    and "cpsw_ale_vlan_set_fld L ale e ALE_ENT_VID_FORCE_UNTAGGED_MSK v
           = Some (sf e 24 (member_bits ale) v, ale)"
proof -
  note d = vlan_ok_D [OF ok]
  note len = vlan_tbl_length(1) [OF ok]
  have l0: "ALE_ENT_VID_MEMBER_LIST < length (vlan_entry_tbl ale)"
    and l3: "ALE_ENT_VID_FORCE_UNTAGGED_MSK < length (vlan_entry_tbl ale)"
    using len by (auto simp: fld_ids)
  note p = member_untag_pos [OF ok]
  have b0: "\<And>s w. fld_pos ale ALE_ENT_VID_MEMBER_LIST = Some (s, w)
              \<Longrightarrow> 1 \<le> w \<and> w < 32 \<and> s + w \<le> 96"
    and b3: "\<And>s w. fld_pos ale ALE_ENT_VID_FORCE_UNTAGGED_MSK = Some (s, w)
              \<Longrightarrow> 1 \<le> w \<and> w < 32 \<and> s + w \<le> 96"
    using d(5,6) by (auto simp: p)
  have g0: "cpsw_ale_vlan_get_fld L ale e ALE_ENT_VID_MEMBER_LIST =
     Some (case fld_pos ale ALE_ENT_VID_MEMBER_LIST of
             Some (s, w) \<Rightarrow> (gf e s w, ale)
           | None \<Rightarrow> (neg_errno ENOENT, dev_log KERN_ERR ''get: wrong ale fld id %d'' ale))"
    by (rule vlan_get_fld_pos [OF d(2) l0 b0])
  show "cpsw_ale_vlan_get_fld L ale e ALE_ENT_VID_MEMBER_LIST = Some (gf e 0 (member_bits ale), ale)"
    unfolding g0 p by simp
  have g3: "cpsw_ale_vlan_get_fld L ale e ALE_ENT_VID_FORCE_UNTAGGED_MSK =
     Some (case fld_pos ale ALE_ENT_VID_FORCE_UNTAGGED_MSK of
             Some (s, w) \<Rightarrow> (gf e s w, ale)
           | None \<Rightarrow> (neg_errno ENOENT, dev_log KERN_ERR ''get: wrong ale fld id %d'' ale))"
    by (rule vlan_get_fld_pos [OF d(2) l3 b3])
  show "cpsw_ale_vlan_get_fld L ale e ALE_ENT_VID_FORCE_UNTAGGED_MSK
           = Some (gf e 24 (member_bits ale), ale)"
    unfolding g3 p by simp
  have s0: "cpsw_ale_vlan_set_fld L ale e ALE_ENT_VID_MEMBER_LIST v =
     Some (case fld_pos ale ALE_ENT_VID_MEMBER_LIST of
             Some (s, w) \<Rightarrow> (sf e s w v, ale)
           | None \<Rightarrow> (e, dev_log KERN_ERR ''set: wrong ale fld id %d'' ale))"
    by (rule vlan_set_fld_pos [OF d(2) l0 b0])
  show "cpsw_ale_vlan_set_fld L ale e ALE_ENT_VID_MEMBER_LIST v
           = Some (sf e 0 (member_bits ale) v, ale)"
    unfolding s0 p by simp
  have s3: "cpsw_ale_vlan_set_fld L ale e ALE_ENT_VID_FORCE_UNTAGGED_MSK v =
     Some (case fld_pos ale ALE_ENT_VID_FORCE_UNTAGGED_MSK of
             Some (s, w) \<Rightarrow> (sf e s w v, ale)
           | None \<Rightarrow> (e, dev_log KERN_ERR ''set: wrong ale fld id %d'' ale))"
    by (rule vlan_set_fld_pos [OF d(2) l3 b3])
  show "cpsw_ale_vlan_set_fld L ale e ALE_ENT_VID_FORCE_UNTAGGED_MSK v
           = Some (sf e 24 (member_bits ale) v, ale)"
    unfolding s3 p by simp
qed

lemma set_vlan_untag_eq:
  assumes ok: "vlan_ok L ale" and vid: "unat vid < VLAN_N_VID"
  shows "cpsw_ale_set_vlan_untag L ale e vid m =
     Some (sf e 24 (member_bits ale) m,
           ale\<lparr>p0_untag_vid_mask :=
                  (if m AND ALE_PORT_HOST \<noteq> 0 then insert (unat vid) (p0_untag_vid_mask ale)
                   else p0_untag_vid_mask ale - {unat vid})\<rparr>)"
  using vid
  by (simp add: cpsw_ale_set_vlan_untag_def member_untag_fld [OF ok] bitmap_set_def
      bitmap_clear_def)


lemma fld_pos_upd [simp]:
  "fld_pos (dev_log l m ale) f = fld_pos ale f"
  "fld_pos (writel v off ale) f = fld_pos ale f"
  "fld_pos (ale\<lparr>p0_untag_vid_mask := X\<rparr>) f = fld_pos ale f"
  by (simp_all add: fld_pos_def dev_log_def writel_def Let_def)

lemma tbl_upd [simp]:
  "vlan_entry_tbl (dev_log l m ale) = vlan_entry_tbl ale"
  "vlan_entry_tbl (writel v off ale) = vlan_entry_tbl ale"
  by (simp_all add: dev_log_def writel_def)

lemma vlan_fld:
  assumes ok: "vlan_ok L ale" and len: "fld_id < length (vlan_entry_tbl ale)"
  shows "cpsw_ale_vlan_get_fld L ale e fld_id =
     Some (case fld_pos ale fld_id of
             Some (s, w) \<Rightarrow> (gf e s w, ale)
           | None \<Rightarrow> (neg_errno ENOENT, dev_log KERN_ERR ''get: wrong ale fld id %d'' ale))"
    and "cpsw_ale_vlan_set_fld L ale e fld_id v =
     Some (case fld_pos ale fld_id of
             Some (s, w) \<Rightarrow> (sf e s w v, ale)
           | None \<Rightarrow> (e, dev_log KERN_ERR ''set: wrong ale fld id %d'' ale))"
proof -
  note d = vlan_ok_D [OF ok]
  have b: "1 \<le> w \<and> w < 32 \<and> s + w \<le> 96" if "fld_pos ale fld_id = Some (s, w)" for s w
  proof -
    have c: "fld_id = 0 \<or> fld_id = 1 \<or> fld_id = 2 \<or> fld_id = 3 \<or> fld_id = 4 \<or> fld_id = 5"
      using len ok by (auto simp: vlan_ok_def fld_tbls)
    from ok consider "vlan_entry_tbl ale = vlan_entry_cpsw" | "vlan_entry_tbl ale = vlan_entry_k3_cpswxg"
      | "vlan_entry_tbl ale = vlan_entry_nu" by (auto simp: vlan_ok_def)
    then show ?thesis
    proof cases
      case 1
      then show ?thesis using that c by (auto simp: fld_pos_def fld_tbls)
    next
      case 2
      then show ?thesis using that c d(3,4) len by (auto simp: fld_pos_def fld_tbls)
    next
      case 3
      then show ?thesis using that c d(3,4) by (auto simp: fld_pos_def fld_tbls)
    qed
  qed
  show "cpsw_ale_vlan_get_fld L ale e fld_id =
     Some (case fld_pos ale fld_id of
             Some (s, w) \<Rightarrow> (gf e s w, ale)
           | None \<Rightarrow> (neg_errno ENOENT, dev_log KERN_ERR ''get: wrong ale fld id %d'' ale))"
    by (rule vlan_get_fld_pos [OF d(2) len b])
  show "cpsw_ale_vlan_set_fld L ale e fld_id v =
     Some (case fld_pos ale fld_id of
             Some (s, w) \<Rightarrow> (sf e s w v, ale)
           | None \<Rightarrow> (e, dev_log KERN_ERR ''set: wrong ale fld id %d'' ale))"
    by (rule vlan_set_fld_pos [OF d(2) len b])
qed

lemma gf_and_mask: "gf e s b AND mask b = gf e s b"
  by (simp add: gf_def and.assoc)

lemma gf_and_mask2: "(gf e s b AND x) AND mask b = gf e s b AND x"
  by (metis gf_and_mask and.assoc and.commute)

lemma variant_cases:
  assumes "vlan_ok L ale"
  obtains (cpsw) "vlan_entry_tbl ale = vlan_entry_cpsw" "\<not> nu_switch_ale (params ale)"
            "member_bits ale = 3"
  | (k3) "vlan_entry_tbl ale = vlan_entry_k3_cpswxg" "\<not> nu_switch_ale (params ale)"
            "member_bits ale = unat (port_mask_bits ale)"
  | (nu) "vlan_entry_tbl ale = vlan_entry_nu" "nu_switch_ale (params ale)"
            "member_bits ale = unat (port_mask_bits ale)"
  using assms by (auto simp: vlan_ok_def member_bits_def fld_tbls)

lemma fld_in_tbl:
  assumes "vlan_ok L ale"
  shows "ALE_ENT_VID_MEMBER_LIST < length (vlan_entry_tbl ale)"
    "ALE_ENT_VID_UNREG_MCAST_MSK < length (vlan_entry_tbl ale)"
    "ALE_ENT_VID_REG_MCAST_MSK < length (vlan_entry_tbl ale)"
    "ALE_ENT_VID_FORCE_UNTAGGED_MSK < length (vlan_entry_tbl ale)"
    "nu_switch_ale (params ale) \<Longrightarrow> ALE_ENT_VID_UNREG_MCAST_IDX < length (vlan_entry_tbl ale)"
    "nu_switch_ale (params ale) \<Longrightarrow> ALE_ENT_VID_REG_MCAST_IDX < length (vlan_entry_tbl ale)"
  using assms by (auto simp: vlan_ok_def fld_tbls fld_ids)

lemma del_modify_int_post:
  assumes ok: "vlan_ok L ale" and vid: "unat vid < VLAN_N_VID"
    and nz: "gf e 0 (member_bits ale) AND NOT pm \<noteq> 0"
  shows "\<exists>e' ale'. cpsw_ale_vlan_del_modify_int L ale e vid pm = Some (e', ale')
           \<and> ale_table ale' = ale_table ale \<and> params ale' = params ale
           \<and> vlan_ok L ale' \<and> member_bits ale' = member_bits ale
           \<and> gf e' 60 2 = gf e 60 2 \<and> gf e' 48 12 = gf e 48 12
           \<and> gf e' 0 (member_bits ale) = gf e 0 (member_bits ale) AND NOT pm"
proof -
  note d = vlan_ok_D [OF ok]
  from ok show ?thesis
  proof (cases rule: variant_cases)
    case cpsw
    show ?thesis
      using ok vid nz cpsw(2)
      by (simp add: cpsw_ale_vlan_del_modify_int_def member_untag_fld vlan_fld fld_in_tbl
          set_vlan_untag_eq fld_pos_cpsw [OF cpsw(1)] cpsw(3) Let_def
          gf_sf_same gf_sf_other gf_and_mask2)
  next
    case k3
    show ?thesis
      using ok vid nz k3(2) d(3,4)
      by (simp add: cpsw_ale_vlan_del_modify_int_def member_untag_fld vlan_fld fld_in_tbl
          set_vlan_untag_eq fld_pos_k3 [OF k3(1)] k3(3) Let_def
          gf_sf_same gf_sf_other gf_and_mask2)
  next
    case nu
    show ?thesis
      using ok vid nz nu(2) d(3,4)
      by (simp add: cpsw_ale_vlan_del_modify_int_def member_untag_fld vlan_fld fld_in_tbl
          set_vlan_untag_eq fld_pos_nu [OF nu(1)] nu(3) Let_def cpsw_ale_set_vlan_mcast_def
          gf_sf_same gf_sf_other gf_and_mask2)
  qed
qed


lemma and_not_host:
  fixes x pm h :: u32
  assumes "x AND NOT pm \<noteq> 0"
  shows "x AND NOT (pm AND NOT h) \<noteq> 0"
proof
  assume z: "x AND NOT (pm AND NOT h) = 0"
  have "x AND NOT pm = 0"
  proof (rule bit_word_eqI)
    fix n assume "n < LENGTH(32)"
    have "\<not> bit (x AND NOT (pm AND NOT h)) n" using z by simp
    then show "bit (x AND NOT pm) n = bit (0 :: u32) n" by (auto simp: bit_simps)
  qed
  with assms show False by simp
qed

lemma first_index_SomeD:
  assumes "first_index P ale = Some i"
  shows "i < ale_entries (params ale)" "P (ale_table ale i)"
    "\<And>j. j < i \<Longrightarrow> \<not> P (ale_table ale j)"
proof -
  from assms obtain k where k: "k < length [0..<ale_entries (params ale)]"
    "P (ale_table ale ([0..<ale_entries (params ale)] ! k))"
    "i = [0..<ale_entries (params ale)] ! k"
    "\<forall>j<k. \<not> P (ale_table ale ([0..<ale_entries (params ale)] ! j))"
    unfolding first_index_def find_Some_iff by blast
  then have ik: "i = k" by simp
  show "i < ale_entries (params ale)" using k(1) ik by simp
  show "P (ale_table ale i)" using k(1,2) ik by simp
  show "\<not> P (ale_table ale j)" if "j < i" for j
    using k(1,4) that ik by auto
qed

lemma first_index_NoneD:
  assumes "first_index P ale = None" "j < ale_entries (params ale)"
  shows "\<not> P (ale_table ale j)"
  using assms unfolding first_index_def find_None_iff by auto

lemma vlan_ok_table [simp]:
  "vlan_ok L (ale\<lparr>ale_table := t\<rparr>) = vlan_ok L ale"
  "vlan_ok L (cpsw_ale_write ale i e) = vlan_ok L ale"
  "member_bits (cpsw_ale_write ale i e) = member_bits ale"
  "ale_table (cpsw_ale_write ale i e) = (ale_table ale)(i := e)"
  "p0_untag_vid_mask (cpsw_ale_write ale i e) = p0_untag_vid_mask ale"
  "params (cpsw_ale_write ale i e) = params ale"
  by (simp_all add: vlan_ok_def ale_ok_def cpsw_ale_write_def member_bits_def)

lemma del_vlan_absent:
  assumes ok: "vlan_ok L ale" and none: "first_index (vlan_match L vid) ale = None"
  shows "cpsw_ale_del_vlan L ale vid pm = Some (Inl ENOENT, ale)"
  using none
  by (simp add: cpsw_ale_del_vlan_def searches [OF vlan_ok_D(2) [OF ok]] scan_result_def)

lemma del_vlan_free:
  assumes ok: "vlan_ok L ale" and vid: "unat vid < VLAN_N_VID"
    and i: "first_index (vlan_match L vid) ale = Some i"
    and last: "pm = 0 \<or> gf (ale_table ale i) 0 (member_bits ale) AND NOT pm = 0"
  shows "cpsw_ale_del_vlan L ale vid pm =
     Some (Inr (), ale\<lparr>p0_untag_vid_mask := p0_untag_vid_mask ale - {unat vid},
                        ale_table := (ale_table ale)
                          (i := sf (sf (ale_table ale i) 24 (member_bits ale) 0)
                                  60 2 ALE_TYPE_FREE)\<rparr>)"
  using last vid
  by (auto simp: cpsw_ale_del_vlan_def searches [OF vlan_ok_D(2) [OF ok]] scan_result_def i
      Let_def cpsw_ale_read_def member_untag_fld [OF ok] set_vlan_untag_eq [OF ok]
      setters [OF vlan_ok_D(2) [OF ok]] cpsw_ale_write_def)

lemma del_vlan_modify:
  assumes ok: "vlan_ok L ale" and vid: "unat vid < VLAN_N_VID"
    and i: "first_index (vlan_match L vid) ale = Some i"
    and pm: "pm \<noteq> 0" and rest: "gf (ale_table ale i) 0 (member_bits ale) AND NOT pm \<noteq> 0"
  shows "\<exists>e' ale'. cpsw_ale_del_vlan L ale vid pm = Some (Inr (), ale')
           \<and> ale_table ale' = (ale_table ale)(i := e') \<and> params ale' = params ale
           \<and> vlan_ok L ale' \<and> member_bits ale' = member_bits ale
           \<and> gf e' 60 2 = ALE_TYPE_VLAN \<and> gf e' 48 12 = ucast vid
           \<and> gf e' 0 (member_bits ale)
               = gf (ale_table ale i) 0 (member_bits ale) AND NOT (pm AND NOT ALE_PORT_HOST)"
proof -
  note L = vlan_ok_D(2) [OF ok]
  define e0 where "e0 = ale_table ale i"
  have m0: "gf e0 60 2 = ALE_TYPE_VLAN" "gf e0 48 12 = ucast vid"
    using first_index_SomeD(2) [OF i] by (simp_all add: vlan_match_iff [OF L] e0_def)
  have nz: "gf e0 0 (member_bits ale) AND NOT (pm AND NOT ALE_PORT_HOST) \<noteq> 0"
    unfolding e0_def by (rule and_not_host [OF rest])
  from del_modify_int_post [OF ok vid nz]
  obtain e' ale' where r: "cpsw_ale_vlan_del_modify_int L ale e0 vid (pm AND NOT ALE_PORT_HOST)
        = Some (e', ale')"
    and p: "ale_table ale' = ale_table ale" "params ale' = params ale"
      "vlan_ok L ale'" "member_bits ale' = member_bits ale"
      "gf e' 60 2 = gf e0 60 2" "gf e' 48 12 = gf e0 48 12"
      "gf e' 0 (member_bits ale)
         = gf e0 0 (member_bits ale) AND NOT (pm AND NOT ALE_PORT_HOST)"
    by blast
  have "cpsw_ale_del_vlan L ale vid pm = Some (Inr (), cpsw_ale_write ale' i e')"
    using pm rest
    by (simp add: cpsw_ale_del_vlan_def searches [OF L] scan_result_def i Let_def
        cpsw_ale_read_def member_untag_fld [OF ok] e0_def [symmetric] r)
  then show ?thesis using p m0
    by (intro exI [of _ e'] exI [of _ "cpsw_ale_write ale' i e'"])
       (simp add: e0_def)
qed

subsection \<open>Adding a VLAN\<close>

lemma first_index_upd [simp]:
  "first_index P (dev_log l m ale) = first_index P ale"
  "first_index P (writel v off ale) = first_index P ale"
  "first_index P (ale\<lparr>p0_untag_vid_mask := X\<rparr>) = first_index P ale"
  by (simp_all add: first_index_def dev_log_def writel_def)

lemma alloc_from_upd [simp]:
  "alloc_from L (dev_log l m ale) r = alloc_from L ale r"
  "alloc_from L (writel v off ale) r = alloc_from L ale r"
  "alloc_from L (ale\<lparr>p0_untag_vid_mask := X\<rparr>) r = alloc_from L ale r"
  by (simp_all add: alloc_from_def cong: option.case_cong)


subsection \<open>Keys of the entries built, and the table after a write\<close>

lemma ucast_u8_back: "(ucast ((ucast (x :: u8) :: u32) AND mask 8) :: u8) = x"
  by (rule bit_word_eqI) (auto simp: bit_simps dest: bit_imp_le_length)

lemma take_6:
  assumes "6 \<le> length (xs :: 'a list)"
  shows "take 6 xs = [xs ! 0, xs ! 1, xs ! 2, xs ! 3, xs ! 4, xs ! 5]"
proof (rule nth_equalityI)
  show "length (take 6 xs) = length [xs ! 0, xs ! 1, xs ! 2, xs ! 3, xs ! 4, xs ! 5]"
    using assms by simp
next
  fix i assume "i < length (take 6 xs)"
  then have "i < 6" by simp
  then have "i = 0 \<or> i = 1 \<or> i = 2 \<or> i = 3 \<or> i = 4 \<or> i = 5" by arith
  then show "take 6 xs ! i = [xs ! 0, xs ! 1, xs ! 2, xs ! 3, xs ! 4, xs ! 5] ! i"
    using assms by auto
qed

lemma mac_set_mac:
  assumes "6 \<le> length addr"
  shows "mac_of (set_mac e addr) = take 6 addr"
  by (simp add: mac_of_def set_mac_def gf_sf_same gf_sf_other ucast_u8_back take_6 [OF assms])

lemma gf_set_mac:
  assumes "48 \<le> s" "b \<le> 32"
  shows "gf (set_mac e addr) s b = gf e s b"
  using assms by (simp add: set_mac_def gf_sf_other)

lemma mac_sf:
  assumes "48 \<le> s" "1 \<le> b" "b \<le> 32" "s + b \<le> 96"
  shows "mac_of (sf e s b v) = mac_of e"
  using assms by (simp add: mac_of_def gf_sf_other)


lemma ucast_vid_mask:
  assumes "unat (vid :: u16) < 4096"
  shows "(ucast vid :: u32) AND mask 12 = ucast vid"
proof -
  have "unat (ucast vid :: u32) < 2 ^ 12"
    using assms by (simp add: unsigned_ucast_eq take_bit_nat_eq_self)
  then have "(ucast vid :: u32) < 2 ^ 12" by (simp add: word_less_nat_alt)
  then show ?thesis by (simp add: less_mask_eq)
qed

lemma type_and_mask [simp]:
  "ALE_TYPE_FREE AND mask 2 = ALE_TYPE_FREE" "ALE_TYPE_ADDR AND mask 2 = ALE_TYPE_ADDR"
  "ALE_TYPE_VLAN AND mask 2 = ALE_TYPE_VLAN"
  "ALE_TYPE_VLAN_ADDR AND mask 2 = ALE_TYPE_VLAN_ADDR"
  by (simp_all add: ALE_TYPE_FREE_def ALE_TYPE_ADDR_def ALE_TYPE_VLAN_def
      ALE_TYPE_VLAN_ADDR_def mask_eq_exp_minus_1)

lemma typed_entry_fields:
  assumes "flags AND ALE_VLAN \<noteq> 0 \<longrightarrow> unat vid < 4096"
    and "flags AND ALE_VLAN = 0 \<longrightarrow> gf e 48 12 = 0"
  shows "gf (typed_entry e flags vid) 60 2 = ALE_TYPE_ADDR
         \<or> gf (typed_entry e flags vid) 60 2 = ALE_TYPE_VLAN_ADDR"
    and "gf (typed_entry e flags vid) 48 12 = ucast (key_vid flags vid)"
    and "b \<le> 30 \<Longrightarrow> gf (typed_entry e flags vid) 66 b = gf e 66 b"
  using assms
  by (auto simp: typed_entry_def key_vid_def gf_sf_same gf_sf_other ucast_vid_mask)

lemma mcast_entry_key:
  assumes L: "32 \<le> L" and b: "1 \<le> b" "b \<le> 30" and len: "6 \<le> length addr"
    and v: "flags AND ALE_VLAN \<noteq> 0 \<longrightarrow> unat vid < 4096"
    and z: "flags AND ALE_VLAN = 0 \<longrightarrow> gf e0 48 12 = 0"
  shows "key_match L addr (key_vid flags vid) (mcast_entry b e0 addr pm flags vid st)"
  using b typed_entry_fields(1,2) [OF v z]
  by (simp add: key_match_iff [OF L] mcast_entry_def Let_def gf_sf_other mac_sf
      gf_set_mac mac_set_mac [OF len])

lemma mcast_entry_mask:
  assumes b: "1 \<le> b" "b \<le> 30"
  shows "gf (mcast_entry b e0 addr pm flags vid st) 66 b = (pm AND mask b) OR gf e0 66 b"
proof -
  have "gf (mcast_entry b e0 addr pm flags vid st) 66 b = (pm OR gf e0 66 b) AND mask b"
    using b
    by (simp add: mcast_entry_def Let_def gf_sf_same gf_sf_other gf_set_mac
        typed_entry_def)
  then show ?thesis by (simp add: bit.conj_disj_distrib2 gf_and_mask)
qed

lemma ucast_entry_key:
  assumes L: "32 \<le> L" and b: "1 \<le> b" "b \<le> 30" and len: "6 \<le> length addr"
    and v: "flags AND ALE_VLAN \<noteq> 0 \<longrightarrow> unat vid < 4096"
  shows "key_match L addr (key_vid flags vid) (ucast_entry b addr port flags vid)"
proof -
  have z: "flags AND ALE_VLAN = 0 \<longrightarrow> gf (0, 0, 0) 48 12 = 0" by (simp add: gf_def)
  show ?thesis
    using b typed_entry_fields(1,2) [OF v z]
    by (simp add: key_match_iff [OF L] ucast_entry_def gf_sf_other mac_sf
        gf_set_mac mac_set_mac [OF len])
qed


lemma first_index_Some_iff:
  "first_index P ale = Some i \<longleftrightarrow>
     i < ale_entries (params ale) \<and> P (ale_table ale i)
     \<and> (\<forall>j<i. \<not> P (ale_table ale j))"
proof
  assume "first_index P ale = Some i"
  from first_index_SomeD [OF this] show "i < ale_entries (params ale) \<and> P (ale_table ale i)
     \<and> (\<forall>j<i. \<not> P (ale_table ale j))" by blast
next
  assume a: "i < ale_entries (params ale) \<and> P (ale_table ale i)
     \<and> (\<forall>j<i. \<not> P (ale_table ale j))"
  have "\<exists>k<length [0..<ale_entries (params ale)].
      P (ale_table ale ([0..<ale_entries (params ale)] ! k))
      \<and> i = [0..<ale_entries (params ale)] ! k
      \<and> (\<forall>j<k. \<not> P (ale_table ale ([0..<ale_entries (params ale)] ! j)))"
    using a by (intro exI [of _ i]) simp
  then show "first_index P ale = Some i"
    unfolding first_index_def find_Some_iff by blast
qed

lemma first_index_None_iff:
  "first_index P ale = None \<longleftrightarrow> (\<forall>j<ale_entries (params ale). \<not> P (ale_table ale j))"
  by (auto simp: first_index_def find_None_iff)

lemma first_index_write_new:
  assumes "first_index P ale = None" "t < ale_entries (params ale)" "P e"
  shows "first_index P (cpsw_ale_write ale t e) = Some t"
  using assms by (simp add: first_index_Some_iff first_index_None_iff)

lemma first_index_write_same:
  assumes "first_index P ale = Some t" "P e"
  shows "first_index P (cpsw_ale_write ale t e) = Some t"
  using assms by (simp add: first_index_Some_iff)






lemma del_mcast_eq:
  assumes ok: "ale_ok L ale" and len: "6 \<le> length addr"
  shows "cpsw_ale_del_mcast L ale addr pm flags vid =
     Some (case first_index (key_match L addr (key_vid flags vid)) ale of
             None \<Rightarrow> (Inl ENOENT, ale)
           | Some i \<Rightarrow>
               (Inr (), cpsw_ale_write ale i
                  (if pm \<noteq> 0
                      \<and> gf (ale_table ale i) 66 (unat (port_mask_bits ale)) AND NOT pm \<noteq> 0
                   then sf (ale_table ale i) 66 (unat (port_mask_bits ale))
                          (gf (ale_table ale i) 66 (unat (port_mask_bits ale)) AND NOT pm)
                   else sf (ale_table ale i) 60 2 ALE_TYPE_FREE)))"
proof -
  note L = ale_ok_L [OF ok]
  show ?thesis
    by (simp add: cpsw_ale_del_mcast_def searches(4) [OF L len] scan_result_def
      setters [OF L] port_accessors [OF ok] cpsw_ale_read_def Let_def split: option.splits)
qed

lemma vid_bound:
  assumes "gf e 48 12 = ucast (vid :: u16)"
  shows "unat vid < VLAN_N_VID"
proof -
  have "(ucast vid :: u32) AND mask 12 = ucast vid"
    using gf_and_mask [of e 48 12] assms by simp
  then have "(ucast vid :: u32) \<le> mask 12" by (metis word_and_le1)
  then have "unat (ucast vid :: u32) \<le> unat (mask 12 :: u32)" by (simp add: word_le_nat_alt)
  moreover have "unat vid < 2 ^ 16" using unsigned_less [of vid, where ?'a = nat] by simp
  then have "unat vid < 2 ^ 32" by simp
  then have "unat (ucast vid :: u32) = unat vid"
    by (simp add: unsigned_ucast_eq take_bit_nat_eq_self)
  ultimately show ?thesis by (simp add: VLAN_N_VID_def mask_eq_exp_minus_1)
qed


lemma ale_ok_write [simp]:
  "ale_ok L (cpsw_ale_write ale i e) = ale_ok L ale"
  "port_mask_bits (cpsw_ale_write ale i e) = port_mask_bits ale"
  by (simp_all add: ale_ok_def cpsw_ale_write_def)

lemma spec_alloc_bound:
  assumes "spec_alloc L ale key = Some t"
  shows "t < ale_entries (params ale)"
  using assms first_index_SomeD(1)
  by (auto simp: spec_alloc_def split: option.splits)

lemma small_and_mask:
  assumes "x < 2 ^ b"
  shows "(of_nat x :: u32) AND mask b = of_nat x"
proof -
  have "take_bit b (of_nat x :: u32) = of_nat (take_bit b x)" by (simp add: of_nat_take_bit)
  also have "\<dots> = of_nat x" using assms by (simp add: take_bit_nat_eq_self)
  finally show ?thesis by (simp add: take_bit_eq_mask)
qed

lemma one_two_mask:
  assumes "2 \<le> b"
  shows "(1 :: u32) AND mask b = 1" "(2 :: u32) AND mask b = 2"
proof -
  have "(2 :: nat) ^ 2 \<le> 2 ^ b" using assms by (intro power_increasing) simp_all
  then have "(1 :: nat) < 2 ^ b" "(2 :: nat) < 2 ^ b" by simp_all
  from small_and_mask [OF this(1)] small_and_mask [OF this(2)]
  show "(1 :: u32) AND mask b = 1" "(2 :: u32) AND mask b = 2" by simp_all
qed

lemma gf_zero [simp]: "gf (0, 0, 0) s b = 0"
  by (simp add: gf_def)

section \<open>The claims\<close>

text \<open>
  Claim C2, as amended.  For every entry, every field that is between 1 and 32
  bits wide, narrower than \<^verbatim>\<open>unsigned long\<close> and inside the 96 bits of the
  entry (fields straddling a word boundary included), and every 32-bit value:
  \<^verbatim>\<open>cpsw_ale_set_field\<close> returns, and \<^verbatim>\<open>cpsw_ale_get_field\<close> on its result
  returns the value masked to the low \<open>bits\<close> bits; a value that does not fit
  is truncated and no error is raised.
\<close>

theorem field_round_trip:
  assumes "1 \<le> unat bits" and "unat bits \<le> 32" and "unat bits < L"
    and "unat start + unat bits \<le> 96"
  shows "\<exists>e'. cpsw_ale_set_field L e start bits v = Some e'
            \<and> cpsw_ale_get_field L e' start bits = Some (v AND mask (unat bits))"
proof -
  have vf: "valid_field L start bits" using assms by (simp add: valid_field_def)
  show ?thesis
    using assms by (simp add: set_field_sf [OF vf] get_field_gf [OF vf] gf_sf_same)
qed

text \<open>
  An instance of C2: the 8-bit field at bit 28, which straddles words 2 and 1,
  written with a 9-bit value.
\<close>

theorem field_round_trip_witness:
  "1 \<le> unat (8 :: u32) \<and> unat (8 :: u32) \<le> 32 \<and> unat (8 :: u32) < 64
   \<and> unat (28 :: u32) + unat (8 :: u32) \<le> 96
   \<and> (\<exists>e'. cpsw_ale_set_field 64 (0x11111111, 0x22222222, 0x33333333) 28 8 0x1AB = Some e'
          \<and> cpsw_ale_get_field 64 e' 28 8 = Some 0xAB)"
  using field_round_trip [of 8 64 28 "(0x11111111, 0x22222222, 0x33333333)" "0x1AB"]
  by (simp add: mask_eq_exp_minus_1)

text \<open>
  Claim C2 as it is stated covers every \<open>start\<close> and \<open>width\<close> with
  \<open>start + width \<le> 96\<close>.  That fails: for \<open>start = 0\<close> and \<open>width = 0\<close> the
  index \<open>idx2 = (0 + 0 - 1) / 32\<close> wraps to 134217727 and the word written is
  \<^verbatim>\<open>ale_entry[2 - 134217727]\<close>, outside the array; for \<open>start = 0\<close> and
  \<open>width = 48\<close> the 32-bit value is shifted right by 32; and where
  \<^verbatim>\<open>unsigned long\<close> has 32 bits, \<open>width = 32\<close> makes \<^verbatim>\<open>BIT(32)\<close> shift by the
  width of its type.  None of the three runs is defined.
\<close>

theorem field_round_trip_counterexample:
  "cpsw_ale_set_field 64 (0, 0, 0) 0 0 0 = None
   \<and> cpsw_ale_set_field 64 (0, 0, 0) 0 48 0 = None
   \<and> cpsw_ale_set_field 32 (0, 0, 0) 0 32 0 = None"
  by (simp add: cpsw_ale_set_field_def BITMASK_def shl32_def shr32_def Let_def)



text \<open>
  Claim C7.  For every port of the switch, \<^verbatim>\<open>cpsw_ale_rx_ratelimit_mc\<close> with
  1500 pps succeeds, logs the rounding at level info, and leaves the multicast
  limit control of the port reading 1; with a nonzero rate below 1000 pps it
  fails with \<open>EINVAL\<close>, having logged an error and written no register; with
  0 pps it succeeds and leaves the control reading 0.
\<close>

theorem rx_ratelimit_mc_rounding:
  assumes "limit_controls_loaded ale" and "8 < L"
    and "0 \<le> port" and "port < int (ale_ports (params ale))"
  shows
    "(\<exists>ale'. cpsw_ale_rx_ratelimit_mc L ale port 1500 = Some (Inr (), ale')
        \<and> cpsw_ale_control_get L ale' port ALE_PORT_MCAST_LIMIT = Some (Inr 1)
        \<and> klog ale' = klog ale
              @ [(KERN_INFO, ''ALE port:%d MC ratelimit set to %dpps (requested %d)''),
                 (KERN_DEBUG, ''ALE port:%d MC ratelimit set %d'')])
     \<and> (\<forall>pps. pps \<noteq> 0 \<and> pps < 1000 \<longrightarrow>
          cpsw_ale_rx_ratelimit_mc L ale port pps
            = Some (Inl EINVAL,
                    ale\<lparr>klog := klog ale
                           @ [(KERN_ERR, ''ALE MC port:%d ratelimit min value 1000pps'')]\<rparr>))
     \<and> (\<exists>ale'. cpsw_ale_rx_ratelimit_mc L ale port 0 = Some (Inr (), ale')
        \<and> cpsw_ale_control_get L ale' port ALE_PORT_MCAST_LIMIT = Some (Inr 0)
        \<and> klog ale' = klog ale @ [(KERN_DEBUG, ''ALE port:%d MC ratelimit set %d'')])"
proof -
  note mc = disjI1 [of "(ALE_PORT_MCAST_LIMIT, 16 :: nat) = (ALE_PORT_MCAST_LIMIT, 16)"
      "(ALE_PORT_MCAST_LIMIT, 16 :: nat) = (ALE_PORT_BCAST_LIMIT, 24)", OF refl]
  have rb: "\<And>x v :: u32. v AND NOT (mask 8) = 0 \<Longrightarrow>
      drop_bit 16 ((x AND NOT (push_bit 16 (mask 8))) OR push_bit 16 v) AND mask 8 = v"
    by (rule reg_field_read_back) simp_all
  have one: "(1 :: u32) AND NOT (mask 8) = 0" by (simp add: mask_eq_exp_minus_1)
  have zero: "(0 :: u32) AND NOT (mask 8) = 0" by simp
  have get: "cpsw_ale_control_get L ale' port ALE_PORT_MCAST_LIMIT
               = Some (Inr (drop_bit 16 (ale_regs ale' (ALE_PORTCTL + port * 4)) AND mask 8))"
    if "limit_controls_loaded ale'" "params ale' = params ale" for ale'
    using limit_get [OF that(1) assms(2) mc, of port] assms(3,4) that(2) by simp
  define a1 where "a1 = dev_log KERN_DEBUG ''ALE port:%d MC ratelimit set %d''
    ((dev_log KERN_INFO ''ALE port:%d MC ratelimit set to %dpps (requested %d)'' ale)
       \<lparr>ale_regs := (ale_regs ale)
          (ALE_PORTCTL + port * 4 :=
             (ale_regs ale (ALE_PORTCTL + port * 4) AND NOT (push_bit 16 (mask 8)))
             OR push_bit 16 1)\<rparr>)"
  have r1: "cpsw_ale_rx_ratelimit_mc L ale port 1500 = Some (Inr (), a1)"
    using assms(3,4) one
    by (simp add: rx_ratelimit_mc_eq [OF assms(1,2)] a1_def dev_log_def)
  have g1: "cpsw_ale_control_get L a1 port ALE_PORT_MCAST_LIMIT = Some (Inr 1)"
    using get [of a1] assms(1) rb [OF one]
    by (simp add: a1_def dev_log_def limit_controls_loaded_def)
  have k1: "klog a1 = klog ale
              @ [(KERN_INFO, ''ALE port:%d MC ratelimit set to %dpps (requested %d)''),
                 (KERN_DEBUG, ''ALE port:%d MC ratelimit set %d'')]"
    by (simp add: a1_def dev_log_def)
  have b: "cpsw_ale_rx_ratelimit_mc L ale port pps
            = Some (Inl EINVAL,
                    ale\<lparr>klog := klog ale
                           @ [(KERN_ERR, ''ALE MC port:%d ratelimit min value 1000pps'')]\<rparr>)"
    if "pps \<noteq> 0 \<and> pps < 1000" for pps
    using that by (simp add: rx_ratelimit_mc_eq [OF assms(1,2)] dev_log_def)
  define a0 where "a0 = dev_log KERN_DEBUG ''ALE port:%d MC ratelimit set %d''
    (ale\<lparr>ale_regs := (ale_regs ale)
          (ALE_PORTCTL + port * 4 :=
             (ale_regs ale (ALE_PORTCTL + port * 4) AND NOT (push_bit 16 (mask 8)))
             OR push_bit 16 0)\<rparr>)"
  have r0: "cpsw_ale_rx_ratelimit_mc L ale port 0 = Some (Inr (), a0)"
    using assms(3,4)
    by (simp add: rx_ratelimit_mc_eq [OF assms(1,2)] a0_def dev_log_def)
  have g0: "cpsw_ale_control_get L a0 port ALE_PORT_MCAST_LIMIT = Some (Inr 0)"
    using get [of a0] assms(1) rb [OF zero]
    by (simp add: a0_def dev_log_def limit_controls_loaded_def)
  have k0: "klog a0 = klog ale @ [(KERN_DEBUG, ''ALE port:%d MC ratelimit set %d'')]"
    by (simp add: a0_def dev_log_def)
  show ?thesis using r1 g1 k1 b r0 g0 k0 by blast
qed

text \<open>
  An instance of C7: port 1 of a three-port switch, at 1500, 500 and 0 pps.
\<close>

theorem rx_ratelimit_mc_rounding_witness:
  "limit_controls_loaded (example_ale (\<lambda>_. (0, 0, 0)) 0) \<and> (8 :: nat) < 64
   \<and> (0 :: int) \<le> 1 \<and> (1 :: int) < int (ale_ports (params (example_ale (\<lambda>_. (0, 0, 0)) 0)))
   \<and> (\<exists>ale'. cpsw_ale_rx_ratelimit_mc 64 (example_ale (\<lambda>_. (0, 0, 0)) 0) 1 1500
                 = Some (Inr (), ale')
          \<and> cpsw_ale_control_get 64 ale' 1 ALE_PORT_MCAST_LIMIT = Some (Inr 1))
   \<and> cpsw_ale_rx_ratelimit_mc 64 (example_ale (\<lambda>_. (0, 0, 0)) 0) 1 500
        = Some (Inl EINVAL,
                (example_ale (\<lambda>_. (0, 0, 0)) 0)
                  \<lparr>klog := [(KERN_ERR, ''ALE MC port:%d ratelimit min value 1000pps'')]\<rparr>)
   \<and> (\<exists>ale'. cpsw_ale_rx_ratelimit_mc 64 (example_ale (\<lambda>_. (0, 0, 0)) 0) 1 0
                 = Some (Inr (), ale')
          \<and> cpsw_ale_control_get 64 ale' 1 ALE_PORT_MCAST_LIMIT = Some (Inr 0))"
proof -
  let ?ale = "example_ale (\<lambda>_. (0, 0, 0)) 0"
  have h: "limit_controls_loaded ?ale" "(8 :: nat) < 64" "(0 :: int) \<le> 1"
    "(1 :: int) < int (ale_ports (params ?ale))"
    by (simp_all add: limit_controls_loaded_def example_ale_def ale_controls_init_def
        ALE_NUM_CONTROLS_def ALE_PORT_MCAST_LIMIT_def ALE_PORT_BCAST_LIMIT_def)
  have k: "klog ?ale = []" by (simp add: example_ale_def)
  have p: "(500 :: u32) \<noteq> 0 \<and> (500 :: u32) < 1000" by simp
  from rx_ratelimit_mc_rounding [OF h] p k h show ?thesis by fastforce
qed

text \<open>
  Claim C8.  For a control of the table, with \<open>info\<close> its descriptor:
  when both per-port strides are zero the port argument is ignored and every
  port value gives what port 0 gives; for a per-port control a port outside
  \<open>[0, ale_ports)\<close> makes set and get fail with \<open>EINVAL\<close>; a value with a
  bit above the declared width makes set fail with \<open>EINVAL\<close>; otherwise set
  replaces the \<open>info_bits\<close> bits at \<open>shift\<close> of the register at
  \<open>info_offset + port * info_port_offset\<close> and changes nothing else, and get
  returns those bits; get has no width check.  The handle has at least one port.
\<close>

theorem control_set_get:
  assumes ctl: "0 \<le> control" "control < int (length (ale_controls ale))"
    and info: "info = ale_controls ale ! nat control"
    and ports: "0 < ale_ports (params ale)"
    and bits: "0 \<le> info_bits info" "info_bits info < int L"
    and glob: "glob \<longleftrightarrow> info_port_offset info = 0 \<and> info_port_shift info = 0"
    and p: "p = (if glob then 0 else port)"
    and off: "offset = info_offset info + p * info_port_offset info"
    and sh: "shift = info_shift info + p * info_port_shift info"
  shows
    "(glob \<longrightarrow>
        cpsw_ale_control_set L ale port control v = cpsw_ale_control_set L ale 0 control v
        \<and> cpsw_ale_control_get L ale port control = cpsw_ale_control_get L ale 0 control)
     \<and> (\<not> glob \<and> (port < 0 \<or> int (ale_ports (params ale)) \<le> port) \<longrightarrow>
        cpsw_ale_control_set L ale port control v = Some (Inl EINVAL, ale)
        \<and> cpsw_ale_control_get L ale port control = Some (Inl EINVAL))
     \<and> ((glob \<or> 0 \<le> port \<and> port < int (ale_ports (params ale)))
          \<and> v AND NOT (mask (nat (info_bits info))) \<noteq> 0 \<longrightarrow>
        cpsw_ale_control_set L ale port control v = Some (Inl EINVAL, ale))
     \<and> ((glob \<or> 0 \<le> port \<and> port < int (ale_ports (params ale)))
          \<and> v AND NOT (mask (nat (info_bits info))) = 0 \<and> 0 \<le> shift \<and> shift < 32 \<longrightarrow>
        cpsw_ale_control_set L ale port control v =
          Some (Inr (), ale\<lparr>ale_regs := (ale_regs ale)
                  (offset := (ale_regs ale offset
                                AND NOT (push_bit (nat shift) (mask (nat (info_bits info)))))
                             OR push_bit (nat shift) v)\<rparr>))
     \<and> ((glob \<or> 0 \<le> port \<and> port < int (ale_ports (params ale)))
          \<and> 0 \<le> shift \<and> shift < 32 \<longrightarrow>
        cpsw_ale_control_get L ale port control =
          Some (Inr (drop_bit (nat shift) (ale_regs ale offset) AND mask (nat (info_bits info)))))"
proof -
  have c: "\<not> (control < 0 \<or> int (length (ale_controls ale)) \<le> control)" using ctl by simp
  have m: "BITMASK L (info_bits info) = Some (mask (nat (info_bits info)))"
    using bits by (simp add: BITMASK_int)
  note defs = cpsw_ale_control_set_def cpsw_ale_control_get_def Let_def info [symmetric]
    readl_def writel_def
  show ?thesis
  proof (cases glob)
    case True
    then have z: "info_port_offset info = 0" "info_port_shift info = 0" using glob by simp_all
    have p0: "p = 0" using True p by simp
    have s: "cpsw_ale_control_set L ale port control v = cpsw_ale_control_set L ale 0 control v"
      and g: "cpsw_ale_control_get L ale port control = cpsw_ale_control_get L ale 0 control"
      using c by (simp_all add: defs z)
    have s0: "v AND NOT (mask (nat (info_bits info))) \<noteq> 0 \<Longrightarrow>
        cpsw_ale_control_set L ale 0 control v = Some (Inl EINVAL, ale)"
      using c ports by (simp add: defs z m)
    have s1: "v AND NOT (mask (nat (info_bits info))) = 0 \<Longrightarrow> 0 \<le> shift \<Longrightarrow> shift < 32 \<Longrightarrow>
        cpsw_ale_control_set L ale 0 control v =
          Some (Inr (), ale\<lparr>ale_regs := (ale_regs ale)
                  (offset := (ale_regs ale offset
                                AND NOT (push_bit (nat shift) (mask (nat (info_bits info)))))
                             OR push_bit (nat shift) v)\<rparr>)"
      using c ports by (simp add: defs z m p0 off sh shl32_int)
    have g1: "0 \<le> shift \<Longrightarrow> shift < 32 \<Longrightarrow>
        cpsw_ale_control_get L ale 0 control =
          Some (Inr (drop_bit (nat shift) (ale_regs ale offset) AND mask (nat (info_bits info))))"
      using c ports by (simp add: defs z m p0 off sh shr32_int)
    show ?thesis using True s g s0 s1 g1 by simp
  next
    case False
    then have nz: "\<not> (info_port_offset info = 0 \<and> info_port_shift info = 0)"
      using glob by simp
    have pp: "p = port" using False p by simp
    have e: "port < 0 \<or> int (ale_ports (params ale)) \<le> port \<Longrightarrow>
        cpsw_ale_control_set L ale port control v = Some (Inl EINVAL, ale)
        \<and> cpsw_ale_control_get L ale port control = Some (Inl EINVAL)"
      using c nz by (auto simp: defs)
    have s0: "0 \<le> port \<Longrightarrow> port < int (ale_ports (params ale)) \<Longrightarrow>
        v AND NOT (mask (nat (info_bits info))) \<noteq> 0 \<Longrightarrow>
        cpsw_ale_control_set L ale port control v = Some (Inl EINVAL, ale)"
      using c nz by (auto simp: defs m)
    have s1: "0 \<le> port \<Longrightarrow> port < int (ale_ports (params ale)) \<Longrightarrow>
        v AND NOT (mask (nat (info_bits info))) = 0 \<Longrightarrow> 0 \<le> shift \<Longrightarrow> shift < 32 \<Longrightarrow>
        cpsw_ale_control_set L ale port control v =
          Some (Inr (), ale\<lparr>ale_regs := (ale_regs ale)
                  (offset := (ale_regs ale offset
                                AND NOT (push_bit (nat shift) (mask (nat (info_bits info)))))
                             OR push_bit (nat shift) v)\<rparr>)"
      using c nz by (auto simp: defs m pp off sh shl32_int)
    have g1: "0 \<le> port \<Longrightarrow> port < int (ale_ports (params ale)) \<Longrightarrow>
        0 \<le> shift \<Longrightarrow> shift < 32 \<Longrightarrow>
        cpsw_ale_control_get L ale port control =
          Some (Inr (drop_bit (nat shift) (ale_regs ale offset) AND mask (nat (info_bits info))))"
      using c nz by (auto simp: defs m pp off sh shr32_int)
    show ?thesis using False e s0 s1 g1 by blast
  qed
qed

text \<open>
  Instances of C8 on a three-port switch: the global control \<^verbatim>\<open>ALE_ENABLE\<close>
  with port 7, and the per-port control \<^verbatim>\<open>ALE_PORT_STATE\<close> with port 3 (out of
  range), with port 2 and the 3-bit value 4, and with port 2 and value 3.
\<close>

theorem control_set_get_witness:
  "cpsw_ale_control_set 64 (example_ale (\<lambda>_. (0, 0, 0)) 0) 7 ALE_ENABLE 1
     = cpsw_ale_control_set 64 (example_ale (\<lambda>_. (0, 0, 0)) 0) 0 ALE_ENABLE 1
   \<and> cpsw_ale_control_set 64 (example_ale (\<lambda>_. (0, 0, 0)) 0) 7 ALE_ENABLE 1
     = Some (Inr (), (example_ale (\<lambda>_. (0, 0, 0)) 0)
               \<lparr>ale_regs := (\<lambda>_. 0)(ALE_CONTROL := 0x80000000)\<rparr>)
   \<and> cpsw_ale_control_set 64 (example_ale (\<lambda>_. (0, 0, 0)) 0) 3 ALE_PORT_STATE 1
     = Some (Inl EINVAL, example_ale (\<lambda>_. (0, 0, 0)) 0)
   \<and> cpsw_ale_control_get 64 (example_ale (\<lambda>_. (0, 0, 0)) 0) 3 ALE_PORT_STATE
     = Some (Inl EINVAL)
   \<and> cpsw_ale_control_set 64 (example_ale (\<lambda>_. (0, 0, 0)) 0) 2 ALE_PORT_STATE 4
     = Some (Inl EINVAL, example_ale (\<lambda>_. (0, 0, 0)) 0)
   \<and> cpsw_ale_control_set 64 (example_ale (\<lambda>_. (0, 0, 0)) 0) 2 ALE_PORT_STATE 3
     = Some (Inr (), (example_ale (\<lambda>_. (0, 0, 0)) 0)
               \<lparr>ale_regs := (\<lambda>_. 0)(0x48 := 3)\<rparr>)
   \<and> cpsw_ale_control_get 64 (example_ale (\<lambda>_. (0, 0, 0)) 0) 2 ALE_PORT_STATE
     = Some (Inr 0)"
proof -
  let ?ale = "example_ale (\<lambda>_. (0, 0, 0)) 0"
  note ex = example_ale_def ale_controls_init_def control_info_def ALE_ENABLE_def
    ALE_PORT_STATE_def ALE_CONTROL_def ALE_PORTCTL_def
  have g: "0 \<le> ALE_ENABLE" "ALE_ENABLE < int (length (ale_controls ?ale))"
    "control_info ''enable'' ALE_CONTROL 0 31 0 1 = ale_controls ?ale ! nat ALE_ENABLE"
    "0 < ale_ports (params ?ale)"
    "0 \<le> info_bits (control_info ''enable'' ALE_CONTROL 0 31 0 1)"
    "info_bits (control_info ''enable'' ALE_CONTROL 0 31 0 1) < int 64"
    "True \<longleftrightarrow> info_port_offset (control_info ''enable'' ALE_CONTROL 0 31 0 1) = 0
             \<and> info_port_shift (control_info ''enable'' ALE_CONTROL 0 31 0 1) = 0"
    by (simp_all add: ex)
  have gp: "(0 :: int) = (if True then 0 else 7)"
    "ALE_CONTROL = info_offset (control_info ''enable'' ALE_CONTROL 0 31 0 1)
        + 0 * info_port_offset (control_info ''enable'' ALE_CONTROL 0 31 0 1)"
    "(31 :: int) = info_shift (control_info ''enable'' ALE_CONTROL 0 31 0 1)
        + 0 * info_port_shift (control_info ''enable'' ALE_CONTROL 0 31 0 1)"
    by (simp_all add: ex)
  note G = control_set_get [OF g gp, of 1]
  have s: "0 \<le> ALE_PORT_STATE" "ALE_PORT_STATE < int (length (ale_controls ?ale))"
    "control_info ''port_state'' ALE_PORTCTL 4 0 0 2 = ale_controls ?ale ! nat ALE_PORT_STATE"
    "0 < ale_ports (params ?ale)"
    "0 \<le> info_bits (control_info ''port_state'' ALE_PORTCTL 4 0 0 2)"
    "info_bits (control_info ''port_state'' ALE_PORTCTL 4 0 0 2) < int 64"
    "False \<longleftrightarrow> info_port_offset (control_info ''port_state'' ALE_PORTCTL 4 0 0 2) = 0
             \<and> info_port_shift (control_info ''port_state'' ALE_PORTCTL 4 0 0 2) = 0"
    by (simp_all add: ex)
  have sp3: "(3 :: int) = (if False then 0 else 3)"
    "(0x4c :: int) = info_offset (control_info ''port_state'' ALE_PORTCTL 4 0 0 2)
        + 3 * info_port_offset (control_info ''port_state'' ALE_PORTCTL 4 0 0 2)"
    "(0 :: int) = info_shift (control_info ''port_state'' ALE_PORTCTL 4 0 0 2)
        + 3 * info_port_shift (control_info ''port_state'' ALE_PORTCTL 4 0 0 2)"
    by (simp_all add: ex)
  have sp2: "(2 :: int) = (if False then 0 else 2)"
    "(0x48 :: int) = info_offset (control_info ''port_state'' ALE_PORTCTL 4 0 0 2)
        + 2 * info_port_offset (control_info ''port_state'' ALE_PORTCTL 4 0 0 2)"
    "(0 :: int) = info_shift (control_info ''port_state'' ALE_PORTCTL 4 0 0 2)
        + 2 * info_port_shift (control_info ''port_state'' ALE_PORTCTL 4 0 0 2)"
    by (simp_all add: ex)
  note S3 = control_set_get [OF s sp3, of 1]
  note S24 = control_set_get [OF s sp2, of 4]
  note S23 = control_set_get [OF s sp2, of 3]
  have r: "ale_regs ?ale = (\<lambda>_. 0)" "ale_ports (params ?ale) = 3" by (simp_all add: ex)
  have b: "info_bits (control_info ''enable'' ALE_CONTROL 0 31 0 1) = 1"
    "info_bits (control_info ''port_state'' ALE_PORTCTL 4 0 0 2) = 2"
    by (simp_all add: ex)
  have c1: "cpsw_ale_control_set 64 ?ale 7 ALE_ENABLE 1 = cpsw_ale_control_set 64 ?ale 0 ALE_ENABLE 1"
    using G by simp
  have c2: "cpsw_ale_control_set 64 ?ale 7 ALE_ENABLE 1
     = Some (Inr (), ?ale\<lparr>ale_regs := (\<lambda>_. 0)(ALE_CONTROL := 0x80000000)\<rparr>)"
    using G by (auto simp: r b mask_eq_exp_minus_1)
  have c3: "cpsw_ale_control_set 64 ?ale 3 ALE_PORT_STATE 1 = Some (Inl EINVAL, ?ale)"
    "cpsw_ale_control_get 64 ?ale 3 ALE_PORT_STATE = Some (Inl EINVAL)"
    using S3 by (simp_all add: r)
  have c4: "cpsw_ale_control_set 64 ?ale 2 ALE_PORT_STATE 4 = Some (Inl EINVAL, ?ale)"
    using S24 by (simp add: r b mask_eq_exp_minus_1)
  have c5: "cpsw_ale_control_set 64 ?ale 2 ALE_PORT_STATE 3
     = Some (Inr (), ?ale\<lparr>ale_regs := (\<lambda>_. 0)(0x48 := 3)\<rparr>)"
    "cpsw_ale_control_get 64 ?ale 2 ALE_PORT_STATE = Some (Inr 0)"
    using S23 by (simp_all add: r b mask_eq_exp_minus_1)
  show ?thesis using c1 c2 c3 c4 c5 by simp
qed




text \<open>
  Claim C10.  \<^verbatim>\<open>cpsw_ale_rx_ratelimit_mc\<close> and \<^verbatim>\<open>cpsw_ale_rx_ratelimit_bc\<close>
  return success for every rate that is zero or at least 1000 pps, whatever the
  port; when the port is outside \<open>[0, ale_ports)\<close> (for which
  \<^verbatim>\<open>cpsw_ale_control_set\<close> on either limit control fails with \<open>EINVAL\<close>), or the
  rate divided by 1000 does not fit the 8-bit control, no register is written.
\<close>

theorem rx_ratelimit_result_discarded:
  assumes "limit_controls_loaded ale" and "8 < L"
  shows
    "((pps = 0 \<or> 1000 \<le> pps) \<longrightarrow>
        (\<exists>ale'. cpsw_ale_rx_ratelimit_mc L ale port pps = Some (Inr (), ale')
           \<and> (port < 0 \<or> int (ale_ports (params ale)) \<le> port
                  \<or> (pps div 1000) AND NOT (mask 8) \<noteq> 0 \<longrightarrow>
                ale_regs ale' = ale_regs ale))
        \<and> (\<exists>ale'. cpsw_ale_rx_ratelimit_bc L ale port pps = Some (Inr (), ale')
           \<and> (port < 0 \<or> int (ale_ports (params ale)) \<le> port
                  \<or> (pps div 1000) AND NOT (mask 8) \<noteq> 0 \<longrightarrow>
                ale_regs ale' = ale_regs ale)))
     \<and> (port < 0 \<or> int (ale_ports (params ale)) \<le> port \<longrightarrow>
        cpsw_ale_control_set L ale port ALE_PORT_MCAST_LIMIT v = Some (Inl EINVAL, ale)
        \<and> cpsw_ale_control_set L ale port ALE_PORT_BCAST_LIMIT v = Some (Inl EINVAL, ale))"
proof -
  note mc = disjI1 [of "(ALE_PORT_MCAST_LIMIT, 16 :: nat) = (ALE_PORT_MCAST_LIMIT, 16)"
      "(ALE_PORT_MCAST_LIMIT, 16 :: nat) = (ALE_PORT_BCAST_LIMIT, 24)", OF refl]
  note bc = disjI2 [of "(ALE_PORT_BCAST_LIMIT, 24 :: nat) = (ALE_PORT_BCAST_LIMIT, 24)"
      "(ALE_PORT_BCAST_LIMIT, 24 :: nat) = (ALE_PORT_MCAST_LIMIT, 16)", OF refl]
  have ge: "\<not> (pps \<noteq> 0 \<and> pps < 1000)" if "pps = 0 \<or> 1000 \<le> pps"
    using that by auto
  have m: "\<exists>ale'. cpsw_ale_rx_ratelimit_mc L ale port pps = Some (Inr (), ale')
           \<and> (port < 0 \<or> int (ale_ports (params ale)) \<le> port
                  \<or> (pps div 1000) AND NOT (mask 8) \<noteq> 0 \<longrightarrow>
                ale_regs ale' = ale_regs ale)"
    if "pps = 0 \<or> 1000 \<le> pps"
    using ge [OF that]
    by (auto simp: rx_ratelimit_mc_eq [OF assms] Let_def dev_log_def)
  have b: "\<exists>ale'. cpsw_ale_rx_ratelimit_bc L ale port pps = Some (Inr (), ale')
           \<and> (port < 0 \<or> int (ale_ports (params ale)) \<le> port
                  \<or> (pps div 1000) AND NOT (mask 8) \<noteq> 0 \<longrightarrow>
                ale_regs ale' = ale_regs ale)"
    if "pps = 0 \<or> 1000 \<le> pps"
    using ge [OF that]
    by (auto simp: rx_ratelimit_bc_eq [OF assms] Let_def dev_log_def)
  have s: "cpsw_ale_control_set L ale port ALE_PORT_MCAST_LIMIT v = Some (Inl EINVAL, ale)
        \<and> cpsw_ale_control_set L ale port ALE_PORT_BCAST_LIMIT v = Some (Inl EINVAL, ale)"
    if "port < 0 \<or> int (ale_ports (params ale)) \<le> port"
    using that by (simp add: limit_set [OF assms mc] limit_set [OF assms bc])
  show ?thesis using m b s by blast
qed

text \<open>
  An instance of C10: port 3 of a three-port switch at 2000 pps.
\<close>

theorem rx_ratelimit_result_discarded_witness:
  "limit_controls_loaded (example_ale (\<lambda>_. (0, 0, 0)) 0) \<and> (8 :: nat) < 64
   \<and> cpsw_ale_control_set 64 (example_ale (\<lambda>_. (0, 0, 0)) 0) 3 ALE_PORT_MCAST_LIMIT 2
        = Some (Inl EINVAL, example_ale (\<lambda>_. (0, 0, 0)) 0)
   \<and> cpsw_ale_control_set 64 (example_ale (\<lambda>_. (0, 0, 0)) 0) 3 ALE_PORT_BCAST_LIMIT 2
        = Some (Inl EINVAL, example_ale (\<lambda>_. (0, 0, 0)) 0)
   \<and> (\<exists>ale'. cpsw_ale_rx_ratelimit_mc 64 (example_ale (\<lambda>_. (0, 0, 0)) 0) 3 2000
                 = Some (Inr (), ale')
          \<and> ale_regs ale' = ale_regs (example_ale (\<lambda>_. (0, 0, 0)) 0))
   \<and> (\<exists>ale'. cpsw_ale_rx_ratelimit_bc 64 (example_ale (\<lambda>_. (0, 0, 0)) 0) 3 2000
                 = Some (Inr (), ale')
          \<and> ale_regs ale' = ale_regs (example_ale (\<lambda>_. (0, 0, 0)) 0))"
proof -
  let ?ale = "example_ale (\<lambda>_. (0, 0, 0)) 0"
  have h: "limit_controls_loaded ?ale" "(8 :: nat) < 64"
    by (simp_all add: limit_controls_loaded_def example_ale_def ale_controls_init_def
        ALE_NUM_CONTROLS_def ALE_PORT_MCAST_LIMIT_def ALE_PORT_BCAST_LIMIT_def)
  have p: "(3 :: int) < 0 \<or> int (ale_ports (params ?ale)) \<le> 3" by (simp add: example_ale_def)
  have r: "(2000 :: u32) = 0 \<or> (1000 :: u32) \<le> 2000" by simp
  from rx_ratelimit_result_discarded [OF h, of 2000 3 2] p r h show ?thesis by fastforce
qed


text \<open>
  Claim C6.  \<^verbatim>\<open>cpsw_ale_del_mcast\<close> on a key that no entry matches returns
  \<open>ENOENT\<close> and leaves the handle, the table included, as it was.  When the
  first entry matching the key is at index \<open>i\<close> and stores the port mask \<open>m\<close>,
  the call succeeds and rewrites only index \<open>i\<close>: if the argument port mask is
  zero, or \<open>m AND NOT port_mask\<close> is zero, with the entry set to type Free,
  whatever members it stores; otherwise with the entry's port mask set to
  \<open>m AND NOT port_mask\<close>, the entry still matching the key.
\<close>

theorem del_mcast_members:
  assumes ok: "ale_ok L ale" and len: "6 \<le> length addr"
  shows
    "(first_index (key_match L addr (key_vid flags vid)) ale = None \<longrightarrow>
        cpsw_ale_del_mcast L ale addr pm flags vid = Some (Inl ENOENT, ale))
     \<and> (\<forall>i m. first_index (key_match L addr (key_vid flags vid)) ale = Some i
            \<and> cpsw_ale_get_port_mask L (ale_table ale i) (port_mask_bits ale) = Some m \<longrightarrow>
          (\<exists>e'. cpsw_ale_del_mcast L ale addr pm flags vid
                  = Some (Inr (), cpsw_ale_write ale i e')
             \<and> (if pm = 0 \<or> m AND NOT pm = 0
                then cpsw_ale_set_entry_type L (ale_table ale i) ALE_TYPE_FREE = Some e'
                     \<and> is_free L e'
                else cpsw_ale_set_port_mask L (ale_table ale i) (m AND NOT pm)
                       (port_mask_bits ale) = Some e'
                     \<and> cpsw_ale_get_port_mask L e' (port_mask_bits ale) = Some (m AND NOT pm)
                     \<and> key_match L addr (key_vid flags vid) e')))"
proof -
  note L = ale_ok_L [OF ok]
  have b: "1 \<le> unat (port_mask_bits ale)" "unat (port_mask_bits ale) \<le> 30"
    using ok by (simp_all add: ale_ok_def)
  have absent: "cpsw_ale_del_mcast L ale addr pm flags vid = Some (Inl ENOENT, ale)"
    if "first_index (key_match L addr (key_vid flags vid)) ale = None"
    using that by (simp add: del_mcast_eq [OF ok len])
  have found: "\<exists>e'. cpsw_ale_del_mcast L ale addr pm flags vid
                  = Some (Inr (), cpsw_ale_write ale i e')
             \<and> (if pm = 0 \<or> m AND NOT pm = 0
                then cpsw_ale_set_entry_type L (ale_table ale i) ALE_TYPE_FREE = Some e'
                     \<and> is_free L e'
                else cpsw_ale_set_port_mask L (ale_table ale i) (m AND NOT pm)
                       (port_mask_bits ale) = Some e'
                     \<and> cpsw_ale_get_port_mask L e' (port_mask_bits ale) = Some (m AND NOT pm)
                     \<and> key_match L addr (key_vid flags vid) e')"
    if i: "first_index (key_match L addr (key_vid flags vid)) ale = Some i"
      and m: "cpsw_ale_get_port_mask L (ale_table ale i) (port_mask_bits ale) = Some m"
    for i m
  proof -
    have m_eq: "m = gf (ale_table ale i) 66 (unat (port_mask_bits ale))"
      using m by (simp add: port_accessors [OF ok])
    have key: "key_match L addr (key_vid flags vid) (ale_table ale i)"
      by (rule first_index_SomeD(2) [OF i])
    show ?thesis
    proof (cases "pm = 0 \<or> m AND NOT pm = 0")
      case True
      then show ?thesis
        using m_eq
        by (intro exI [of _ "sf (ale_table ale i) 60 2 ALE_TYPE_FREE"])
           (auto simp: del_mcast_eq [OF ok len] i setters [OF L] is_free_iff [OF L] gf_sf_same)
    next
      case False
      then show ?thesis
        using m_eq key b
        by (intro exI [of _ "sf (ale_table ale i) 66 (unat (port_mask_bits ale)) (m AND NOT pm)"])
           (auto simp: del_mcast_eq [OF ok len] i port_accessors [OF ok] key_match_iff [OF L]
            gf_sf_same gf_sf_other gf_and_mask2 mac_sf)
    qed
  qed
  from absent found show ?thesis by blast
qed

text \<open>
  An instance of C6: a one-entry table holding the multicast address
  01:00:5e:00:00:01 with port mask \<open>0b011\<close>; deleting port mask \<open>0b001\<close> rewrites
  the entry with port mask \<open>0b010\<close>.
\<close>

theorem del_mcast_members_witness:
  "ale_ok 64 (example_ale (\<lambda>_. (0xC, 0x10000100, 0x5e000001)) 1)
   \<and> 6 \<le> length [1, 0, 0x5e, 0, 0, 1 :: u8]
   \<and> (\<exists>e'. cpsw_ale_del_mcast 64 (example_ale (\<lambda>_. (0xC, 0x10000100, 0x5e000001)) 1)
              [1, 0, 0x5e, 0, 0, 1] 1 0 0
            = Some (Inr (), cpsw_ale_write
                 (example_ale (\<lambda>_. (0xC, 0x10000100, 0x5e000001)) 1) 0 e')
          \<and> cpsw_ale_get_port_mask 64 e' 3 = Some 2)"
proof -
  define ex where "ex = example_ale (\<lambda>_. (0xC, 0x10000100, 0x5e000001)) 1"
  have ok: "ale_ok 64 ex" by (simp add: ale_ok_def ex_def example_ale_def)
  have len: "6 \<le> length [1, 0, 0x5e, 0, 0, 1 :: u8]" by simp
  have f: "ale_table ex 0 = (0xC, 0x10000100, 0x5e000001)" "port_mask_bits ex = 3"
    "ale_entries (params ex) = 1"
    by (simp_all add: ex_def example_ale_def)
  have i: "first_index (key_match 64 [1, 0, 0x5e, 0, 0, 1] (key_vid 0 0)) ex = Some 0"
    by (simp add: first_index_def f key_match_iff key_vid_def mac_of_def gf_def
        mask_eq_exp_minus_1 ALE_TYPE_ADDR_def)
  have m: "cpsw_ale_get_port_mask 64 (ale_table ex 0) (port_mask_bits ex) = Some 3"
    by (simp add: port_accessors(1) [OF ok, unfolded f(2)] f gf_def mask_eq_exp_minus_1)
  have n: "\<not> ((1 :: u32) = 0 \<or> (3 :: u32) AND NOT 1 = 0)" "(3 :: u32) AND NOT 1 = 2"
    by simp_all
  from del_mcast_members [OF ok len, of 0 0 1] i m
  obtain e' where "cpsw_ale_del_mcast 64 ex [1, 0, 0x5e, 0, 0, 1] 1 0 0
                  = Some (Inr (), cpsw_ale_write ex 0 e')"
    and "if (1 :: u32) = 0 \<or> (3 :: u32) AND NOT 1 = 0
         then cpsw_ale_set_entry_type 64 (ale_table ex 0) ALE_TYPE_FREE = Some e'
              \<and> is_free 64 e'
         else cpsw_ale_set_port_mask 64 (ale_table ex 0) (3 AND NOT 1) (port_mask_bits ex) = Some e'
              \<and> cpsw_ale_get_port_mask 64 e' (port_mask_bits ex) = Some (3 AND NOT 1)
              \<and> key_match 64 [1, 0, 0x5e, 0, 0, 1] (key_vid 0 0) e'"
    by blast
  then have "cpsw_ale_del_mcast 64 ex [1, 0, 0x5e, 0, 0, 1] 1 0 0
                  = Some (Inr (), cpsw_ale_write ex 0 e')
     \<and> cpsw_ale_get_port_mask 64 e' 3 = Some 2"
    using n f(2) by simp
  with ok len show ?thesis unfolding ex_def by blast
qed




text \<open>
  Claim C4.  When the first entry matching the (MAC, VLAN) key is at index \<open>i\<close>
  and stores the port mask \<open>m\<close>, \<^verbatim>\<open>cpsw_ale_add_mcast\<close> rewrites index \<open>i\<close>
  with an entry that still matches the key and whose port mask is \<open>m\<close> OR the
  incoming mask (cut to the port-mask width).  For a key with a valid VLAN id
  that no entry matches, in a table where the allocation has a target \<open>t\<close>
  and the port mask is at least two bits wide: adding the address with mask
  \<open>0b001\<close> and then with mask \<open>0b010\<close> succeeds twice, after which index \<open>t\<close>
  is the only index whose entry matches the key and its port mask is \<open>0b011\<close>.
\<close>

theorem add_mcast_merge:
  assumes ok: "ale_ok L ale" and len: "6 \<le> length addr"
    and vid: "unat (key_vid flags vid) < VLAN_N_VID"
  shows
    "(\<forall>i m. first_index (key_match L addr (key_vid flags vid)) ale = Some i
          \<and> cpsw_ale_get_port_mask L (ale_table ale i) (port_mask_bits ale) = Some m \<longrightarrow>
        (\<exists>e'. cpsw_ale_add_mcast L ale addr port_mask flags vid mcast_state
                 = Some (Inr (), cpsw_ale_write ale i e')
           \<and> cpsw_ale_get_port_mask L e' (port_mask_bits ale)
                 = Some (m OR (port_mask AND mask (unat (port_mask_bits ale))))
           \<and> key_match L addr (key_vid flags vid) e'))
     \<and> (\<forall>t. first_index (key_match L addr (key_vid flags vid)) ale = None
          \<and> spec_alloc L ale (key_match L addr (key_vid flags vid)) = Some t
          \<and> 2 \<le> unat (port_mask_bits ale) \<longrightarrow>
        (\<exists>ale1 ale2.
            cpsw_ale_add_mcast L ale addr 1 flags vid mcast_state = Some (Inr (), ale1)
          \<and> cpsw_ale_add_mcast L ale1 addr 2 flags vid mcast_state = Some (Inr (), ale2)
          \<and> (\<forall>j<ale_entries (params ale2).
                key_match L addr (key_vid flags vid) (ale_table ale2 j) \<longleftrightarrow> j = t)
          \<and> cpsw_ale_get_port_mask L (ale_table ale2 t) (port_mask_bits ale2) = Some 3))"
proof -
  note L = ale_ok_L [OF ok]
  define b where "b = unat (port_mask_bits ale)"
  define K where "K = key_match L addr (key_vid flags vid)"
  have b: "1 \<le> b" "b \<le> 30" using ok by (simp_all add: ale_ok_def b_def)
  have v: "flags AND ALE_VLAN \<noteq> 0 \<longrightarrow> unat vid < 4096"
    using vid by (simp add: key_vid_def VLAN_N_VID_def split: if_splits)
  have zk: "flags AND ALE_VLAN = 0 \<longrightarrow> gf e 48 12 = 0" if "K e" for e
    using that by (simp add: K_def key_match_iff [OF L] key_vid_def)
  have built: "K (mcast_entry b e0 addr pm flags vid mcast_state)"
    if "flags AND ALE_VLAN = 0 \<longrightarrow> gf e0 48 12 = 0" for e0 pm
    unfolding K_def by (rule mcast_entry_key [OF L b len v that])
  have pa: "cpsw_ale_get_port_mask L e (port_mask_bits ale) = Some (gf e 66 b)" for e
    by (simp add: port_accessors [OF ok] b_def)
  have found: "\<exists>e'. cpsw_ale_add_mcast L ale addr port_mask flags vid mcast_state
                 = Some (Inr (), cpsw_ale_write ale i e')
           \<and> cpsw_ale_get_port_mask L e' (port_mask_bits ale)
                 = Some (m OR (port_mask AND mask (unat (port_mask_bits ale))))
           \<and> key_match L addr (key_vid flags vid) e'"
    if i: "first_index (key_match L addr (key_vid flags vid)) ale = Some i"
      and m: "cpsw_ale_get_port_mask L (ale_table ale i) (port_mask_bits ale) = Some m"
    for i m
  proof -
    have m_eq: "m = gf (ale_table ale i) 66 b" using m by (simp add: pa)
    have k0: "K (ale_table ale i)" unfolding K_def by (rule first_index_SomeD(2) [OF i])
    have r: "cpsw_ale_add_mcast L ale addr port_mask flags vid mcast_state
        = Some (Inr (), cpsw_ale_write ale i
                 (mcast_entry b (ale_table ale i) addr port_mask flags vid mcast_state))"
      by (simp add: add_mcast_eq [OF ok len] spec_alloc_def i add_result_def start_entry_def
          b_def)
    have p: "cpsw_ale_get_port_mask L
          (mcast_entry b (ale_table ale i) addr port_mask flags vid mcast_state)
          (port_mask_bits ale) = Some (m OR (port_mask AND mask (unat (port_mask_bits ale))))"
      by (simp add: pa mcast_entry_mask [OF b] m_eq or.commute b_def [symmetric])
    from r p built [OF zk [OF k0], of port_mask] show ?thesis
      unfolding K_def by blast
  qed
  have fresh: "\<exists>ale1 ale2.
            cpsw_ale_add_mcast L ale addr 1 flags vid mcast_state = Some (Inr (), ale1)
          \<and> cpsw_ale_add_mcast L ale1 addr 2 flags vid mcast_state = Some (Inr (), ale2)
          \<and> (\<forall>j<ale_entries (params ale2).
                key_match L addr (key_vid flags vid) (ale_table ale2 j) \<longleftrightarrow> j = t)
          \<and> cpsw_ale_get_port_mask L (ale_table ale2 t) (port_mask_bits ale2) = Some 3"
    if none: "first_index (key_match L addr (key_vid flags vid)) ale = None"
      and t: "spec_alloc L ale (key_match L addr (key_vid flags vid)) = Some t"
      and two: "2 \<le> unat (port_mask_bits ale)"
    for t
  proof -
    define e1 where "e1 = mcast_entry b (0, 0, 0) addr 1 flags vid mcast_state"
    define ale1 where "ale1 = cpsw_ale_write ale t e1"
    define e2 where "e2 = mcast_entry b e1 addr 2 flags vid mcast_state"
    define ale2 where "ale2 = cpsw_ale_write ale1 t e2"
    have tn: "t < ale_entries (params ale)" by (rule spec_alloc_bound [OF t])
    have k1: "K e1" unfolding e1_def by (rule built) simp
    have k2: "K e2" unfolding e2_def by (rule built [OF zk [OF k1]])
    have r1: "cpsw_ale_add_mcast L ale addr 1 flags vid mcast_state = Some (Inr (), ale1)"
      by (simp add: add_mcast_eq [OF ok len] t none add_result_def start_entry_def
          b_def ale1_def e1_def)
    have ok1: "ale_ok L ale1" using ok by (simp add: ale1_def)
    have i1: "first_index (key_match L addr (key_vid flags vid)) ale1 = Some t"
      unfolding ale1_def using none tn k1 unfolding K_def by (rule first_index_write_new)
    have r2: "cpsw_ale_add_mcast L ale1 addr 2 flags vid mcast_state = Some (Inr (), ale2)"
      by (simp add: add_mcast_eq [OF ok1 len] spec_alloc_def i1 add_result_def start_entry_def
          ale2_def e2_def) (simp add: ale1_def b_def)
    have tbl: "ale_table ale2 = (ale_table ale)(t := e2)"
      "ale_entries (params ale2) = ale_entries (params ale)"
      "port_mask_bits ale2 = port_mask_bits ale"
      by (simp_all add: ale2_def ale1_def)
    have uniq: "\<forall>j<ale_entries (params ale2).
                key_match L addr (key_vid flags vid) (ale_table ale2 j) \<longleftrightarrow> j = t"
      using first_index_NoneD [OF none] k2 by (auto simp: tbl K_def)
    have b2: "2 \<le> b" using two by (simp add: b_def)
    have "gf e2 66 b = 3"
      by (simp add: e2_def e1_def mcast_entry_mask [OF b] one_two_mask [OF b2])
    then have pm: "cpsw_ale_get_port_mask L (ale_table ale2 t) (port_mask_bits ale2) = Some 3"
      by (simp add: tbl pa)
    from r1 r2 uniq pm show ?thesis by blast
  qed
  from found fresh show ?thesis by blast
qed


text \<open>
  An instance of C4: a table of two Free entries; the multicast address
  01:00:5e:00:00:01 added with mask \<open>0b001\<close> and then with mask \<open>0b010\<close> ends up
  at index 0 with port mask \<open>0b011\<close>.
\<close>

theorem add_mcast_merge_witness:
  "ale_ok 64 (example_ale (\<lambda>_. (0, 0, 0)) 2) \<and> 6 \<le> length [1, 0, 0x5e, 0, 0, 1 :: u8]
   \<and> unat (key_vid 0 0) < VLAN_N_VID
   \<and> (\<exists>ale1 ale2.
         cpsw_ale_add_mcast 64 (example_ale (\<lambda>_. (0, 0, 0)) 2) [1, 0, 0x5e, 0, 0, 1] 1 0 0 0
           = Some (Inr (), ale1)
       \<and> cpsw_ale_add_mcast 64 ale1 [1, 0, 0x5e, 0, 0, 1] 2 0 0 0 = Some (Inr (), ale2)
       \<and> cpsw_ale_get_port_mask 64 (ale_table ale2 0) (port_mask_bits ale2) = Some 3)"
proof -
  define ex where "ex = example_ale (\<lambda>_. (0, 0, 0)) 2"
  define K where "K = key_match 64 [1, 0, 0x5e, 0, 0, 1] (key_vid 0 0)"
  have ok: "ale_ok 64 ex" by (simp add: ale_ok_def ex_def example_ale_def)
  have len: "6 \<le> length [1, 0, 0x5e, 0, 0, 1 :: u8]" by simp
  have vid: "unat (key_vid 0 0) < VLAN_N_VID" by (simp add: key_vid_def VLAN_N_VID_def)
  have f: "ale_table ex = (\<lambda>_. (0, 0, 0))" "ale_entries (params ex) = 2"
    "port_mask_bits ex = 3"
    by (simp_all add: ex_def example_ale_def)
  have none: "first_index K ex = None"
    by (simp add: K_def first_index_None_iff f key_match_iff ALE_TYPE_ADDR_def
        ALE_TYPE_VLAN_ADDR_def)
  have free: "first_index (is_free 64) ex = Some 0"
    by (simp add: first_index_Some_iff f is_free_iff ALE_TYPE_FREE_def)
  have t: "spec_alloc 64 ex K = Some 0" by (simp add: spec_alloc_def none free)
  have two: "2 \<le> unat (port_mask_bits ex)" by (simp add: f)
  from add_mcast_merge [OF ok len vid, of 0 0]
  have "\<forall>t. first_index K ex = None \<and> spec_alloc 64 ex K = Some t
          \<and> 2 \<le> unat (port_mask_bits ex) \<longrightarrow>
        (\<exists>ale1 ale2.
            cpsw_ale_add_mcast 64 ex [1, 0, 0x5e, 0, 0, 1] 1 0 0 0 = Some (Inr (), ale1)
          \<and> cpsw_ale_add_mcast 64 ale1 [1, 0, 0x5e, 0, 0, 1] 2 0 0 0 = Some (Inr (), ale2)
          \<and> (\<forall>j<ale_entries (params ale2). K (ale_table ale2 j) \<longleftrightarrow> j = t)
          \<and> cpsw_ale_get_port_mask 64 (ale_table ale2 t) (port_mask_bits ale2) = Some 3)"
    unfolding K_def by (rule conjunct2)
  from this [rule_format, of 0] none t two
  have "\<exists>ale1 ale2.
         cpsw_ale_add_mcast 64 ex [1, 0, 0x5e, 0, 0, 1] 1 0 0 0 = Some (Inr (), ale1)
       \<and> cpsw_ale_add_mcast 64 ale1 [1, 0, 0x5e, 0, 0, 1] 2 0 0 0 = Some (Inr (), ale2)
       \<and> cpsw_ale_get_port_mask 64 (ale_table ale2 0) (port_mask_bits ale2) = Some 3"
    by blast
  with ok len vid show ?thesis unfolding ex_def by blast
qed


text \<open>
  Claim C5, as amended.  \<^verbatim>\<open>cpsw_ale_del_vlan\<close> on a VLAN id that no entry
  matches returns \<open>ENOENT\<close> and changes nothing.  When the first entry matching
  the id is at index \<open>i\<close> and its member list is \<open>m\<close>, the call succeeds and
  rewrites only index \<open>i\<close>: if the argument port mask is zero or
  \<open>m AND NOT port_mask\<close> is zero, the entry is set to type Free and bit \<open>vid\<close>
  of the host-port untag bitmap is cleared; otherwise the entry still matches
  the VLAN id and its member list is \<open>m\<close> without the ports of the argument
  other than the host port, \<open>m AND NOT (port_mask AND NOT ALE_PORT_HOST)\<close>.
\<close>

theorem del_vlan_members:
  assumes ok: "vlan_ok L ale"
  shows
    "(first_index (vlan_match L vid) ale = None \<longrightarrow>
        cpsw_ale_del_vlan L ale vid port_mask = Some (Inl ENOENT, ale))
     \<and> (\<forall>i m. first_index (vlan_match L vid) ale = Some i
            \<and> cpsw_ale_vlan_get_fld L ale (ale_table ale i) ALE_ENT_VID_MEMBER_LIST
                = Some (m, ale) \<longrightarrow>
          (\<exists>e' ale'. cpsw_ale_del_vlan L ale vid port_mask = Some (Inr (), ale')
             \<and> ale_table ale' = (ale_table ale)(i := e')
             \<and> (if port_mask = 0 \<or> m AND NOT port_mask = 0
                then is_free L e'
                     \<and> p0_untag_vid_mask ale' = p0_untag_vid_mask ale - {unat vid}
                else vlan_match L vid e'
                     \<and> cpsw_ale_vlan_get_fld L ale' e' ALE_ENT_VID_MEMBER_LIST
                         = Some (m AND NOT (port_mask AND NOT ALE_PORT_HOST), ale'))))"
proof -
  note d = vlan_ok_D [OF ok]
  note L = d(2)
  have absent: "cpsw_ale_del_vlan L ale vid port_mask = Some (Inl ENOENT, ale)"
    if "first_index (vlan_match L vid) ale = None"
    by (rule del_vlan_absent [OF ok that])
  have found: "\<exists>e' ale'. cpsw_ale_del_vlan L ale vid port_mask = Some (Inr (), ale')
             \<and> ale_table ale' = (ale_table ale)(i := e')
             \<and> (if port_mask = 0 \<or> m AND NOT port_mask = 0
                then is_free L e'
                     \<and> p0_untag_vid_mask ale' = p0_untag_vid_mask ale - {unat vid}
                else vlan_match L vid e'
                     \<and> cpsw_ale_vlan_get_fld L ale' e' ALE_ENT_VID_MEMBER_LIST
                         = Some (m AND NOT (port_mask AND NOT ALE_PORT_HOST), ale'))"
    if i: "first_index (vlan_match L vid) ale = Some i"
      and m: "cpsw_ale_vlan_get_fld L ale (ale_table ale i) ALE_ENT_VID_MEMBER_LIST
                = Some (m, ale)"
    for i m
  proof -
    have m_eq: "m = gf (ale_table ale i) 0 (member_bits ale)"
      using m by (simp add: member_untag_fld [OF ok])
    have "vlan_match L vid (ale_table ale i)" by (rule first_index_SomeD(2) [OF i])
    then have "gf (ale_table ale i) 48 12 = ucast vid" by (simp add: vlan_match_iff [OF L])
    then have vid: "unat vid < VLAN_N_VID" by (rule vid_bound)
    show ?thesis
    proof (cases "port_mask = 0 \<or> m AND NOT port_mask = 0")
      case True
      then have last: "port_mask = 0
          \<or> gf (ale_table ale i) 0 (member_bits ale) AND NOT port_mask = 0"
        by (simp add: m_eq)
      define e' where
        "e' = sf (sf (ale_table ale i) 24 (member_bits ale) 0) 60 2 ALE_TYPE_FREE"
      have "is_free L e'" by (simp add: is_free_iff [OF L] e'_def gf_sf_same)
      with True show ?thesis
        by (intro exI [of _ e'] exI [of _ "ale\<lparr>p0_untag_vid_mask := p0_untag_vid_mask ale - {unat vid},
                        ale_table := (ale_table ale)(i := e')\<rparr>"])
           (simp add: del_vlan_free [OF ok vid i last] e'_def)
    next
      case False
      then have pm: "port_mask \<noteq> 0"
        and rest: "gf (ale_table ale i) 0 (member_bits ale) AND NOT port_mask \<noteq> 0"
        by (simp_all add: m_eq)
      from del_vlan_modify [OF ok vid i pm rest]
      obtain e' ale' where r: "cpsw_ale_del_vlan L ale vid port_mask = Some (Inr (), ale')"
        and p: "ale_table ale' = (ale_table ale)(i := e')" "vlan_ok L ale'"
          "member_bits ale' = member_bits ale"
          "gf e' 60 2 = ALE_TYPE_VLAN" "gf e' 48 12 = ucast vid"
          "gf e' 0 (member_bits ale)
             = gf (ale_table ale i) 0 (member_bits ale) AND NOT (port_mask AND NOT ALE_PORT_HOST)"
        by blast
      have vm: "vlan_match L vid e'" using p(4,5) by (simp add: vlan_match_iff [OF L])
      have g: "cpsw_ale_vlan_get_fld L ale' e' ALE_ENT_VID_MEMBER_LIST
                 = Some (m AND NOT (port_mask AND NOT ALE_PORT_HOST), ale')"
        by (simp add: member_untag_fld [OF p(2)] p(3,6) m_eq)
      from False r p(1) vm g show ?thesis
        by (intro exI [of _ e'] exI [of _ ale']) simp
    qed
  qed
  from absent found show ?thesis by blast
qed

text \<open>
  An instance of C5: a one-entry table holding VLAN 5 with the member list
  \<open>0b110\<close> (ports 1 and 2).  Deleting port 1 leaves the entry matching VLAN 5
  with the member list \<open>0b100\<close>.
\<close>

theorem del_vlan_members_witness:
  "vlan_ok 64 (example_ale (\<lambda>_. (0, 0x20050000, 6)) 1)
   \<and> (\<exists>e' ale'. cpsw_ale_del_vlan 64 (example_ale (\<lambda>_. (0, 0x20050000, 6)) 1) 5 2
                   = Some (Inr (), ale')
        \<and> ale_table ale' = (\<lambda>_. (0, 0x20050000, 6))(0 := e')
        \<and> vlan_match 64 5 e'
        \<and> cpsw_ale_vlan_get_fld 64 ale' e' ALE_ENT_VID_MEMBER_LIST = Some (4, ale'))"
proof -
  define ex where "ex = example_ale (\<lambda>_. (0, 0x20050000, 6)) 1"
  have ok: "vlan_ok 64 ex" by (simp add: vlan_ok_def ale_ok_def ex_def example_ale_def)
  have f: "ale_table ex = (\<lambda>_. (0, 0x20050000, 6))" "ale_entries (params ex) = 1"
    "member_bits ex = 3"
    by (simp_all add: ex_def example_ale_def member_bits_def)
  have i: "first_index (vlan_match 64 5) ex = Some 0"
    by (simp add: first_index_Some_iff f vlan_match_iff gf_def mask_eq_exp_minus_1
        ALE_TYPE_VLAN_def)
  have m: "cpsw_ale_vlan_get_fld 64 ex (ale_table ex 0) ALE_ENT_VID_MEMBER_LIST = Some (6, ex)"
    by (simp add: member_untag_fld [OF ok] f gf_def mask_eq_exp_minus_1)
  have n: "\<not> ((2 :: u32) = 0 \<or> (6 :: u32) AND NOT 2 = 0)"
    "(6 :: u32) AND NOT (2 AND NOT ALE_PORT_HOST) = 4"
    by (simp_all add: ALE_PORT_HOST_def)
  from del_vlan_members [OF ok, of 5 2]
  have "\<forall>i m. first_index (vlan_match 64 5) ex = Some i
            \<and> cpsw_ale_vlan_get_fld 64 ex (ale_table ex i) ALE_ENT_VID_MEMBER_LIST
                = Some (m, ex) \<longrightarrow>
          (\<exists>e' ale'. cpsw_ale_del_vlan 64 ex 5 2 = Some (Inr (), ale')
             \<and> ale_table ale' = (ale_table ex)(i := e')
             \<and> (if (2 :: u32) = 0 \<or> m AND NOT 2 = 0
                then is_free 64 e'
                     \<and> p0_untag_vid_mask ale' = p0_untag_vid_mask ex - {unat (5 :: u16)}
                else vlan_match 64 5 e'
                     \<and> cpsw_ale_vlan_get_fld 64 ale' e' ALE_ENT_VID_MEMBER_LIST
                         = Some (m AND NOT (2 AND NOT ALE_PORT_HOST), ale')))"
    by (rule conjunct2)
  from this [rule_format, of 0 6] i m
  obtain e' ale' where "cpsw_ale_del_vlan 64 ex 5 2 = Some (Inr (), ale')"
    "ale_table ale' = (ale_table ex)(0 := e')"
    "if (2 :: u32) = 0 \<or> (6 :: u32) AND NOT 2 = 0
                then is_free 64 e'
                     \<and> p0_untag_vid_mask ale' = p0_untag_vid_mask ex - {unat (5 :: u16)}
                else vlan_match 64 5 e'
                     \<and> cpsw_ale_vlan_get_fld 64 ale' e' ALE_ENT_VID_MEMBER_LIST
                         = Some (6 AND NOT (2 AND NOT ALE_PORT_HOST), ale')"
    by blast
  then have "cpsw_ale_del_vlan 64 ex 5 2 = Some (Inr (), ale')
        \<and> ale_table ale' = (\<lambda>_. (0, 0x20050000, 6))(0 := e')
        \<and> vlan_match 64 5 e'
        \<and> cpsw_ale_vlan_get_fld 64 ale' e' ALE_ENT_VID_MEMBER_LIST = Some (4, ale')"
    using n by (simp add: f)
  with ok show ?thesis unfolding ex_def by blast
qed

text \<open>
  Claim C5 as it is stated covers every pair of member ports.  It fails when
  the port deleted is the host port: \<^verbatim>\<open>cpsw_ale_del_vlan\<close> clears
  \<^verbatim>\<open>ALE_PORT_HOST\<close> from its argument before it modifies the entry.  With VLAN 5
  whose member list is \<open>0b011\<close> (host port and port 1), deleting port mask
  \<open>0b001\<close> succeeds and leaves the handle as it was, the member list still
  \<open>0b011\<close> and not \<open>0b010\<close>.
\<close>

theorem del_vlan_host_port_counterexample:
  "cpsw_ale_vlan_get_fld 64 (example_ale vlan5_table 1) (vlan5_table 0) ALE_ENT_VID_MEMBER_LIST
     = Some (3, example_ale vlan5_table 1)
   \<and> cpsw_ale_del_vlan 64 (example_ale vlan5_table 1) 5 1
     = Some (Inr (), example_ale vlan5_table 1)"
proof -
  define ex where "ex = example_ale vlan5_table 1"
  have ok: "vlan_ok 64 ex" by (simp add: vlan_ok_def ale_ok_def ex_def example_ale_def)
  have f: "ale_table ex = vlan5_table" "ale_entries (params ex) = 1"
    "member_bits ex = 3" "vlan_entry_tbl ex = vlan_entry_cpsw" "\<not> nu_switch_ale (params ex)"
    "p0_untag_vid_mask ex = {}"
    by (simp_all add: ex_def example_ale_def member_bits_def)
  have i: "first_index (vlan_match 64 5) ex = Some 0"
    by (simp add: first_index_Some_iff f vlan5_table_def vlan_match_iff gf_def
        mask_eq_exp_minus_1 ALE_TYPE_VLAN_def)
  have m: "cpsw_ale_vlan_get_fld 64 ex (vlan5_table 0) ALE_ENT_VID_MEMBER_LIST = Some (3, ex)"
    by (simp add: member_untag_fld [OF ok] f vlan5_table_def gf_def mask_eq_exp_minus_1)
  have v: "unat (5 :: u16) < VLAN_N_VID" by (simp add: VLAN_N_VID_def)
  have g: "gf (vlan5_table 0) 0 3 = 3" "gf (vlan5_table 0) 24 3 = 0"
    "gf (vlan5_table 0) 16 3 = 0" "gf (vlan5_table 0) 8 3 = 0"
    by (simp_all add: vlan5_table_def gf_def mask_eq_exp_minus_1)
  have s: "sf (sf (sf (sf (vlan5_table 0) 24 3 0) 16 3 0) 8 3 0) 0 3 3 = vlan5_table 0"
    by (simp add: vlan5_table_def sf_def Wupd_def Let_def mask_eq_exp_minus_1)
  have u: "ex\<lparr>p0_untag_vid_mask := {}\<rparr> = ex" by (simp add: ex_def example_ale_def)
  have t: "vlan5_table(0 := vlan5_table 0) = vlan5_table" by (rule ext) simp
  have w: "cpsw_ale_write ex 0 (vlan5_table 0) = ex"
    by (simp add: cpsw_ale_write_def ex_def example_ale_def)
  have d: "cpsw_ale_del_vlan 64 ex 5 1 = Some (Inr (), ex)"
    using ok v f(5)
    by (simp add: cpsw_ale_del_vlan_def searches scan_result_def i Let_def cpsw_ale_read_def
        cpsw_ale_vlan_del_modify_int_def member_untag_fld vlan_fld fld_in_tbl
        set_vlan_untag_eq fld_pos_cpsw [OF f(4)] f(1,2,3,6) g s u w ALE_PORT_HOST_def)
  from m d show ?thesis unfolding ex_def by blast
qed


end
